theory Spec2Isabelle
  imports Main "HOL-Library.Sublist" "HOL-Library.AList"
begin

section \<open>Strings and paths\<close>

text \<open>
  Python text is modelled as \<open>string\<close>. \<open>str_replace old new s\<close> is
  \<^verbatim>\<open>s.replace(old, new)\<close>: every non-overlapping occurrence of \<open>old\<close>, scanning from
  the left, is replaced by \<open>new\<close>; with an empty \<open>old\<close> Python puts \<open>new\<close> before every
  character and at the end.
\<close>

function str_replace :: "string \<Rightarrow> string \<Rightarrow> string \<Rightarrow> string" where
  "str_replace old new [] = (if old = [] then new else [])"
| "str_replace old new (c # cs) =
     (if old = [] then new @ c # str_replace old new cs
      else if prefix old (c # cs)
        then new @ str_replace old new (drop (length old) (c # cs))
      else c # str_replace old new cs)"
  by pat_completeness auto
termination
  by (relation "measure (\<lambda>(old, new, s). length s)") auto

text \<open>\<^verbatim>\<open>sub in s\<close> for two strings: \<open>sub\<close> occurs in \<open>s\<close> as a contiguous run.\<close>

fun contains :: "string \<Rightarrow> string \<Rightarrow> bool" where
  "contains sub [] = (sub = [])"
| "contains sub (c # cs) = (prefix sub (c # cs) \<or> contains sub cs)"

text \<open>\<^verbatim>\<open>sep.join(xs)\<close>.\<close>

fun str_join :: "string \<Rightarrow> string list \<Rightarrow> string" where
  "str_join sep [] = []"
| "str_join sep [x] = x"
| "str_join sep (x # y # ys) = x @ sep @ str_join sep (y # ys)"

text \<open>\<^verbatim>\<open>s.rfind(c)\<close> for a single character: the last index of \<open>c\<close>, \<open>None\<close> for Python's -1.\<close>

fun rfind :: "char \<Rightarrow> string \<Rightarrow> nat option" where
  "rfind c [] = None"
| "rfind c (x # xs) =
     (case rfind c xs of
        Some i \<Rightarrow> Some (Suc i)
      | None \<Rightarrow> if x = c then Some 0 else None)"

fun split_on :: "char \<Rightarrow> string \<Rightarrow> string list" where
  "split_on d [] = [[]]"
| "split_on d (c # cs) =
     (if c = d then [] # split_on d cs
      else (case split_on d cs of
              [] \<Rightarrow> [[c]]
            | w # ws \<Rightarrow> (c # w) # ws))"

text \<open>
  A \<^verbatim>\<open>pathlib.Path\<close> on POSIX: whether it is anchored at the root, and its components.
  The constructor drops empty components and \<^verbatim>\<open>.\<close>, and keeps \<^verbatim>\<open>..\<close>. (Two slashes
  at the very start, which POSIX sets apart, are read as one.)
\<close>

datatype ppath = PPath (is_absolute: bool) (parts: "string list")

definition Path :: "string \<Rightarrow> ppath" where
  "Path s = PPath (case s of [] \<Rightarrow> False | c # _ \<Rightarrow> c = CHR ''/'')
                  (filter (\<lambda>c. c \<noteq> [] \<and> c \<noteq> ''.'') (split_on CHR ''/'' s))"

text \<open>The operator \<^verbatim>\<open>p / s\<close>: an absolute right operand replaces the left one.\<close>

definition joinpath :: "ppath \<Rightarrow> string \<Rightarrow> ppath" where
  "joinpath p s =
     (let q = Path s
      in if is_absolute q then q else PPath (is_absolute p) (parts p @ parts q))"

definition path_name :: "ppath \<Rightarrow> string" where
  "path_name p = (case parts p of [] \<Rightarrow> [] | _ # _ \<Rightarrow> last (parts p))"

text \<open>
  \<^verbatim>\<open>PurePath.stem\<close> as Python 3.12 (the oldest version the script header admits)
  computes it: the name up to its last dot, when that dot is neither the first nor the
  last character.
\<close>

definition path_stem :: "ppath \<Rightarrow> string" where
  "path_stem p =
     (let name = path_name p
      in case rfind CHR ''.'' name of
           None \<Rightarrow> name
         | Some i \<Rightarrow> if 0 < i \<and> i + 1 < length name then take i name else name)"

definition path_str :: "ppath \<Rightarrow> string" where
  "path_str p =
     (if is_absolute p then CHR ''/'' # str_join ''/'' (parts p)
      else if parts p = [] then ''.'' else str_join ''/'' (parts p))"

text \<open>\<^verbatim>\<open>get_pkg_name\<close> and \<^verbatim>\<open>get_bin_name\<close> of main.py.\<close>

definition get_pkg_name :: "ppath \<Rightarrow> string" where
  "get_pkg_name script_path = str_replace ''-'' ''_'' (path_stem script_path)"

definition get_bin_name :: "ppath \<Rightarrow> string" where
  "get_bin_name script_path = path_stem script_path"

section \<open>Manifest documents\<close>

text \<open>
  What \<^verbatim>\<open>tomlkit\<close> hands to the program: strings, integers, booleans, the remaining
  scalars (floats, dates and times, kept as their text), arrays, and tables as
  association lists in document order.
\<close>

datatype toml =
    TStr string
  | TInt int
  | TBool bool
  | TScalar string
  | TArr "toml list"
  | TTab "(string \<times> toml) list"

datatype error =
    CalledProcessError int "string list"
  | FileNotFoundError "string list"
  | FileExistsError "string list"
  | NotADirectoryError "string list"
  | IsADirectoryError "string list"
  | UnsupportedOperation
  | KeyError string
  | AttributeError
  | TypeError
  | TOMLError
  | FormatError
  | BadParameter string

definition bindE :: "error + 'a \<Rightarrow> ('a \<Rightarrow> error + 'b) \<Rightarrow> error + 'b" where
  "bindE m f = (case m of Inl e \<Rightarrow> Inl e | Inr x \<Rightarrow> f x)"

text \<open>\<^verbatim>\<open>t[k]\<close>, \<^verbatim>\<open>t[k] = v\<close>, \<^verbatim>\<open>t.get(k, default)\<close>, \<^verbatim>\<open>e in t\<close> and \<^verbatim>\<open>t.append(e)\<close> on a value.\<close>

fun getitem :: "toml \<Rightarrow> string \<Rightarrow> error + toml" where
  "getitem (TTab t) k = (case map_of t k of None \<Rightarrow> Inl (KeyError k) | Some v \<Rightarrow> Inr v)"
| "getitem _ k = Inl TypeError"

fun setitem :: "toml \<Rightarrow> string \<Rightarrow> toml \<Rightarrow> error + toml" where
  "setitem (TTab t) k v = Inr (TTab (AList.update k v t))"
| "setitem _ k v = Inl TypeError"

fun py_get :: "toml \<Rightarrow> string \<Rightarrow> toml \<Rightarrow> error + toml" where
  "py_get (TTab t) k dflt = (case map_of t k of None \<Rightarrow> Inr dflt | Some v \<Rightarrow> Inr v)"
| "py_get _ k dflt = Inl AttributeError"

fun py_in :: "string \<Rightarrow> toml \<Rightarrow> error + bool" where
  "py_in e (TArr xs) = Inr (TStr e \<in> set xs)"
| "py_in e (TTab t) = Inr (map_of t e \<noteq> None)"
| "py_in e (TStr s) = Inr (contains e s)"
| "py_in e _ = Inl TypeError"

fun py_append :: "toml \<Rightarrow> string \<Rightarrow> error + toml" where
  "py_append (TArr xs) e = Inr (TArr (xs @ [TStr e]))"
| "py_append (TTab t) e = Inl TypeError"
| "py_append _ e = Inl AttributeError"

text \<open>
  The program mutates nested tables in place; the model rebuilds the enclosing tables
  around the changed one. \<open>set2 d a b v\<close> is \<^verbatim>\<open>d[a][b] = v\<close> and \<open>set3 d a b c v\<close> is
  \<^verbatim>\<open>d[a][b][c] = v\<close>.
\<close>

definition set2 :: "toml \<Rightarrow> string \<Rightarrow> string \<Rightarrow> toml \<Rightarrow> error + toml" where
  "set2 d a b v =
     bindE (getitem d a) (\<lambda>p.
     bindE (setitem p b v) (\<lambda>p'.
     setitem d a p'))"

definition set3 :: "toml \<Rightarrow> string \<Rightarrow> string \<Rightarrow> string \<Rightarrow> toml \<Rightarrow> error + toml" where
  "set3 d a b c v =
     bindE (getitem d a) (\<lambda>p.
     bindE (getitem p b) (\<lambda>s.
     bindE (setitem s c v) (\<lambda>s'.
     bindE (setitem p b s') (\<lambda>p'.
     setitem d a p'))))"

definition entry_point :: "string \<Rightarrow> string" where
  "entry_point pkg_name = pkg_name @ ''.main:main''"

definition dep_entry :: "string \<Rightarrow> string \<Rightarrow> string" where
  "dep_entry pkg_name git_url = pkg_name @ '' @ '' @ git_url"

definition get2 :: "toml \<Rightarrow> string \<Rightarrow> string \<Rightarrow> error + toml" where
  "get2 d a b = bindE (getitem d a) (\<lambda>p. getitem p b)"

definition get3 :: "toml \<Rightarrow> string \<Rightarrow> string \<Rightarrow> string \<Rightarrow> error + toml" where
  "get3 d a b c = bindE (get2 d a b) (\<lambda>s. getitem s c)"

text \<open>
  The body of \<^verbatim>\<open>update_umbrella_deps_bin\<close> between \<^verbatim>\<open>tomlkit.load\<close> and
  \<^verbatim>\<open>tomlkit.dumps\<close>: its part 1 (lines 41 to 45) and its part 2 (lines 48 to 52).
  Part 2 is written a second time, with the same text, in \<^verbatim>\<open>migrate\<close>
  (lines 128 to 130); the model shares it.
\<close>

definition add_dependency :: "toml \<Rightarrow> string \<Rightarrow> error + toml" where
  "add_dependency data entry =
     bindE (py_get data ''project'' (TTab [])) (\<lambda>proj.
     bindE (py_get proj ''dependencies'' (TArr [])) (\<lambda>deps.
     bindE (py_in entry deps) (\<lambda>present.
     if \<not> present
     then bindE (py_append deps entry) (\<lambda>deps'.
          set2 data ''project'' ''dependencies'' deps')
     else Inr data)))"

definition set_entry_point :: "toml \<Rightarrow> string \<Rightarrow> string \<Rightarrow> error + toml" where
  "set_entry_point data pkg_name bin_name =
     bindE (getitem data ''project'') (\<lambda>proj.
     bindE (py_in ''scripts'' proj) (\<lambda>has.
     bindE (if \<not> has then set2 data ''project'' ''scripts'' (TTab []) else Inr data)
       (\<lambda>data'.
     set3 data' ''project'' ''scripts'' bin_name (TStr (entry_point pkg_name)))))"

definition umbrella_edit :: "toml \<Rightarrow> string \<Rightarrow> string \<Rightarrow> string \<Rightarrow> error + toml" where
  "umbrella_edit data pkg_name bin_name git_url =
     bindE (add_dependency data (dep_entry pkg_name git_url)) (\<lambda>data'.
     set_entry_point data' pkg_name bin_name)"

text \<open>The edit of the package's own manifest in \<^verbatim>\<open>migrate\<close> (lines 122 to 130).\<close>

definition org_readme :: toml where
  "org_readme = TTab [(''file'', TStr ''README.org''), (''content-type'', TStr ''text/org'')]"

definition package_edit :: "toml \<Rightarrow> string \<Rightarrow> string \<Rightarrow> error + toml" where
  "package_edit pp_data pkg_name bin_name =
     bindE (set2 pp_data ''project'' ''readme'' org_readme) (\<lambda>pp_data'.
     set_entry_point pp_data' pkg_name bin_name)"

section \<open>The file system, external tools and effects\<close>

text \<open>
  A file is reached by the list of its path components from the root; links and the
  meaning of \<^verbatim>\<open>..\<close> are left to the operating system and are not part of the model.
  A file holds text: what Python reads and writes in text mode, with characters below
  256. A manifest is written as the text that \<^verbatim>\<open>tomlkit.dumps\<close> prints for the
  document, and read as the document that \<^verbatim>\<open>tomlkit.load\<close> makes of the text. The
  printer and the parser are parameters of the environment, and nothing is assumed of
  one applied after the other. The other parameters are the external tools (\<^verbatim>\<open>uv\<close>,
  \<^verbatim>\<open>git\<close>: argument vector, working directory and the file system before, giving
  the exit status and the file system after) and \<^verbatim>\<open>str.format(repo=...)\<close>.

  The trace records the messages, the invocations of external tools and the files
  written; for a manifest, together with the document that was printed.
\<close>

type_synonym path = "string list"

datatype node = Dir | File string

type_synonym fsys = "path \<Rightarrow> node option"

datatype event = Echo string | Exec "string list" path int | Wrote path | Dumped path toml

record world =
  files :: fsys
  trace :: "event list"

record env =
  cwd :: path
  tool :: "string list \<Rightarrow> path \<Rightarrow> fsys \<Rightarrow> int \<times> fsys"
  loads :: "string \<Rightarrow> error + toml"
  dumps :: "toml \<Rightarrow> string"
  format_repo :: "string \<Rightarrow> string \<Rightarrow> error + string"

datatype 'a outcome = Raised error world | Returned 'a world

definition bindW :: "(world \<Rightarrow> 'a outcome) \<Rightarrow> ('a \<Rightarrow> world \<Rightarrow> 'b outcome) \<Rightarrow> world \<Rightarrow> 'b outcome"
  where
  "bindW m f w = (case m w of Raised e w' \<Rightarrow> Raised e w' | Returned x w' \<Rightarrow> f x w')"

definition ret :: "'a \<Rightarrow> world \<Rightarrow> 'a outcome" where
  "ret x w = Returned x w"

definition liftE :: "error + 'a \<Rightarrow> world \<Rightarrow> 'a outcome" where
  "liftE r w = (case r of Inl e \<Rightarrow> Raised e w | Inr x \<Rightarrow> Returned x w)"

fun world_of :: "'a outcome \<Rightarrow> world" where
  "world_of (Raised e w) = w"
| "world_of (Returned x w) = w"

fun returned :: "'a outcome \<Rightarrow> bool" where
  "returned (Raised e w) = False"
| "returned (Returned x w) = True"

fun raised :: "'a outcome \<Rightarrow> error option" where
  "raised (Raised e w) = Some e"
| "raised (Returned x w) = None"

definition fs_key :: "env \<Rightarrow> ppath \<Rightarrow> path" where
  "fs_key env p = (if is_absolute p then parts p else cwd env @ parts p)"

text \<open>The root is a directory in every file system.\<close>

definition node_at :: "fsys \<Rightarrow> path \<Rightarrow> node option" where
  "node_at fs p = (if p = [] then Some Dir else fs p)"

definition path_exists :: "env \<Rightarrow> ppath \<Rightarrow> world \<Rightarrow> bool" where
  "path_exists env p w = (node_at (files w) (fs_key env p) \<noteq> None)"

definition unless_exists :: "env \<Rightarrow> ppath \<Rightarrow> (world \<Rightarrow> unit outcome) \<Rightarrow> world \<Rightarrow> unit outcome"
  where
  "unless_exists env p m w = (if \<not> path_exists env p w then m w else Returned () w)"

definition echo :: "string \<Rightarrow> world \<Rightarrow> unit outcome" where
  "echo s w = Returned () (w\<lparr>trace := trace w @ [Echo s]\<rparr>)"

text \<open>\<^verbatim>\<open>subprocess.run(argv, cwd=dir, check=True)\<close>.\<close>

definition run_checked :: "env \<Rightarrow> string list \<Rightarrow> path \<Rightarrow> world \<Rightarrow> unit outcome" where
  "run_checked env argv dir w =
     (let (rc, fs') = tool env argv dir (files w);
          w' = \<lparr>files = fs', trace = trace w @ [Exec argv dir rc]\<rparr>
      in if rc = 0 then Returned () w' else Raised (CalledProcessError rc argv) w')"

text \<open>
  \<^verbatim>\<open>mkdir(parents=True, exist_ok=True)\<close>: walking down from \<open>p\<close>, every missing
  directory is made and every existing one is kept. A file in the way is an error,
  which names the directory that was to be made: \<^verbatim>\<open>FileExistsError\<close> when the file
  is in its place, \<^verbatim>\<open>NotADirectoryError\<close> when it is in the place of a directory
  above it.
\<close>

fun mk_down :: "fsys \<Rightarrow> path \<Rightarrow> string list \<Rightarrow> error + fsys" where
  "mk_down fs p [] = Inr fs"
| "mk_down fs p (c # cs) =
     (let q = p @ [c]
      in case fs q of
           None \<Rightarrow> mk_down (fs(q \<mapsto> Dir)) q cs
         | Some Dir \<Rightarrow> mk_down fs q cs
         | Some (File x) \<Rightarrow>
             Inl (if cs = [] then FileExistsError q else NotADirectoryError (q @ cs)))"

definition mkdir_parents :: "env \<Rightarrow> ppath \<Rightarrow> world \<Rightarrow> unit outcome" where
  "mkdir_parents env p w =
     (case mk_down (files w) [] (fs_key env p) of
        Inl e \<Rightarrow> Raised e w
      | Inr fs' \<Rightarrow> Returned () (w\<lparr>files := fs'\<rparr>))"

text \<open>
  What the operating system reports for a path at which there is nothing: a file in
  the place of one of the directories above it is \<^verbatim>\<open>NotADirectoryError\<close>, anything
  else is \<^verbatim>\<open>FileNotFoundError\<close>.
\<close>

definition is_file :: "node option \<Rightarrow> bool" where
  "is_file n = (case n of Some (File s) \<Rightarrow> True | _ \<Rightarrow> False)"

definition missing_error :: "fsys \<Rightarrow> path \<Rightarrow> error" where
  "missing_error fs k =
     (if list_ex (\<lambda>q. is_file (node_at fs q)) (prefixes (butlast k))
      then NotADirectoryError k else FileNotFoundError k)"

text \<open>Opening a file for writing: the directory above must exist, the target is not one.\<close>

definition open_w :: "fsys \<Rightarrow> path \<Rightarrow> error option" where
  "open_w fs k =
     (case node_at fs (butlast k) of
        None \<Rightarrow> Some (missing_error fs k)
      | Some (File x) \<Rightarrow> Some (NotADirectoryError k)
      | Some Dir \<Rightarrow> (if node_at fs k = Some Dir then Some (IsADirectoryError k) else None))"

text \<open>
  Writing the text \<open>s\<close> to the file at \<open>p\<close>, which is made or replaced; \<open>ev\<close> is the
  event that the trace gets. \<^verbatim>\<open>write_text\<close> writes a given text, and
  \<^verbatim>\<open>f.write(tomlkit.dumps(d))\<close> the text that the printer makes of the document.
\<close>

definition store :: "env \<Rightarrow> ppath \<Rightarrow> string \<Rightarrow> (path \<Rightarrow> event) \<Rightarrow> world \<Rightarrow> unit outcome" where
  "store env p s ev w =
     (let k = fs_key env p
      in case open_w (files w) k of
           Some e \<Rightarrow> Raised e w
         | None \<Rightarrow> Returned () \<lparr>files = (files w)(k \<mapsto> File s), trace = trace w @ [ev k]\<rparr>)"

definition write_text :: "env \<Rightarrow> ppath \<Rightarrow> string \<Rightarrow> world \<Rightarrow> unit outcome" where
  "write_text env p s = store env p s Wrote"

definition dump_toml :: "env \<Rightarrow> ppath \<Rightarrow> toml \<Rightarrow> world \<Rightarrow> unit outcome" where
  "dump_toml env p d = store env p (dumps env d) (\<lambda>k. Dumped k d)"

definition read_text :: "env \<Rightarrow> ppath \<Rightarrow> world \<Rightarrow> string outcome" where
  "read_text env p w =
     (let k = fs_key env p
      in case node_at (files w) k of
           None \<Rightarrow> Raised (missing_error (files w) k) w
         | Some Dir \<Rightarrow> Raised (IsADirectoryError k) w
         | Some (File s) \<Rightarrow> Returned s w)"

text \<open>\<^verbatim>\<open>tomlkit.load\<close> on the file opened for reading: the text of the file, parsed.\<close>

definition load_toml :: "env \<Rightarrow> ppath \<Rightarrow> world \<Rightarrow> toml outcome" where
  "load_toml env p w =
     (let k = fs_key env p
      in case node_at (files w) k of
           None \<Rightarrow> Raised (missing_error (files w) k) w
         | Some Dir \<Rightarrow> Raised (IsADirectoryError k) w
         | Some (File s) \<Rightarrow> liftE (loads env s) w)"

text \<open>
  \<^verbatim>\<open>unlink(missing_ok=True)\<close>: of the errors for a missing file, only
  \<^verbatim>\<open>FileNotFoundError\<close> is passed over.
\<close>

definition unlink_missing_ok :: "env \<Rightarrow> ppath \<Rightarrow> world \<Rightarrow> unit outcome" where
  "unlink_missing_ok env p w =
     (let k = fs_key env p
      in case node_at (files w) k of
           None \<Rightarrow>
             (case missing_error (files w) k of
                FileNotFoundError q \<Rightarrow> Returned () w
              | e \<Rightarrow> Raised e w)
         | Some Dir \<Rightarrow> Raised (IsADirectoryError k) w
         | Some (File x) \<Rightarrow> Returned () (w\<lparr>files := (files w)(k := None)\<rparr>))"

text \<open>
  \<^verbatim>\<open>with open(p) as f: f.write(s)\<close>: the file is opened in the default mode, for
  reading, so a missing file raises and a handle that opens refuses the write.
\<close>

definition open_default_write :: "env \<Rightarrow> ppath \<Rightarrow> string \<Rightarrow> world \<Rightarrow> unit outcome" where
  "open_default_write env p s w =
     (let k = fs_key env p
      in case node_at (files w) k of
           None \<Rightarrow> Raised (missing_error (files w) k) w
         | Some Dir \<Rightarrow> Raised (IsADirectoryError k) w
         | Some (File x) \<Rightarrow> Raised UnsupportedOperation w)"

section \<open>The program\<close>

text \<open>
  \<^verbatim>\<open>content.splitlines()\<close>: a line ends at a line feed, a carriage return (with a
  line feed after it, at both), a vertical tab, a form feed, a file, group or record
  separator or a next-line character; the last line need not be ended.
\<close>

definition is_linebreak :: "char \<Rightarrow> bool" where
  "is_linebreak c =
     (c \<in> set [CHR 0x0A, CHR 0x0B, CHR 0x0C, CHR 0x0D, CHR 0x1C, CHR 0x1D, CHR 0x1E, CHR 0x85])"

fun splitlines :: "string \<Rightarrow> string list" where
  "splitlines [] = []"
| "splitlines [c] = (if is_linebreak c then [[]] else [[c]])"
| "splitlines (c # d # cs) =
     (if c = CHR 0x0D \<and> d = CHR 0x0A then [] # splitlines cs
      else if is_linebreak c then [] # splitlines (d # cs)
      else (case splitlines (d # cs) of
              [] \<Rightarrow> [[c]]
            | l # ls \<Rightarrow> (c # l) # ls))"

text \<open>The wrapping of a script that defines no \<^verbatim>\<open>main\<close> (lines 106 and 107).\<close>

definition wrap_main :: "string \<Rightarrow> string" where
  "wrap_main content =
     (let indented = str_join ''\<newline>'' (map (\<lambda>line. ''    '' @ line) (splitlines content))
      in ''def main():\<newline>'' @ indented
           @ ''\<newline>\<newline>if __name__ == '__main__':\<newline>    main()'')"

definition main_py_content :: "string \<Rightarrow> string" where
  "main_py_content content =
     (if \<not> contains ''def main()'' content then wrap_main content else content)"

definition readme_text :: "string \<Rightarrow> ppath \<Rightarrow> string" where
  "readme_text bin_name script_path =
     ''* '' @ bin_name @ ''\<newline>\<newline>Migrated from `'' @ path_name script_path @ ''`''"

definition setup_umbrella :: "env \<Rightarrow> string \<Rightarrow> world \<Rightarrow> ppath outcome" where
  "setup_umbrella env path =
     (let umbrella_dir = Path path;
          pyproject_path = joinpath umbrella_dir ''pyproject.toml''
      in bindW (unless_exists env umbrella_dir
                  (bindW (echo (''Initializing umbrella package at '' @ path @ ''...'')) (\<lambda>_.
                   run_checked env [''uv'', ''init'', ''--lib'', path_str umbrella_dir] (cwd env))))
           (\<lambda>_. ret pyproject_path))"

definition update_umbrella_deps_bin ::
  "env \<Rightarrow> ppath \<Rightarrow> string \<Rightarrow> string \<Rightarrow> string \<Rightarrow> world \<Rightarrow> unit outcome" where
  "update_umbrella_deps_bin env pyproject_path pkg_name bin_name git_url =
     bindW (load_toml env pyproject_path) (\<lambda>data.
     bindW (liftE (umbrella_edit data pkg_name bin_name git_url)) (\<lambda>data'.
     dump_toml env pyproject_path data'))"

text \<open>The six numbered steps of the loop body of \<^verbatim>\<open>migrate\<close>.\<close>

definition step1_package_dir :: "env \<Rightarrow> ppath \<Rightarrow> world \<Rightarrow> unit outcome" where
  "step1_package_dir env pkg_dir =
     unless_exists env pkg_dir
       (run_checked env
          [''uv'', ''init'', ''--lib'', ''--build-backend'', ''setuptools'', path_str pkg_dir]
          (cwd env))"

definition main_py_path :: "ppath \<Rightarrow> string \<Rightarrow> ppath" where
  "main_py_path pkg_dir pkg_name =
     joinpath (joinpath (joinpath pkg_dir ''src'') pkg_name) ''main.py''"

definition step2_main_py :: "env \<Rightarrow> ppath \<Rightarrow> ppath \<Rightarrow> string \<Rightarrow> world \<Rightarrow> unit outcome" where
  "step2_main_py env script_path pkg_dir pkg_name =
     (let src_dir = joinpath (joinpath pkg_dir ''src'') pkg_name;
          main_py = joinpath src_dir ''main.py''
      in bindW (mkdir_parents env src_dir) (\<lambda>_.
         unless_exists env main_py
           (bindW (read_text env script_path) (\<lambda>content.
            write_text env main_py (main_py_content content)))))"

definition step3_readme :: "env \<Rightarrow> ppath \<Rightarrow> ppath \<Rightarrow> string \<Rightarrow> world \<Rightarrow> unit outcome" where
  "step3_readme env script_path pkg_dir bin_name =
     bindW (unlink_missing_ok env (joinpath pkg_dir ''README.md'')) (\<lambda>_.
     let readme_org = joinpath pkg_dir ''README.org''
     in unless_exists env readme_org
          (write_text env readme_org (readme_text bin_name script_path)))"

definition step4_pyproject :: "env \<Rightarrow> ppath \<Rightarrow> string \<Rightarrow> string \<Rightarrow> world \<Rightarrow> unit outcome" where
  "step4_pyproject env pkg_dir pkg_name bin_name =
     (let pp_path = joinpath pkg_dir ''pyproject.toml''
      in bindW (load_toml env pp_path) (\<lambda>pp_data.
         bindW (liftE (package_edit pp_data pkg_name bin_name)) (\<lambda>pp_data'.
         dump_toml env pp_path pp_data')))"

definition step5_git :: "env \<Rightarrow> ppath \<Rightarrow> world \<Rightarrow> unit outcome" where
  "step5_git env pkg_dir =
     bindW (unless_exists env (joinpath pkg_dir ''.git'')
              (run_checked env [''git'', ''init''] (fs_key env pkg_dir))) (\<lambda>_.
     unless_exists env (joinpath pkg_dir ''.gitignore'')
       (bindW (open_default_write env (joinpath pkg_dir ''.gitignore'') ''*~\<newline>'') (\<lambda>_.
        bindW (run_checked env [''git'', ''add'', ''.''] (fs_key env pkg_dir)) (\<lambda>_.
        run_checked env [''git'', ''commit'', ''-m'', ''Initial migration'']
          (fs_key env pkg_dir)))))"

text \<open>\<^verbatim>\<open>if register:\<close> holds for an option that was given and is not the empty string.\<close>

definition step6_register ::
  "env \<Rightarrow> string option \<Rightarrow> string \<Rightarrow> string \<Rightarrow> string \<Rightarrow> world \<Rightarrow> unit outcome" where
  "step6_register env register giturl_pattern pkg_name bin_name =
     (case register of
        None \<Rightarrow> ret ()
      | Some r \<Rightarrow>
          if r = [] then ret ()
          else bindW (setup_umbrella env r) (\<lambda>umbrella_pp.
               bindW (liftE (format_repo env giturl_pattern bin_name)) (\<lambda>git_url.
               update_umbrella_deps_bin env umbrella_pp pkg_name bin_name git_url)))"

text \<open>
  The body of the loop for one script: the names, the message and steps 1 to 5
  (\<open>scaffold\<close>), then step 6 with the same names.
\<close>

definition scaffold :: "env \<Rightarrow> string \<Rightarrow> world \<Rightarrow> unit outcome" where
  "scaffold env script =
     (let script_path = Path script;
          bin_name = get_bin_name script_path;
          pkg_name = get_pkg_name script_path;
          pkg_dir = joinpath (PPath True (cwd env)) bin_name
      in bindW (echo (''\<newline>Processing: '' @ bin_name)) (\<lambda>_.
         bindW (step1_package_dir env pkg_dir) (\<lambda>_.
         bindW (step2_main_py env script_path pkg_dir pkg_name) (\<lambda>_.
         bindW (step3_readme env script_path pkg_dir bin_name) (\<lambda>_.
         bindW (step4_pyproject env pkg_dir pkg_name bin_name) (\<lambda>_.
         step5_git env pkg_dir))))))"

definition migrate_script ::
  "env \<Rightarrow> string option \<Rightarrow> string \<Rightarrow> string \<Rightarrow> world \<Rightarrow> unit outcome" where
  "migrate_script env register giturl_pattern script =
     bindW (scaffold env script) (\<lambda>_.
     step6_register env register giturl_pattern
       (get_pkg_name (Path script)) (get_bin_name (Path script)))"

fun migrate_loop ::
  "env \<Rightarrow> string list \<Rightarrow> string option \<Rightarrow> string \<Rightarrow> world \<Rightarrow> unit outcome" where
  "migrate_loop env [] register giturl_pattern = ret ()"
| "migrate_loop env (script # scripts) register giturl_pattern =
     bindW (migrate_script env register giturl_pattern script) (\<lambda>_.
     migrate_loop env scripts register giturl_pattern)"

text \<open>
  \<^verbatim>\<open>click.Path(exists=True)\<close> rejects the command line before the body runs when
  a script argument names nothing.
\<close>

definition migrate ::
  "env \<Rightarrow> string list \<Rightarrow> string option \<Rightarrow> string \<Rightarrow> world \<Rightarrow> unit outcome" where
  "migrate env scripts register giturl_pattern w =
     (case find (\<lambda>s. \<not> path_exists env (Path s) w) scripts of
        Some s \<Rightarrow> Raised (BadParameter s) w
      | None \<Rightarrow> migrate_loop env scripts register giturl_pattern w)"

section \<open>Notions used in the statements\<close>

text \<open>
  The dependency value the program reads from a project table (with its default), and
  the scripts table it finds or makes there; \<open>None\<close> when \<^verbatim>\<open>scripts\<close> is not a table.
\<close>

definition deps_default :: "(string \<times> toml) list \<Rightarrow> toml" where
  "deps_default p = (case map_of p ''dependencies'' of None \<Rightarrow> TArr [] | Some v \<Rightarrow> v)"

definition scripts_table :: "(string \<times> toml) list \<Rightarrow> (string \<times> toml) list option" where
  "scripts_table p =
     (case map_of p ''scripts'' of
        None \<Rightarrow> Some []
      | Some (TTab s) \<Rightarrow> Some s
      | Some _ \<Rightarrow> None)"

text \<open>
  \<open>keeps I m\<close>: the computation \<open>m\<close> leaves the world in \<open>I\<close> when it starts in \<open>I\<close>,
  whether it returns or raises. \<open>holds k Q\<close>: the file system has a node at \<open>k\<close>, and
  it satisfies \<open>Q\<close>. \<open>tool_keeps env k\<close>: no external tool removes or changes what
  is at \<open>k\<close>.
\<close>

definition keeps :: "(world \<Rightarrow> bool) \<Rightarrow> (world \<Rightarrow> 'a outcome) \<Rightarrow> bool" where
  "keeps I m = (\<forall>w. I w \<longrightarrow> I (world_of (m w)))"

definition holds :: "path \<Rightarrow> (node \<Rightarrow> bool) \<Rightarrow> world \<Rightarrow> bool" where
  "holds k Q w = (\<exists>n. files w k = Some n \<and> Q n)"

definition tool_keeps :: "env \<Rightarrow> path \<Rightarrow> bool" where
  "tool_keeps env k =
     (\<forall>argv dir fs n. fs k = Some n \<longrightarrow> snd (tool env argv dir fs) k = Some n)"

text \<open>
  \<open>tool_leaves env argv dir k\<close>: the invocation \<open>argv\<close> in the working directory
  \<open>dir\<close> neither makes, removes nor changes what is at \<open>k\<close>.
\<close>

definition tool_leaves :: "env \<Rightarrow> string list \<Rightarrow> path \<Rightarrow> path \<Rightarrow> bool" where
  "tool_leaves env argv dir k = (\<forall>fs. snd (tool env argv dir fs) k = fs k)"

definition lacks :: "path \<Rightarrow> world \<Rightarrow> bool" where
  "lacks k w = (files w k = None)"

text \<open>The document that \<^verbatim>\<open>tomlkit.load\<close> makes of the file at a key.\<close>

definition manifest_at :: "env \<Rightarrow> path \<Rightarrow> world \<Rightarrow> toml option" where
  "manifest_at env k w =
     (case files w k of
        Some (File s) \<Rightarrow> (case loads env s of Inr d \<Rightarrow> Some d | Inl e \<Rightarrow> None)
      | _ \<Rightarrow> None)"

text \<open>
  \<open>dumped_as env P\<close>: a file with the text that is printed for a document that
  satisfies \<open>P\<close>. \<open>loads_as env P\<close>: a file that is read as a document that
  satisfies \<open>P\<close>.
\<close>

definition dumped_as :: "env \<Rightarrow> (toml \<Rightarrow> bool) \<Rightarrow> node \<Rightarrow> bool" where
  "dumped_as env P n = (\<exists>d. n = File (dumps env d) \<and> P d)"

definition loads_as :: "env \<Rightarrow> (toml \<Rightarrow> bool) \<Rightarrow> node \<Rightarrow> bool" where
  "loads_as env P n =
     (case n of
        File s \<Rightarrow> (case loads env s of Inr d \<Rightarrow> P d | Inl e \<Rightarrow> False)
      | Dir \<Rightarrow> False)"

text \<open>
  \<open>reads_back env evs\<close>: every document that \<open>evs\<close> records as printed and written
  is the document that the parser makes of the printed text.
\<close>

definition read_back :: "env \<Rightarrow> event \<Rightarrow> bool" where
  "read_back env ev = (case ev of Dumped k d \<Rightarrow> loads env (dumps env d) = Inr d | _ \<Rightarrow> True)"

definition reads_back :: "env \<Rightarrow> event list \<Rightarrow> bool" where
  "reads_back env evs = list_all (read_back env) evs"

text \<open>
  \<open>guarded env k Q\<close>: the node at \<open>k\<close> satisfies \<open>Q\<close>, as long as the documents
  written so far are read back. \<open>grows m\<close>: the computation \<open>m\<close> adds to the trace,
  and takes nothing from it.
\<close>

definition guarded :: "env \<Rightarrow> path \<Rightarrow> (node \<Rightarrow> bool) \<Rightarrow> world \<Rightarrow> bool" where
  "guarded env k Q w = (reads_back env (trace w) \<longrightarrow> holds k Q w)"

definition grows :: "(world \<Rightarrow> 'a outcome) \<Rightarrow> bool" where
  "grows m = (\<forall>w. \<exists>evs. trace (world_of (m w)) = trace w @ evs)"

text \<open>An invocation of an external tool that ended with a nonzero status.\<close>

definition failed_exec :: "event \<Rightarrow> bool" where
  "failed_exec ev = (case ev of Exec argv dir rc \<Rightarrow> rc \<noteq> 0 | _ \<Rightarrow> False)"

text \<open>
  \<open>fails_last m\<close>: what \<open>m\<close> adds to the trace either has no failed invocation, or
  has exactly one, as its last event, and \<open>m\<close> raises \<^verbatim>\<open>CalledProcessError\<close> with the
  status and the argument vector of that invocation.
\<close>

definition clean :: "event list \<Rightarrow> bool" where
  "clean evs = list_all (\<lambda>ev. \<not> failed_exec ev) evs"

definition fails_last :: "(world \<Rightarrow> 'a outcome) \<Rightarrow> bool" where
  "fails_last m =
     (\<forall>w. \<exists>evs. trace (world_of (m w)) = trace w @ evs
        \<and> (clean evs
           \<or> (\<exists>pre argv dir rc. evs = pre @ [Exec argv dir rc] \<and> clean pre \<and> rc \<noteq> 0
                \<and> m w = Raised (CalledProcessError rc argv) (world_of (m w)))))"

text \<open>The key of the umbrella manifest for a \<^verbatim>\<open>--register\<close> argument.\<close>

definition umbrella_key :: "env \<Rightarrow> string \<Rightarrow> path" where
  "umbrella_key env r = fs_key env (joinpath (Path r) ''pyproject.toml'')"

text \<open>
  The dependency list the umbrella update reads: the array under
  \<^verbatim>\<open>project.dependencies\<close>, empty when the key is absent; \<open>None\<close> when there is no
  project table or the value is not an array.
\<close>

definition dependency_list :: "toml \<Rightarrow> toml list option" where
  "dependency_list data =
     (case data of
        TTab d \<Rightarrow>
          (case map_of d ''project'' of
             Some (TTab p) \<Rightarrow> (case deps_default p of TArr xs \<Rightarrow> Some xs | _ \<Rightarrow> None)
           | _ \<Rightarrow> None)
      | _ \<Rightarrow> None)"

definition dependencies_at :: "env \<Rightarrow> path \<Rightarrow> world \<Rightarrow> toml list option" where
  "dependencies_at env k w =
     (case manifest_at env k w of Some d \<Rightarrow> dependency_list d | None \<Rightarrow> None)"

text \<open>
  The keys of the scripts table of the manifest at a key, and the value that the table
  has for a command name.
\<close>

definition script_names_at :: "env \<Rightarrow> path \<Rightarrow> world \<Rightarrow> string list option" where
  "script_names_at env k w =
     (case manifest_at env k w of
        Some d \<Rightarrow>
          (case get2 d ''project'' ''scripts'' of
             Inr (TTab s) \<Rightarrow> Some (map fst s)
           | _ \<Rightarrow> None)
      | None \<Rightarrow> None)"

definition script_entry_at :: "env \<Rightarrow> path \<Rightarrow> string \<Rightarrow> world \<Rightarrow> toml option" where
  "script_entry_at env k bin_name w =
     (case manifest_at env k w of
        Some d \<Rightarrow>
          (case get3 d ''project'' ''scripts'' bin_name of
             Inr v \<Rightarrow> Some v
           | Inl e \<Rightarrow> None)
      | None \<Rightarrow> None)"

text \<open>The package directory of a script, and the key of the package's manifest.\<close>

definition package_dir :: "env \<Rightarrow> string \<Rightarrow> ppath" where
  "package_dir env script = joinpath (PPath True (cwd env)) (get_bin_name (Path script))"

definition package_key :: "env \<Rightarrow> string \<Rightarrow> path" where
  "package_key env script = fs_key env (joinpath (package_dir env script) ''pyproject.toml'')"

text \<open>
  The body of the loop for one script, in three parts: what runs before step 3 (the
  message, steps 1 and 2), step 3, and what runs after it (steps 4, 5 and 6).
\<close>

definition steps_before_readme :: "env \<Rightarrow> string \<Rightarrow> world \<Rightarrow> unit outcome" where
  "steps_before_readme env script =
     (let script_path = Path script;
          bin_name = get_bin_name script_path;
          pkg_name = get_pkg_name script_path;
          pkg_dir = joinpath (PPath True (cwd env)) bin_name
      in bindW (echo (''\<newline>Processing: '' @ bin_name)) (\<lambda>_.
         bindW (step1_package_dir env pkg_dir) (\<lambda>_.
         step2_main_py env script_path pkg_dir pkg_name)))"

definition steps_after_readme ::
  "env \<Rightarrow> string option \<Rightarrow> string \<Rightarrow> string \<Rightarrow> world \<Rightarrow> unit outcome" where
  "steps_after_readme env register giturl_pattern script =
     (let script_path = Path script;
          bin_name = get_bin_name script_path;
          pkg_name = get_pkg_name script_path;
          pkg_dir = joinpath (PPath True (cwd env)) bin_name
      in bindW (step4_pyproject env pkg_dir pkg_name bin_name) (\<lambda>_.
         bindW (step5_git env pkg_dir) (\<lambda>_.
         step6_register env register giturl_pattern pkg_name bin_name)))"

text \<open>The second half of step 3: \<^verbatim>\<open>README.org\<close> is written when it is not there.\<close>

definition write_readme_org :: "env \<Rightarrow> string \<Rightarrow> world \<Rightarrow> unit outcome" where
  "write_readme_org env script =
     unless_exists env (joinpath (package_dir env script) ''README.org'')
       (write_text env (joinpath (package_dir env script) ''README.org'')
          (readme_text (get_bin_name (Path script)) (Path script)))"

section \<open>Example environments\<close>

text \<open>
  The default of \<^verbatim>\<open>--giturl-pattern\<close>, and \<^verbatim>\<open>str.format(repo=...)\<close> as it acts on a
  pattern whose only braces are \<^verbatim>\<open>{repo}\<close> fields.
\<close>

definition default_giturl_pattern :: string where
  "default_giturl_pattern = ''git+https://github.com/brettviren/{repo}''"

definition format_plain :: "string \<Rightarrow> string \<Rightarrow> error + string" where
  "format_plain pattern repo = Inr (str_replace ''{repo}'' repo pattern)"

text \<open>
  A printer and a parser that fit each other. The notation is not TOML: a number is
  written in unary, a string behind its length, an array between brackets and a table
  between braces, each element behind a comma. The parser reads this notation, to
  the end of the text, and nothing else.
\<close>

fun enc_nat :: "nat \<Rightarrow> string" where
  "enc_nat 0 = ''0''"
| "enc_nat (Suc n) = CHR ''1'' # enc_nat n"

fun dec_nat :: "string \<Rightarrow> (nat \<times> string) option" where
  "dec_nat [] = None"
| "dec_nat (c # r) =
     (if c = CHR ''0'' then Some (0, r)
      else if c = CHR ''1'' then map_option (\<lambda>(n, r'). (Suc n, r')) (dec_nat r)
      else None)"

definition enc_str :: "string \<Rightarrow> string" where
  "enc_str s = enc_nat (length s) @ s"

definition dec_str :: "string \<Rightarrow> (string \<times> string) option" where
  "dec_str s =
     (case dec_nat s of
        None \<Rightarrow> None
      | Some (n, r) \<Rightarrow> if n \<le> length r then Some (take n r, drop n r) else None)"

fun enc :: "toml \<Rightarrow> string" where
  "enc (TStr s) = CHR ''s'' # enc_str s"
| "enc (TInt i) = CHR ''i'' # (if i < 0 then CHR ''-'' else CHR ''+'') # enc_nat (nat \<bar>i\<bar>)"
| "enc (TBool b) = CHR ''b'' # (if b then ''t'' else ''f'')"
| "enc (TScalar s) = CHR ''x'' # enc_str s"
| "enc (TArr xs) = CHR ''['' # concat (map (\<lambda>x. CHR '','' # enc x) xs) @ '']''"
| "enc (TTab kvs) =
     CHR ''{'' # concat (map (\<lambda>kv. CHR '','' # enc_str (fst kv) @ enc (snd kv)) kvs) @ ''}''"

text \<open>The first argument bounds the number of characters that are read.\<close>

fun dec :: "nat \<Rightarrow> string \<Rightarrow> (toml \<times> string) option"
  and dec_items :: "nat \<Rightarrow> string \<Rightarrow> (toml list \<times> string) option"
  and dec_pairs :: "nat \<Rightarrow> string \<Rightarrow> ((string \<times> toml) list \<times> string) option" where
  "dec 0 s = None"
| "dec (Suc n) [] = None"
| "dec (Suc n) (c # r) =
     (if c = CHR ''s'' then map_option (\<lambda>(x, r'). (TStr x, r')) (dec_str r)
      else if c = CHR ''x'' then map_option (\<lambda>(x, r'). (TScalar x, r')) (dec_str r)
      else if c = CHR ''b'' then
        (case r of
           [] \<Rightarrow> None
         | b # r' \<Rightarrow> if b = CHR ''t'' then Some (TBool True, r')
                     else if b = CHR ''f'' then Some (TBool False, r') else None)
      else if c = CHR ''i'' then
        (case r of
           [] \<Rightarrow> None
         | g # r' \<Rightarrow>
             (case dec_nat r' of
                None \<Rightarrow> None
              | Some (m, r'') \<Rightarrow>
                  if g = CHR ''-'' then Some (TInt (- int m), r'')
                  else if g = CHR ''+'' then Some (TInt (int m), r'') else None))
      else if c = CHR ''['' then map_option (\<lambda>(xs, r'). (TArr xs, r')) (dec_items n r)
      else if c = CHR ''{'' then map_option (\<lambda>(kvs, r'). (TTab kvs, r')) (dec_pairs n r)
      else None)"
| "dec_items 0 s = None"
| "dec_items (Suc n) [] = None"
| "dec_items (Suc n) (c # r) =
     (if c = CHR '']'' then Some ([], r)
      else if c = CHR '','' then
        (case dec n r of
           None \<Rightarrow> None
         | Some (x, r') \<Rightarrow> map_option (\<lambda>(xs, r''). (x # xs, r'')) (dec_items n r'))
      else None)"
| "dec_pairs 0 s = None"
| "dec_pairs (Suc n) [] = None"
| "dec_pairs (Suc n) (c # r) =
     (if c = CHR ''}'' then Some ([], r)
      else if c = CHR '','' then
        (case dec_str r of
           None \<Rightarrow> None
         | Some (k, r') \<Rightarrow>
             (case dec n r' of
                None \<Rightarrow> None
              | Some (v, r'') \<Rightarrow> map_option (\<lambda>(kvs, r3). ((k, v) # kvs, r3)) (dec_pairs n r'')))
      else None)"

definition demo_dumps :: "toml \<Rightarrow> string" where
  "demo_dumps d = enc d"

definition demo_loads :: "string \<Rightarrow> error + toml" where
  "demo_loads s =
     (case dec (length s) s of
        Some (d, []) \<Rightarrow> Inr d
      | _ \<Rightarrow> Inl TOMLError)"

text \<open>In the first example environment every external tool fails with status 1 and
  changes nothing.\<close>

definition demo_env :: env where
  "demo_env =
     \<lparr>cwd = [''work''],
      tool = (\<lambda>argv dir fs. (1, fs)),
      loads = demo_loads,
      dumps = demo_dumps,
      format_repo = format_plain\<rparr>"

definition demo_manifest :: "string \<Rightarrow> toml" where
  "demo_manifest name =
     TTab [(''project'',
            TTab [(''name'', TStr name), (''version'', TStr ''0.1.0''),
                  (''dependencies'', TArr [])]),
           (''build-system'', TTab [(''requires'', TArr [TStr ''setuptools''])])]"

text \<open>
  Three scripts and an umbrella package \<^verbatim>\<open>hub\<close> that has no dependency yet. The
  package directories of \<^verbatim>\<open>my-tool.py\<close> and \<^verbatim>\<open>other.py\<close> have been initialised and
  hold no \<^verbatim>\<open>main.py\<close>; \<^verbatim>\<open>done.py\<close> has been migrated before.
\<close>

definition demo_files :: fsys where
  "demo_files =
     [[''work''] \<mapsto> Dir,
      [''work'', ''my-tool.py''] \<mapsto> File ''print(1)\<newline>print(2)\<newline>'',
      [''work'', ''other.py''] \<mapsto> File ''def main():\<newline>    pass\<newline>'',
      [''work'', ''my-tool''] \<mapsto> Dir,
      [''work'', ''my-tool'', ''pyproject.toml''] \<mapsto> File (demo_dumps (demo_manifest ''my-tool'')),
      [''work'', ''my-tool'', ''README.md''] \<mapsto> File [],
      [''work'', ''my-tool'', ''.git''] \<mapsto> Dir,
      [''work'', ''my-tool'', ''.gitignore''] \<mapsto> File ''*.pyc\<newline>'',
      [''work'', ''other''] \<mapsto> Dir,
      [''work'', ''other'', ''pyproject.toml''] \<mapsto> File (demo_dumps (demo_manifest ''other'')),
      [''work'', ''other'', ''.git''] \<mapsto> Dir,
      [''work'', ''other'', ''.gitignore''] \<mapsto> File ''*.pyc\<newline>'',
      [''work'', ''done.py''] \<mapsto> File ''print(3)\<newline>'',
      [''work'', ''done''] \<mapsto> Dir,
      [''work'', ''done'', ''pyproject.toml''] \<mapsto> File (demo_dumps (demo_manifest ''done'')),
      [''work'', ''done'', ''README.md''] \<mapsto> File ''# done\<newline>'',
      [''work'', ''done'', ''README.org''] \<mapsto> File ''* done, by hand\<newline>'',
      [''work'', ''done'', ''.git''] \<mapsto> Dir,
      [''work'', ''done'', ''.gitignore''] \<mapsto> File ''*.pyc\<newline>'',
      [''work'', ''done'', ''src''] \<mapsto> Dir,
      [''work'', ''done'', ''src'', ''done''] \<mapsto> Dir,
      [''work'', ''done'', ''src'', ''done'', ''main.py''] \<mapsto>
        File ''def main():\<newline>    print(3)\<newline>'',
      [''work'', ''hub''] \<mapsto> Dir,
      [''work'', ''hub'', ''pyproject.toml''] \<mapsto> File (demo_dumps (demo_manifest ''hub''))]"

definition demo_world :: world where
  "demo_world = \<lparr>files = demo_files, trace = []\<rparr>"

text \<open>The same, with the package of the first script lacking its \<^verbatim>\<open>.gitignore\<close>.\<close>

definition demo_world_no_gitignore :: world where
  "demo_world_no_gitignore =
     \<lparr>files = demo_files([''work'', ''my-tool'', ''.gitignore''] := None), trace = []\<rparr>"

text \<open>
  The same, with a scripts table in the manifest of the umbrella package and in the
  manifest of the package of the first script: the command \<^verbatim>\<open>my-tool\<close> has an entry
  point of another module there, and there is a second command.
\<close>

definition stale_manifest :: "string \<Rightarrow> toml" where
  "stale_manifest name =
     TTab [(''project'',
            TTab [(''name'', TStr name), (''version'', TStr ''0.1.0''),
                  (''dependencies'', TArr []),
                  (''scripts'',
                   TTab [(''my-tool'', TStr ''stale.mod:fn''),
                         (''keep'', TStr ''keep.main:main'')])])]"

definition stale_world :: world where
  "stale_world =
     \<lparr>files = demo_files
        ([''work'', ''my-tool'', ''pyproject.toml''] \<mapsto>
           File (demo_dumps (stale_manifest ''my-tool'')),
         [''work'', ''hub'', ''pyproject.toml''] \<mapsto> File (demo_dumps (stale_manifest ''hub''))),
      trace = []\<rparr>"

text \<open>A directory that holds the two scripts and nothing else.\<close>

definition bare_world :: world where
  "bare_world =
     \<lparr>files = [[''work''] \<mapsto> Dir,
               [''work'', ''my-tool.py''] \<mapsto> File ''print(1)\<newline>'',
               [''work'', ''other.py''] \<mapsto> File ''def main():\<newline>    pass\<newline>''],
      trace = []\<rparr>"

text \<open>An umbrella package in which \<^verbatim>\<open>my-tool\<close> is registered already.\<close>

definition registered_manifest :: toml where
  "registered_manifest =
     TTab [(''project'',
            TTab [(''name'', TStr ''hub''),
                  (''dependencies'',
                   TArr [TStr ''my_tool @ git+https://github.com/brettviren/my-tool'']),
                  (''scripts'', TTab [(''my-tool'', TStr ''my_tool.main:main'')])])]"

definition registered_world :: world where
  "registered_world =
     \<lparr>files =
        [[''work''] \<mapsto> Dir,
         [''work'', ''hub''] \<mapsto> Dir,
         [''work'', ''hub'', ''pyproject.toml''] \<mapsto> File (demo_dumps registered_manifest)],
      trace = []\<rparr>"

text \<open>
  Two scripts of the same name in two directories, the initialised package directory
  of that name, and an umbrella package that has no dependency yet.
\<close>

definition same_stem_world :: world where
  "same_stem_world =
     \<lparr>files =
        [[''work''] \<mapsto> Dir,
         [''work'', ''my-tool.py''] \<mapsto> File ''print(1)\<newline>'',
         [''work'', ''old''] \<mapsto> Dir,
         [''work'', ''old'', ''my-tool.py''] \<mapsto> File ''print(2)\<newline>'',
         [''work'', ''my-tool''] \<mapsto> Dir,
         [''work'', ''my-tool'', ''pyproject.toml''] \<mapsto>
           File (demo_dumps (demo_manifest ''my-tool'')),
         [''work'', ''my-tool'', ''.git''] \<mapsto> Dir,
         [''work'', ''my-tool'', ''.gitignore''] \<mapsto> File ''*.pyc\<newline>'',
         [''work'', ''hub''] \<mapsto> Dir,
         [''work'', ''hub'', ''pyproject.toml''] \<mapsto> File (demo_dumps (demo_manifest ''hub''))],
      trace = []\<rparr>"

text \<open>
  A second environment, in which the tools succeed. \<^verbatim>\<open>uv init\<close> makes the directory
  named by its last argument, with a manifest, an empty \<^verbatim>\<open>README.md\<close>, a module
  directory and a repository with its \<^verbatim>\<open>.gitignore\<close>, as the tool does;
  \<^verbatim>\<open>git init\<close> makes the \<^verbatim>\<open>.git\<close> directory; other invocations change nothing.
\<close>

definition uv_manifest :: "string \<Rightarrow> toml" where
  "uv_manifest name =
     TTab [(''project'',
            TTab [(''name'', TStr name), (''version'', TStr ''0.1.0''),
                  (''description'', TStr ''Add your description here''),
                  (''readme'', TStr ''README.md''),
                  (''requires-python'', TStr ''>=3.12''),
                  (''dependencies'', TArr [])]),
           (''build-system'',
            TTab [(''requires'', TArr [TStr ''setuptools>=61'']),
                  (''build-backend'', TStr ''setuptools.build_meta'')])]"

definition uv_skeleton :: "path \<Rightarrow> fsys \<Rightarrow> fsys" where
  "uv_skeleton d fs =
     fs(d \<mapsto> Dir,
        d @ [''pyproject.toml''] \<mapsto> File (demo_dumps (uv_manifest (last d))),
        d @ [''README.md''] \<mapsto> File [],
        d @ [''.python-version''] \<mapsto> File ''3.12\<newline>'',
        d @ [''src''] \<mapsto> Dir,
        d @ [''src'', str_replace ''-'' ''_'' (last d)] \<mapsto> Dir,
        d @ [''src'', str_replace ''-'' ''_'' (last d), ''__init__.py''] \<mapsto>
          File ''def hello() -> str:\<newline>    return 0\<newline>'',
        d @ [''.git''] \<mapsto> Dir,
        d @ [''.gitignore''] \<mapsto> File ''__pycache__/\<newline>'')"

definition uv_tool :: "string list \<Rightarrow> path \<Rightarrow> fsys \<Rightarrow> int \<times> fsys" where
  "uv_tool argv dir fs =
     (if take 2 argv = [''uv'', ''init'']
      then (0, uv_skeleton
                 (if is_absolute (Path (last argv)) then parts (Path (last argv))
                  else dir @ parts (Path (last argv))) fs)
      else if argv = [''git'', ''init''] then (0, fs(dir @ [''.git''] \<mapsto> Dir))
      else (0, fs))"

definition uv_env :: env where
  "uv_env =
     \<lparr>cwd = [''work''],
      tool = uv_tool,
      loads = demo_loads,
      dumps = demo_dumps,
      format_repo = format_plain\<rparr>"
















section \<open>Facts about the manifest edits\<close>

lemma bindE_simps [simp]: "bindE (Inr x) f = f x" "bindE (Inl e) f = Inl e"
  by (simp_all add: bindE_def)

lemma bindE_Inr_iff: "bindE m f = Inr y \<longleftrightarrow> (\<exists>x. m = Inr x \<and> f x = Inr y)"
  by (cases m) simp_all

lemma getitem_Inr_iff: "getitem v k = Inr x \<longleftrightarrow> (\<exists>t. v = TTab t \<and> map_of t k = Some x)"
  by (cases v) (auto split: option.splits)

lemma setitem_Inr_iff: "setitem v k x = Inr y \<longleftrightarrow> (\<exists>t. v = TTab t \<and> y = TTab (AList.update k x t))"
  by (cases v) auto

lemma py_get_Inr_iff:
  "py_get v k dflt = Inr x \<longleftrightarrow>
     (\<exists>t. v = TTab t \<and> x = (case map_of t k of None \<Rightarrow> dflt | Some u \<Rightarrow> u))"
  by (cases v) (auto split: option.splits)

lemma py_append_Inr_iff:
  "py_append v e = Inr y \<longleftrightarrow> (\<exists>xs. v = TArr xs \<and> y = TArr (xs @ [TStr e]))"
  by (cases v) auto

lemma set2_Inr_iff:
  "set2 d a b v = Inr d' \<longleftrightarrow>
     (\<exists>t p. d = TTab t \<and> map_of t a = Some (TTab p)
        \<and> d' = TTab (AList.update a (TTab (AList.update b v p)) t))"
  by (auto simp: set2_def bindE_Inr_iff getitem_Inr_iff setitem_Inr_iff)

lemma set3_Inr_iff:
  "set3 d a b c v = Inr d' \<longleftrightarrow>
     (\<exists>t p s. d = TTab t \<and> map_of t a = Some (TTab p) \<and> map_of p b = Some (TTab s)
        \<and> d' = TTab (AList.update a
                 (TTab (AList.update b (TTab (AList.update c v s)) p)) t))"
  by (auto simp: set3_def bindE_Inr_iff getitem_Inr_iff setitem_Inr_iff)


lemma set_entry_point_project:
  assumes "set_entry_point data pkg bin = Inr data'"
  shows "\<exists>d p. data = TTab d \<and> map_of d ''project'' = Some (TTab p)"
proof -
  from assms obtain proj has d1 where
    g: "getitem data ''project'' = Inr proj" and
    h: "(if \<not> has then set2 data ''project'' ''scripts'' (TTab []) else Inr data) = Inr d1" and
    s3: "set3 d1 ''project'' ''scripts'' bin (TStr (entry_point pkg)) = Inr data'"
    by (auto simp: set_entry_point_def bindE_Inr_iff)
  from g obtain d where d: "data = TTab d" "map_of d ''project'' = Some proj"
    by (auto simp: getitem_Inr_iff)
  from s3 obtain t p where t: "d1 = TTab t" "map_of t ''project'' = Some (TTab p)"
    by (auto simp: set3_Inr_iff)
  show ?thesis
  proof (cases has)
    case True
    with h d t show ?thesis by auto
  next
    case False
    with h d show ?thesis by (auto simp: set2_Inr_iff)
  qed
qed

lemma set_entry_point_table:
  assumes "map_of d ''project'' = Some (TTab p)"
  shows "set_entry_point (TTab d) pkg bin =
     (case scripts_table p of
        None \<Rightarrow> Inl TypeError
      | Some s \<Rightarrow>
          Inr (TTab (AList.update ''project''
                 (TTab (AList.update ''scripts''
                    (TTab (AList.update bin (TStr (entry_point pkg)) s)) p)) d)))"
  using assms
  by (simp add: set_entry_point_def set2_def set3_def scripts_table_def update_conv'
      AList.update_last split: option.splits toml.splits)

lemma add_dependency_project:
  assumes "add_dependency data e = Inr data'"
  shows "\<exists>d p. data = TTab d \<and> map_of d ''project'' = Some (TTab p)"
proof -
  from assms obtain proj deps present where
    g: "py_get data ''project'' (TTab []) = Inr proj" and
    g2: "py_get proj ''dependencies'' (TArr []) = Inr deps" and
    i: "py_in e deps = Inr present" and
    r: "(if \<not> present then bindE (py_append deps e) (\<lambda>deps'.
          set2 data ''project'' ''dependencies'' deps') else Inr data) = Inr data'"
    by (auto simp: add_dependency_def bindE_Inr_iff)
  from g obtain d where d: "data = TTab d"
    and proj: "proj = (case map_of d ''project'' of None \<Rightarrow> TTab [] | Some u \<Rightarrow> u)"
    by (auto simp: py_get_Inr_iff)
  from g2 obtain t where t: "proj = TTab t" by (auto simp: py_get_Inr_iff)
  show ?thesis
  proof (cases "map_of d ''project''")
    case None
    with proj t g2 have "deps = TArr []" by (auto simp: py_get_Inr_iff)
    with i have "\<not> present" by simp
    with r None d show ?thesis by (auto simp: bindE_Inr_iff set2_Inr_iff)
  next
    case (Some u)
    with proj t d show ?thesis by auto
  qed
qed

lemma add_dependency_table:
  assumes "map_of d ''project'' = Some (TTab p)"
  shows "add_dependency (TTab d) e =
     (case deps_default p of
        TArr xs \<Rightarrow>
          Inr (if TStr e \<in> set xs then TTab d
               else TTab (AList.update ''project''
                      (TTab (AList.update ''dependencies'' (TArr (xs @ [TStr e])) p)) d))
      | TTab t \<Rightarrow> if map_of t e \<noteq> None then Inr (TTab d) else Inl TypeError
      | TStr s \<Rightarrow> if contains e s then Inr (TTab d) else Inl AttributeError
      | _ \<Rightarrow> Inl TypeError)"
  using assms
  by (simp add: add_dependency_def set2_def deps_default_def
      split: option.splits toml.splits)


lemma get2_table:
  "map_of d a = Some (TTab p) \<Longrightarrow> get2 (TTab d) a b = getitem (TTab p) b"
  by (simp add: get2_def)

lemma get2_Inr_iff:
  "get2 data a b = Inr v \<longleftrightarrow>
     (\<exists>d p. data = TTab d \<and> map_of d a = Some (TTab p) \<and> map_of p b = Some v)"
  by (auto simp: get2_def bindE_Inr_iff getitem_Inr_iff)

lemma get3_table:
  "map_of d a = Some (TTab p) \<Longrightarrow> map_of p b = Some (TTab s) \<Longrightarrow>
     get3 (TTab d) a b c = getitem (TTab s) c"
  by (simp add: get3_def get2_def)

lemma get3_Inr_iff:
  "get3 data a b c = Inr v \<longleftrightarrow>
     (\<exists>d p s. data = TTab d \<and> map_of d a = Some (TTab p) \<and> map_of p b = Some (TTab s)
        \<and> map_of s c = Some v)"
  by (auto simp: get3_def bindE_Inr_iff getitem_Inr_iff get2_Inr_iff)

lemma set_entry_point_sets:
  assumes "set_entry_point data pkg bin = Inr data'"
  shows "get3 data' ''project'' ''scripts'' bin = Inr (TStr (entry_point pkg))"
proof -
  from set_entry_point_project [OF assms] obtain d p where
    d: "data = TTab d" and p: "map_of d ''project'' = Some (TTab p)" by blast
  from assms p show ?thesis
    unfolding d set_entry_point_table [OF p]
    by (auto simp: get3_Inr_iff update_conv' split: option.splits)
qed

lemma set_entry_point_others:
  assumes "set_entry_point data pkg bin = Inr data'" and "k \<noteq> bin"
  shows "get3 data' ''project'' ''scripts'' k = Inr v
           \<longleftrightarrow> get3 data ''project'' ''scripts'' k = Inr v"
proof -
  from set_entry_point_project [OF assms(1)] obtain d p where
    d: "data = TTab d" and p: "map_of d ''project'' = Some (TTab p)" by blast
  from assms p show ?thesis
    unfolding d set_entry_point_table [OF p]
    by (auto simp: get3_Inr_iff update_conv' scripts_table_def
        split: option.splits toml.splits)
qed

lemma set_entry_point_project_frame:
  assumes "set_entry_point data pkg bin = Inr data'" and "k \<noteq> ''scripts''"
  shows "get2 data' ''project'' k = get2 data ''project'' k"
proof -
  from set_entry_point_project [OF assms(1)] obtain d p where
    d: "data = TTab d" and p: "map_of d ''project'' = Some (TTab p)" by blast
  from assms p show ?thesis
    unfolding d set_entry_point_table [OF p]
    by (auto simp: get2_def update_conv' split: option.splits)
qed

lemma set_entry_point_top_frame:
  assumes "set_entry_point data pkg bin = Inr data'" and "k \<noteq> ''project''"
  shows "getitem data' k = getitem data k"
proof -
  from set_entry_point_project [OF assms(1)] obtain d p where
    d: "data = TTab d" and p: "map_of d ''project'' = Some (TTab p)" by blast
  from assms p show ?thesis
    unfolding d set_entry_point_table [OF p]
    by (auto simp: update_conv' split: option.splits)
qed

lemma set_entry_point_idem:
  assumes "set_entry_point data pkg bin = Inr data'"
  shows "set_entry_point data' pkg bin = Inr data'"
proof -
  from set_entry_point_project [OF assms(1)] obtain d p where
    d: "data = TTab d" and p: "map_of d ''project'' = Some (TTab p)" by blast
  from assms obtain s where s: "scripts_table p = Some s"
    and d': "data' = TTab (AList.update ''project''
                 (TTab (AList.update ''scripts''
                    (TTab (AList.update bin (TStr (entry_point pkg)) s)) p)) d)"
    unfolding d set_entry_point_table [OF p] by (auto split: option.splits)
  let ?s' = "AList.update bin (TStr (entry_point pkg)) s"
  let ?p' = "AList.update ''scripts'' (TTab ?s') p"
  have p': "map_of (AList.update ''project'' (TTab ?p') d) ''project'' = Some (TTab ?p')"
    by (simp add: update_conv')
  have st: "scripts_table ?p' = Some ?s'"
    by (simp add: scripts_table_def update_conv')
  show ?thesis
    unfolding d' set_entry_point_table [OF p'] st
    by (simp add: AList.update_last)
qed


lemma set2_frame:
  assumes "set2 d a b v = Inr d'" and "k \<noteq> b"
  shows "get2 d' a k = get2 d a k"
  using assms by (auto simp: set2_Inr_iff get2_def update_conv')

lemma set2_top_frame:
  assumes "set2 d a b v = Inr d'" and "k \<noteq> a"
  shows "getitem d' k = getitem d k"
  using assms by (auto simp: set2_Inr_iff update_conv')

lemma get3_cong: "get2 d a b = get2 d' a b \<Longrightarrow> get3 d a b c = get3 d' a b c"
  by (simp add: get3_def)

lemma add_dependency_unfold:
  assumes "add_dependency data e = Inr data'"
  obtains d p where "data = TTab d" and "map_of d ''project'' = Some (TTab p)"
    and "add_dependency (TTab d) e = Inr data'"
  using add_dependency_project [OF assms] assms by blast

lemma add_dependency_member:
  assumes "add_dependency data e = Inr data'"
  shows "\<exists>dv. get2 data' ''project'' ''dependencies'' = Inr dv \<and> py_in e dv = Inr True"
proof -
  from assms obtain d p where d: "data = TTab d" and p: "map_of d ''project'' = Some (TTab p)"
    and r: "add_dependency (TTab d) e = Inr data'"
    by (rule add_dependency_unfold)
  show ?thesis
  proof (cases "map_of p ''dependencies''")
    case None
    with r p show ?thesis
      unfolding add_dependency_table [OF p]
      by (auto simp: deps_default_def get2_def update_conv')
  next
    case (Some v)
    with r p show ?thesis
      unfolding add_dependency_table [OF p]
      by (cases v) (auto simp: deps_default_def get2_def update_conv' split: if_splits)
  qed
qed

lemma add_dependency_present:
  assumes "get2 data ''project'' ''dependencies'' = Inr dv" and "py_in e dv = Inr True"
  shows "add_dependency data e = Inr data"
proof -
  from assms(1) obtain d p where d: "data = TTab d" and p: "map_of d ''project'' = Some (TTab p)"
    and v: "map_of p ''dependencies'' = Some dv"
    by (auto simp: get2_Inr_iff)
  from assms(2) v show ?thesis
    unfolding d add_dependency_table [OF p]
    by (cases dv) (auto simp: deps_default_def)
qed

lemma add_dependency_array:
  assumes "add_dependency data e = Inr data'"
    and "get2 data ''project'' ''dependencies'' = Inr (TArr xs)"
  shows "get2 data' ''project'' ''dependencies'' =
           Inr (TArr (if TStr e \<in> set xs then xs else xs @ [TStr e]))"
proof -
  from assms(2) obtain d p where d: "data = TTab d" and p: "map_of d ''project'' = Some (TTab p)"
    and v: "map_of p ''dependencies'' = Some (TArr xs)"
    by (auto simp: get2_Inr_iff)
  from assms(1) v p show ?thesis
    unfolding d add_dependency_table [OF p]
    by (auto simp: deps_default_def get2_def update_conv' split: if_splits)
qed

lemma add_dependency_absent:
  assumes "add_dependency data e = Inr data'"
    and "get2 data ''project'' ''dependencies'' = Inl (KeyError ''dependencies'')"
  shows "get2 data' ''project'' ''dependencies'' = Inr (TArr [TStr e])"
proof -
  from assms(1) obtain d p where d: "data = TTab d" and p: "map_of d ''project'' = Some (TTab p)"
    and r: "add_dependency (TTab d) e = Inr data'"
    by (rule add_dependency_unfold)
  from assms(2) p have v: "map_of p ''dependencies'' = None"
    unfolding d by (auto simp: get2_def split: option.splits)
  from r v p show ?thesis
    unfolding add_dependency_table [OF p]
    by (auto simp: deps_default_def get2_def update_conv')
qed

lemma add_dependency_project_frame:
  assumes "add_dependency data e = Inr data'" and "k \<noteq> ''dependencies''"
  shows "get2 data' ''project'' k = get2 data ''project'' k"
proof -
  from assms(1) obtain d p where d: "data = TTab d" and p: "map_of d ''project'' = Some (TTab p)"
    and r: "add_dependency (TTab d) e = Inr data'"
    by (rule add_dependency_unfold)
  from r p assms(2) show ?thesis
    unfolding d add_dependency_table [OF p]
    by (cases "deps_default p") (auto simp: get2_def update_conv' split: if_splits)
qed

lemma add_dependency_top_frame:
  assumes "add_dependency data e = Inr data'" and "k \<noteq> ''project''"
  shows "getitem data' k = getitem data k"
proof -
  from assms(1) obtain d p where d: "data = TTab d" and p: "map_of d ''project'' = Some (TTab p)"
    and r: "add_dependency (TTab d) e = Inr data'"
    by (rule add_dependency_unfold)
  from r p assms(2) show ?thesis
    unfolding d add_dependency_table [OF p]
    by (cases "deps_default p") (auto simp: update_conv' split: if_splits)
qed

lemma umbrella_edit_split:
  assumes "umbrella_edit data pkg bin url = Inr data'"
  obtains d1 where "add_dependency data (dep_entry pkg url) = Inr d1"
    and "set_entry_point d1 pkg bin = Inr data'"
  using assms by (auto simp: umbrella_edit_def bindE_Inr_iff)

lemma package_edit_split:
  assumes "package_edit data pkg bin = Inr data'"
  obtains d1 where "set2 data ''project'' ''readme'' org_readme = Inr d1"
    and "set_entry_point d1 pkg bin = Inr data'"
  using assms by (auto simp: package_edit_def bindE_Inr_iff)

lemma umbrella_edit_sets:
  assumes "umbrella_edit data pkg bin url = Inr data'"
  shows "get3 data' ''project'' ''scripts'' bin = Inr (TStr (entry_point pkg))"
  using assms by (elim umbrella_edit_split) (rule set_entry_point_sets)

lemma package_edit_sets:
  assumes "package_edit data pkg bin = Inr data'"
  shows "get3 data' ''project'' ''scripts'' bin = Inr (TStr (entry_point pkg))"
  using assms by (elim package_edit_split) (rule set_entry_point_sets)

lemma umbrella_edit_member:
  assumes "umbrella_edit data pkg bin url = Inr data'"
  shows "\<exists>dv. get2 data' ''project'' ''dependencies'' = Inr dv
           \<and> py_in (dep_entry pkg url) dv = Inr True"
proof -
  from assms obtain d1 where a: "add_dependency data (dep_entry pkg url) = Inr d1"
    and s: "set_entry_point d1 pkg bin = Inr data'"
    by (rule umbrella_edit_split)
  from add_dependency_member [OF a] set_entry_point_project_frame [OF s, of "''dependencies''"]
  show ?thesis by simp
qed


lemma umbrella_edit_idem:
  assumes "umbrella_edit data pkg bin url = Inr data'"
  shows "umbrella_edit data' pkg bin url = Inr data'"
proof -
  from umbrella_edit_member [OF assms] obtain dv where
    "get2 data' ''project'' ''dependencies'' = Inr dv"
    "py_in (dep_entry pkg url) dv = Inr True" by blast
  then have "add_dependency data' (dep_entry pkg url) = Inr data'"
    by (rule add_dependency_present)
  moreover from assms have "set_entry_point data' pkg bin = Inr data'"
    by (elim umbrella_edit_split) (rule set_entry_point_idem)
  ultimately show ?thesis by (simp add: umbrella_edit_def)
qed

lemma package_edit_project_frame:
  assumes "package_edit data pkg bin = Inr data'" and "k \<noteq> ''readme''" and "k \<noteq> ''scripts''"
  shows "get2 data' ''project'' k = get2 data ''project'' k"
proof -
  from assms(1) obtain d1 where a: "set2 data ''project'' ''readme'' org_readme = Inr d1"
    and s: "set_entry_point d1 pkg bin = Inr data'"
    by (rule package_edit_split)
  from set2_frame [OF a assms(2)] set_entry_point_project_frame [OF s assms(3)]
  show ?thesis by simp
qed

lemma package_edit_others:
  assumes "package_edit data pkg bin = Inr data'" and "k \<noteq> bin"
  shows "get3 data' ''project'' ''scripts'' k = Inr v
           \<longleftrightarrow> get3 data ''project'' ''scripts'' k = Inr v"
proof -
  from assms(1) obtain d1 where a: "set2 data ''project'' ''readme'' org_readme = Inr d1"
    and s: "set_entry_point d1 pkg bin = Inr data'"
    by (rule package_edit_split)
  have "get2 d1 ''project'' ''scripts'' = get2 data ''project'' ''scripts''"
    by (rule set2_frame [OF a]) simp
  then have "get3 d1 ''project'' ''scripts'' k = get3 data ''project'' ''scripts'' k"
    by (rule get3_cong)
  with set_entry_point_others [OF s assms(2)] show ?thesis by simp
qed

lemma umbrella_edit_others:
  assumes "umbrella_edit data pkg bin url = Inr data'" and "k \<noteq> bin"
  shows "get3 data' ''project'' ''scripts'' k = Inr v
           \<longleftrightarrow> get3 data ''project'' ''scripts'' k = Inr v"
proof -
  from assms(1) obtain d1 where a: "add_dependency data (dep_entry pkg url) = Inr d1"
    and s: "set_entry_point d1 pkg bin = Inr data'"
    by (rule umbrella_edit_split)
  have "get2 d1 ''project'' ''scripts'' = get2 data ''project'' ''scripts''"
    by (rule add_dependency_project_frame [OF a]) simp
  then have "get3 d1 ''project'' ''scripts'' k = get3 data ''project'' ''scripts'' k"
    by (rule get3_cong)
  with set_entry_point_others [OF s assms(2)] show ?thesis by simp
qed

section \<open>Facts about effects\<close>

subsection \<open>Sequencing\<close>

lemma bindW_Returned_iff:
  "bindW m f w = Returned y w' \<longleftrightarrow> (\<exists>x w1. m w = Returned x w1 \<and> f x w1 = Returned y w')"
  by (cases "m w") (simp_all add: bindW_def)

lemma bindW_Raised_iff:
  "bindW m f w = Raised e w' \<longleftrightarrow>
     m w = Raised e w' \<or> (\<exists>x w1. m w = Returned x w1 \<and> f x w1 = Raised e w')"
  by (cases "m w") (simp_all add: bindW_def)

lemma world_of_bindW:
  "world_of (bindW m f w) =
     (case m w of Raised e w1 \<Rightarrow> w1 | Returned x w1 \<Rightarrow> world_of (f x w1))"
  by (cases "m w") (simp_all add: bindW_def)

lemma returned_iff: "returned r \<longleftrightarrow> (\<exists>x w. r = Returned x w)"
  by (cases r) simp_all

lemma returned_world: "returned r \<Longrightarrow> r = Returned () (world_of r)"
  by (cases r) simp_all

lemma keepsI: "(\<And>w. I w \<Longrightarrow> I (world_of (m w))) \<Longrightarrow> keeps I m"
  by (simp add: keeps_def)

lemma keepsD: "keeps I m \<Longrightarrow> I w \<Longrightarrow> I (world_of (m w))"
  by (simp add: keeps_def)

lemma keeps_Returned: "keeps I m \<Longrightarrow> I w \<Longrightarrow> m w = Returned u w' \<Longrightarrow> I w'"
  by (auto simp: keeps_def dest: spec [of _ w])

lemma keeps_bindW:
  assumes "keeps I m" and "\<And>x. keeps I (f x)"
  shows "keeps I (bindW m f)"
proof (rule keepsI)
  fix w assume "I w"
  with assms(1) have i: "I (world_of (m w))" by (rule keepsD)
  show "I (world_of (bindW m f w))"
  proof (cases "m w")
    case (Raised e w1)
    with i show ?thesis by (simp add: bindW_def)
  next
    case (Returned x w1)
    with i keepsD [OF assms(2), of w1 x] show ?thesis by (simp add: bindW_def)
  qed
qed

lemma keeps_same: "(\<And>w. world_of (m w) = w) \<Longrightarrow> keeps I m"
  by (simp add: keeps_def)

lemma world_of_ret [simp]: "world_of (ret x w) = w"
  by (simp add: ret_def)

lemma world_of_liftE [simp]: "world_of (liftE r w) = w"
  by (cases r) (simp_all add: liftE_def)

lemma bindW_assoc: "bindW (bindW m f) g = bindW m (\<lambda>x. bindW (f x) g)"
proof
  fix w
  show "bindW (bindW m f) g w = bindW m (\<lambda>x. bindW (f x) g) w"
    by (cases "m w") (simp_all add: bindW_def)
qed

lemma world_of_read_text [simp]: "world_of (read_text env p w) = w"
  by (simp add: read_text_def Let_def split: option.splits node.splits)

lemma world_of_load_toml [simp]: "world_of (load_toml env p w) = w"
  by (simp add: load_toml_def Let_def split: option.splits node.splits)

lemma world_of_open_default_write [simp]: "world_of (open_default_write env p s w) = w"
  by (simp add: open_default_write_def Let_def split: option.splits node.splits)

lemma keeps_unless_exists: "keeps I m \<Longrightarrow> keeps I (unless_exists env p m)"
  by (simp add: keeps_def unless_exists_def)

subsection \<open>What the primitives leave alone\<close>

lemma keeps_echo: "keeps (holds k Q) (echo s)"
  by (simp add: keeps_def holds_def echo_def)

lemma keeps_run_checked:
  assumes "tool_keeps env k"
  shows "keeps (holds k Q) (run_checked env argv dir)"
proof (rule keepsI)
  fix w assume "holds k Q w"
  then obtain n where n: "files w k = Some n" "Q n" by (auto simp: holds_def)
  from assms n(1) have "snd (tool env argv dir (files w)) k = Some n"
    by (simp add: tool_keeps_def)
  with n(2) show "holds k Q (world_of (run_checked env argv dir w))"
    by (cases "tool env argv dir (files w)") (auto simp: run_checked_def holds_def Let_def)
qed

lemma mk_down_keeps:
  "mk_down fs p cs = Inr fs' \<Longrightarrow> fs k = Some n \<Longrightarrow> fs' k = Some n"
proof (induction cs arbitrary: fs p)
  case Nil
  then show ?case by simp
next
  case (Cons c cs)
  show ?case
  proof (cases "fs (p @ [c])")
    case None
    with Cons.prems have "mk_down (fs(p @ [c] \<mapsto> Dir)) (p @ [c]) cs = Inr fs'"
      by (simp add: Let_def)
    moreover from None Cons.prems(2) have "(fs(p @ [c] \<mapsto> Dir)) k = Some n"
      by auto
    ultimately show ?thesis by (rule Cons.IH)
  next
    case (Some x)
    with Cons.prems have "mk_down fs (p @ [c]) cs = Inr fs'"
      by (cases x) (simp_all add: Let_def)
    then show ?thesis using Cons.prems(2) by (rule Cons.IH)
  qed
qed

lemma keeps_mkdir_parents: "keeps (holds k Q) (mkdir_parents env p)"
  by (auto simp: keeps_def holds_def mkdir_parents_def split: sum.splits dest: mk_down_keeps)

lemma keeps_store:
  assumes "fs_key env p = k \<Longrightarrow> Q (File s)"
  shows "keeps (holds k Q) (store env p s ev)"
  using assms
  by (auto simp: keeps_def holds_def store_def Let_def split: option.splits)

lemma unlink_cases:
  obtains (unchanged) "world_of (unlink_missing_ok env p w) = w"
  | (removed) x where "files w (fs_key env p) = Some (File x)"
      "unlink_missing_ok env p w = Returned () (w\<lparr>files := (files w)(fs_key env p := None)\<rparr>)"
proof (cases "node_at (files w) (fs_key env p)")
  case None
  then have "world_of (unlink_missing_ok env p w) = w"
    by (cases "missing_error (files w) (fs_key env p)") (simp_all add: unlink_missing_ok_def)
  then show ?thesis by (rule unchanged)
next
  case (Some n)
  show ?thesis
  proof (cases n)
    case Dir
    with Some have "world_of (unlink_missing_ok env p w) = w"
      by (simp add: unlink_missing_ok_def)
    then show ?thesis by (rule unchanged)
  next
    case (File x)
    with Some have "files w (fs_key env p) = Some (File x)"
      by (simp add: node_at_def split: if_splits)
    moreover from Some File
    have "unlink_missing_ok env p w
            = Returned () (w\<lparr>files := (files w)(fs_key env p := None)\<rparr>)"
      by (simp add: unlink_missing_ok_def)
    ultimately show ?thesis by (rule removed)
  qed
qed

lemma keeps_unlink:
  assumes "fs_key env p \<noteq> k"
  shows "keeps (holds k Q) (unlink_missing_ok env p)"
proof (rule keepsI)
  fix w assume h: "holds k Q w"
  show "holds k Q (world_of (unlink_missing_ok env p w))"
  proof (cases rule: unlink_cases [of env p w])
    case unchanged
    with h show ?thesis by simp
  next
    case (removed x)
    with h assms show ?thesis by (simp add: holds_def)
  qed
qed

lemma holds_exists: "holds (fs_key env p) Q w \<Longrightarrow> path_exists env p w"
  by (auto simp: holds_def path_exists_def node_at_def)

lemma keeps_guarded_store:
  assumes "\<And>w. world_of (m w) = w"
  shows "keeps (holds k Q) (unless_exists env p (bindW m (\<lambda>x. store env p (g x) ev)))"
proof (cases "fs_key env p = k")
  case True
  show ?thesis
  proof (rule keepsI)
    fix w assume "holds k Q w"
    with True have "path_exists env p w" by (auto intro: holds_exists)
    with \<open>holds k Q w\<close>
    show "holds k Q (world_of (unless_exists env p (bindW m (\<lambda>x. store env p (g x) ev)) w))"
      by (simp add: unless_exists_def)
  qed
next
  case False
  then have "\<And>x. keeps (holds k Q) (store env p (g x) ev)"
    by (intro keeps_store) simp
  with keeps_same [of m, OF assms] show ?thesis
    by (intro keeps_unless_exists keeps_bindW)
qed

subsection \<open>Paths\<close>

lemma split_on_plain: "d \<notin> set s \<Longrightarrow> split_on d s = [s]"
  by (induction s) auto

lemma Path_plain:
  assumes "CHR ''/'' \<notin> set n" and "n \<noteq> []" and "n \<noteq> ''.''"
  shows "Path n = PPath False [n]"
  using assms by (cases n) (auto simp: Path_def split_on_plain)

lemma joinpath_plain:
  assumes "CHR ''/'' \<notin> set n" and "n \<noteq> []" and "n \<noteq> ''.''"
  shows "joinpath p n = PPath (is_absolute p) (parts p @ [n])"
  by (simp add: joinpath_def Path_plain [OF assms])

lemma fs_key_joinpath:
  assumes "CHR ''/'' \<notin> set n" and "n \<noteq> []" and "n \<noteq> ''.''"
  shows "fs_key env (joinpath p n) = fs_key env p @ [n]"
  by (simp add: joinpath_plain [OF assms] fs_key_def)

lemma key_pyproject [simp]:
  "fs_key env (joinpath p ''pyproject.toml'') = fs_key env p @ [''pyproject.toml'']"
  by (rule fs_key_joinpath) simp_all

lemma key_readme_md [simp]:
  "fs_key env (joinpath p ''README.md'') = fs_key env p @ [''README.md'']"
  by (rule fs_key_joinpath) simp_all

lemma key_readme_org [simp]:
  "fs_key env (joinpath p ''README.org'') = fs_key env p @ [''README.org'']"
  by (rule fs_key_joinpath) simp_all

lemma key_main_py [simp]:
  "fs_key env (joinpath p ''main.py'') = fs_key env p @ [''main.py'']"
  by (rule fs_key_joinpath) simp_all

lemma key_git [simp]:
  "fs_key env (joinpath p ''.git'') = fs_key env p @ [''.git'']"
  by (rule fs_key_joinpath) simp_all

lemma key_gitignore [simp]:
  "fs_key env (joinpath p ''.gitignore'') = fs_key env p @ [''.gitignore'']"
  by (rule fs_key_joinpath) simp_all

lemma key_src [simp]:
  "fs_key env (joinpath p ''src'') = fs_key env p @ [''src'']"
  by (rule fs_key_joinpath) simp_all

subsection \<open>What the steps leave alone\<close>

lemma keeps_step1:
  "tool_keeps env k \<Longrightarrow> keeps (holds k Q) (step1_package_dir env pkg_dir)"
  unfolding step1_package_dir_def
  by (intro keeps_unless_exists keeps_run_checked)

lemma keeps_step2: "keeps (holds k Q) (step2_main_py env script_path pkg_dir pkg_name)"
  unfolding step2_main_py_def Let_def write_text_def
  by (intro keeps_bindW keeps_mkdir_parents keeps_guarded_store) simp

lemma keeps_step3:
  assumes "k \<noteq> fs_key env pkg_dir @ [''README.md'']"
  shows "keeps (holds k Q) (step3_readme env script_path pkg_dir bin_name)"
proof -
  have "keeps (holds k Q)
          (unless_exists env (joinpath pkg_dir ''README.org'')
             (bindW (ret ()) (\<lambda>x. store env (joinpath pkg_dir ''README.org'')
                (readme_text bin_name script_path) Wrote)))"
    by (rule keeps_guarded_store) simp
  moreover have "bindW (ret ()) (\<lambda>x. store env (joinpath pkg_dir ''README.org'')
                (readme_text bin_name script_path) Wrote)
        = write_text env (joinpath pkg_dir ''README.org'') (readme_text bin_name script_path)"
    by (rule ext) (simp add: bindW_def ret_def write_text_def)
  ultimately have "keeps (holds k Q)
          (unless_exists env (joinpath pkg_dir ''README.org'')
             (write_text env (joinpath pkg_dir ''README.org'')
                (readme_text bin_name script_path)))"
    by simp
  moreover from assms have "keeps (holds k Q) (unlink_missing_ok env (joinpath pkg_dir ''README.md''))"
    by (intro keeps_unlink) simp
  ultimately show ?thesis
    unfolding step3_readme_def Let_def by (intro keeps_bindW)
qed

lemma load_toml_Returned:
  assumes "load_toml env p w = Returned d w'"
  shows "w' = w \<and> (\<exists>s. files w (fs_key env p) = Some (File s) \<and> loads env s = Inr d)"
proof (cases "node_at (files w) (fs_key env p)")
  case None
  with assms show ?thesis by (simp add: load_toml_def)
next
  case (Some n)
  show ?thesis
  proof (cases n)
    case Dir
    with Some assms show ?thesis by (simp add: load_toml_def)
  next
    case (File s)
    with Some have f: "files w (fs_key env p) = Some (File s)"
      by (simp add: node_at_def split: if_splits)
    from Some File assms f show ?thesis
      by (cases "loads env s") (simp_all add: load_toml_def liftE_def)
  qed
qed

lemma liftE_Returned: "liftE r w = Returned x w' \<longleftrightarrow> r = Inr x \<and> w' = w"
  by (cases r) (auto simp: liftE_def)

text \<open>Load a manifest, edit it, write it back: step 4 and the umbrella update.\<close>

lemma load_edit_dump_cases:
  fixes f :: "toml \<Rightarrow> error + toml"
  obtains (unchanged) e where
      "bindW (load_toml env p) (\<lambda>d. bindW (liftE (f d)) (\<lambda>d'. dump_toml env p d')) w
         = Raised e w"
  | (stored) s d d' where
      "files w (fs_key env p) = Some (File s)"
      "loads env s = Inr d" "f d = Inr d'"
      "bindW (load_toml env p) (\<lambda>d. bindW (liftE (f d)) (\<lambda>d'. dump_toml env p d')) w
         = dump_toml env p d' w"
proof (cases "load_toml env p w")
  case (Raised e w1)
  with world_of_load_toml [of env p w] have "w1 = w"
    by simp
  with Raised have "bindW (load_toml env p) (\<lambda>d. bindW (liftE (f d)) (\<lambda>d'. dump_toml env p d')) w = Raised e w"
    by (simp add: bindW_def)
  then show ?thesis by (rule unchanged)
next
  case (Returned d w1)
  from load_toml_Returned [OF this] obtain s where w1: "w1 = w"
    and c: "files w (fs_key env p) = Some (File s)"
    and pc: "loads env s = Inr d"
    by auto
  show ?thesis
  proof (cases "f d")
    case (Inl e)
    with Returned w1 have "bindW (load_toml env p) (\<lambda>d. bindW (liftE (f d)) (\<lambda>d'. dump_toml env p d')) w = Raised e w"
      by (simp add: bindW_def liftE_def)
    then show ?thesis by (rule unchanged)
  next
    case (Inr d')
    with Returned w1 have "bindW (load_toml env p) (\<lambda>d. bindW (liftE (f d)) (\<lambda>d'. dump_toml env p d')) w = dump_toml env p d' w"
      by (simp add: bindW_def liftE_def)
    with c pc Inr show ?thesis by (rule stored)
  qed
qed

lemma store_Returned:
  assumes "store env p s ev w = Returned u w'"
  shows "w' = \<lparr>files = (files w)(fs_key env p \<mapsto> File s),
               trace = trace w @ [ev (fs_key env p)]\<rparr>"
  using assms by (simp add: store_def Let_def split: option.splits)

lemma dump_toml_Returned:
  assumes "dump_toml env p d w = Returned u w'"
  shows "w' = \<lparr>files = (files w)(fs_key env p \<mapsto> File (dumps env d)),
               trace = trace w @ [Dumped (fs_key env p) d]\<rparr>"
  using assms unfolding dump_toml_def by (rule store_Returned)

lemma keeps_dump_toml:
  assumes "fs_key env p = k \<Longrightarrow> Q (File (dumps env d))"
  shows "keeps (holds k Q) (dump_toml env p d)"
  unfolding dump_toml_def using assms by (rule keeps_store)

lemma step4_cases:
  obtains (unchanged) e where "step4_pyproject env pkg_dir pkg_name bin_name w = Raised e w"
  | (stored) s d d' where
      "files w (fs_key env pkg_dir @ [''pyproject.toml'']) = Some (File s)"
      "loads env s = Inr d" "package_edit d pkg_name bin_name = Inr d'"
      "step4_pyproject env pkg_dir pkg_name bin_name w
         = dump_toml env (joinpath pkg_dir ''pyproject.toml'') d' w"
  using load_edit_dump_cases [where f = "\<lambda>d. package_edit d pkg_name bin_name" and env = env
      and p = "joinpath pkg_dir ''pyproject.toml''" and w = w]
  by (simp add: step4_pyproject_def Let_def) blast

lemma update_cases:
  obtains (unchanged) e where
      "update_umbrella_deps_bin env pp pkg_name bin_name git_url w = Raised e w"
  | (stored) s d d' where
      "files w (fs_key env pp) = Some (File s)"
      "loads env s = Inr d" "umbrella_edit d pkg_name bin_name git_url = Inr d'"
      "update_umbrella_deps_bin env pp pkg_name bin_name git_url w = dump_toml env pp d' w"
  using load_edit_dump_cases [where f = "\<lambda>d. umbrella_edit d pkg_name bin_name git_url"
      and env = env and p = pp and w = w]
  by (simp add: update_umbrella_deps_bin_def) blast

lemma keeps_step4_other:
  assumes "k \<noteq> fs_key env pkg_dir @ [''pyproject.toml'']"
  shows "keeps (holds k Q) (step4_pyproject env pkg_dir pkg_name bin_name)"
proof (rule keepsI)
  fix w assume h: "holds k Q w"
  show "holds k Q (world_of (step4_pyproject env pkg_dir pkg_name bin_name w))"
  proof (cases rule: step4_cases [of env pkg_dir pkg_name bin_name w])
    case (unchanged e)
    with h show ?thesis by simp
  next
    case (stored s d d')
    from assms have "keeps (holds k Q) (dump_toml env (joinpath pkg_dir ''pyproject.toml'') d')"
      by (intro keeps_dump_toml) simp
    from keepsD [OF this h] stored(4) show ?thesis by simp
  qed
qed

text \<open>
  Both edits end with the assignment of the entry point: what they print has it,
  whatever they have read.
\<close>

lemma keeps_step4_dumped:
  assumes "\<And>d d'. package_edit d pkg_name bin_name = Inr d' \<Longrightarrow> P d'"
  shows "keeps (holds k (dumped_as env P)) (step4_pyproject env pkg_dir pkg_name bin_name)"
proof (rule keepsI)
  fix w assume h: "holds k (dumped_as env P) w"
  show "holds k (dumped_as env P) (world_of (step4_pyproject env pkg_dir pkg_name bin_name w))"
  proof (cases rule: step4_cases [of env pkg_dir pkg_name bin_name w])
    case (unchanged e)
    with h show ?thesis by simp
  next
    case (stored s d d')
    from stored(3) have "P d'" by (rule assms)
    then have "dumped_as env P (File (dumps env d'))"
      by (auto simp: dumped_as_def)
    then have "keeps (holds k (dumped_as env P))
        (dump_toml env (joinpath pkg_dir ''pyproject.toml'') d')"
      by (intro keeps_dump_toml)
    from keepsD [OF this h] stored(4) show ?thesis by simp
  qed
qed

lemma keeps_update_dumped:
  assumes "\<And>d d'. umbrella_edit d pkg_name bin_name git_url = Inr d' \<Longrightarrow> P d'"
  shows "keeps (holds k (dumped_as env P))
           (update_umbrella_deps_bin env pp pkg_name bin_name git_url)"
proof (rule keepsI)
  fix w assume h: "holds k (dumped_as env P) w"
  show "holds k (dumped_as env P)
          (world_of (update_umbrella_deps_bin env pp pkg_name bin_name git_url w))"
  proof (cases rule: update_cases [of env pp pkg_name bin_name git_url w])
    case (unchanged e)
    with h show ?thesis by simp
  next
    case (stored s d d')
    from stored(3) have "P d'" by (rule assms)
    then have "dumped_as env P (File (dumps env d'))"
      by (auto simp: dumped_as_def)
    then have "keeps (holds k (dumped_as env P)) (dump_toml env pp d')"
      by (intro keeps_dump_toml)
    from keepsD [OF this h] stored(4) show ?thesis by simp
  qed
qed

lemma keeps_update_other:
  assumes "k \<noteq> fs_key env pp"
  shows "keeps (holds k Q) (update_umbrella_deps_bin env pp pkg_name bin_name git_url)"
proof (rule keepsI)
  fix w assume h: "holds k Q w"
  show "holds k Q (world_of (update_umbrella_deps_bin env pp pkg_name bin_name git_url w))"
  proof (cases rule: update_cases [of env pp pkg_name bin_name git_url w])
    case (unchanged e)
    with h show ?thesis by simp
  next
    case (stored s d d')
    from assms have "keeps (holds k Q) (dump_toml env pp d')"
      by (intro keeps_dump_toml) simp
    from keepsD [OF this h] stored(4) show ?thesis by simp
  qed
qed

text \<open>What a returning update has done.\<close>

lemma update_Returned:
  assumes "update_umbrella_deps_bin env pp pkg_name bin_name git_url w = Returned u w'"
  obtains s d d' where
      "files w (fs_key env pp) = Some (File s)"
      "loads env s = Inr d" "umbrella_edit d pkg_name bin_name git_url = Inr d'"
      "w' = \<lparr>files = (files w)(fs_key env pp \<mapsto> File (dumps env d')),
               trace = trace w @ [Dumped (fs_key env pp) d']\<rparr>"
proof (cases rule: update_cases [of env pp pkg_name bin_name git_url w])
  case (unchanged e)
  with assms show ?thesis by simp
next
  case (stored s d d')
  from assms stored(4) have "dump_toml env pp d' w = Returned u w'" by simp
  from dump_toml_Returned [OF this] stored(1-3) show ?thesis by (rule that [rotated 3])
qed

lemma step4_Returned:
  assumes "step4_pyproject env pkg_dir pkg_name bin_name w = Returned u w'"
  obtains s d d' where
      "files w (fs_key env pkg_dir @ [''pyproject.toml'']) = Some (File s)"
      "loads env s = Inr d" "package_edit d pkg_name bin_name = Inr d'"
      "w' = \<lparr>files = (files w)(fs_key env pkg_dir @ [''pyproject.toml'']
                       \<mapsto> File (dumps env d')),
               trace = trace w @ [Dumped (fs_key env pkg_dir @ [''pyproject.toml'']) d']\<rparr>"
proof (cases rule: step4_cases [of env pkg_dir pkg_name bin_name w])
  case (unchanged e)
  with assms show ?thesis by simp
next
  case (stored s d d')
  from assms stored(4)
  have "dump_toml env (joinpath pkg_dir ''pyproject.toml'') d' w = Returned u w'" by simp
  from dump_toml_Returned [OF this] have
    "w' = \<lparr>files = (files w)(fs_key env pkg_dir @ [''pyproject.toml'']
                       \<mapsto> File (dumps env d')),
               trace = trace w @ [Dumped (fs_key env pkg_dir @ [''pyproject.toml'']) d']\<rparr>"
    by simp
  with stored(1-3) show ?thesis by (rule that)
qed

lemma keeps_step5:
  "tool_keeps env k \<Longrightarrow> keeps (holds k Q) (step5_git env pkg_dir)"
  unfolding step5_git_def
  by (intro keeps_bindW keeps_unless_exists keeps_run_checked keeps_same) simp_all

lemma keeps_scaffold:
  assumes "tool_keeps env k"
    and "last k \<noteq> ''README.md''" and "last k \<noteq> ''pyproject.toml''"
  shows "keeps (holds k Q) (scaffold env script)"
proof -
  from assms(2,3) have "k \<noteq> p @ [''README.md'']" "k \<noteq> p @ [''pyproject.toml'']" for p
    by auto
  with assms(1) show ?thesis
    unfolding scaffold_def Let_def
    by (intro keeps_bindW keeps_echo keeps_step1 keeps_step2 keeps_step3 keeps_step4_other
      keeps_step5)
qed

lemma keeps_setup_umbrella:
  "tool_keeps env k \<Longrightarrow> keeps (holds k Q) (setup_umbrella env r)"
  unfolding setup_umbrella_def Let_def
  by (intro keeps_bindW keeps_unless_exists keeps_run_checked keeps_echo keeps_same) simp_all

subsection \<open>One pass of the loop, taken apart\<close>

lemma migrate_script_Returned:
  assumes "migrate_script env register pat script w = Returned u w'"
  obtains w5 where "scaffold env script w = Returned () w5"
    and "step6_register env register pat (get_pkg_name (Path script))
           (get_bin_name (Path script)) w5 = Returned u w'"
  using assms by (auto simp: migrate_script_def bindW_Returned_iff)

lemma scaffold_Returned:
  assumes "scaffold env script w = Returned u w'"
  obtains w3 w4 where
    "step4_pyproject env (package_dir env script) (get_pkg_name (Path script))
        (get_bin_name (Path script)) w3 = Returned () w4"
    and "step5_git env (package_dir env script) w4 = Returned u w'"
  using assms by (auto simp: scaffold_def package_dir_def Let_def bindW_Returned_iff)

lemma setup_umbrella_Returned:
  assumes "setup_umbrella env r w = Returned pp w'"
  shows "pp = joinpath (Path r) ''pyproject.toml''"
  using assms by (auto simp: setup_umbrella_def Let_def bindW_Returned_iff ret_def)

lemma step6_Returned:
  assumes "step6_register env (Some r) pat pkg bin w = Returned u w'" and "r \<noteq> []"
  obtains wa url where
    "setup_umbrella env r w = Returned (joinpath (Path r) ''pyproject.toml'') wa"
    and "format_repo env pat bin = Inr url"
    and "update_umbrella_deps_bin env (joinpath (Path r) ''pyproject.toml'') pkg bin url wa
           = Returned u w'"
proof -
  from assms obtain pp wa url wb where
    s: "setup_umbrella env r w = Returned pp wa" and
    f: "liftE (format_repo env pat bin) wa = Returned url wb" and
    u: "update_umbrella_deps_bin env pp pkg bin url wb = Returned u w'"
    by (auto simp: step6_register_def bindW_Returned_iff)
  from setup_umbrella_Returned [OF s] have pp: "pp = joinpath (Path r) ''pyproject.toml''" .
  from f have "format_repo env pat bin = Inr url" "wb = wa"
    by (simp_all add: liftE_Returned)
  with s u pp show ?thesis by (intro that) simp_all
qed

lemma keeps_step6_dumped:
  assumes "tool_keeps env k"
    and "\<And>url d d'. umbrella_edit d pkg bin url = Inr d' \<Longrightarrow> P d'"
  shows "keeps (holds k (dumped_as env P)) (step6_register env register pat pkg bin)"
proof (cases register)
  case None
  then show ?thesis by (simp add: step6_register_def keeps_same)
next
  case (Some r)
  show ?thesis
  proof (cases "r = []")
    case True
    with Some show ?thesis by (simp add: step6_register_def keeps_same)
  next
    case False
    have "keeps (holds k (dumped_as env P))
            (bindW (setup_umbrella env r) (\<lambda>umbrella_pp.
               bindW (liftE (format_repo env pat bin)) (\<lambda>git_url.
               update_umbrella_deps_bin env umbrella_pp pkg bin git_url)))"
      by (intro keeps_bindW keeps_setup_umbrella keeps_update_dumped keeps_same assms(1))
        (auto intro: assms(2))
    with Some False show ?thesis by (simp add: step6_register_def)
  qed
qed

lemma umbrella_key_unfold:
  "fs_key env (joinpath (Path r) ''pyproject.toml'') = umbrella_key env r"
  by (simp add: umbrella_key_def)

lemma package_key_unfold:
  "fs_key env (package_dir env script) @ [''pyproject.toml''] = package_key env script"
  by (simp add: package_key_def)

text \<open>What registration leaves in the umbrella manifest.\<close>

lemma step6_registers:
  assumes "step6_register env (Some r) pat pkg bin w = Returned u w'" and "r \<noteq> []"
  obtains wa url s d d' where
    "setup_umbrella env r w = Returned (joinpath (Path r) ''pyproject.toml'') wa"
    "format_repo env pat bin = Inr url"
    "files wa (umbrella_key env r) = Some (File s)" "loads env s = Inr d"
    "umbrella_edit d pkg bin url = Inr d'"
    "files w' (umbrella_key env r) = Some (File (dumps env d'))"
    "trace w' = trace wa @ [Dumped (umbrella_key env r) d']"
proof -
  from assms obtain wa url where
    s: "setup_umbrella env r w = Returned (joinpath (Path r) ''pyproject.toml'') wa"
    and f: "format_repo env pat bin = Inr url"
    and u: "update_umbrella_deps_bin env (joinpath (Path r) ''pyproject.toml'') pkg bin url wa
           = Returned u w'"
    by (rule step6_Returned)
  from u obtain t d d' where
    c: "files wa (fs_key env (joinpath (Path r) ''pyproject.toml'')) = Some (File t)"
    and p: "loads env t = Inr d" and e: "umbrella_edit d pkg bin url = Inr d'"
    and w': "w' = \<lparr>files = (files wa)(fs_key env (joinpath (Path r) ''pyproject.toml'')
                       \<mapsto> File (dumps env d')),
               trace = trace wa
                 @ [Dumped (fs_key env (joinpath (Path r) ''pyproject.toml'')) d']\<rparr>"
    by (rule update_Returned)
  from w' have "files w' (umbrella_key env r) = Some (File (dumps env d'))"
    unfolding umbrella_key_def by simp
  moreover from w' have "trace w' = trace wa @ [Dumped (umbrella_key env r) d']"
    unfolding umbrella_key_def by simp
  moreover note s f c [unfolded umbrella_key_unfold] p e
  ultimately show ?thesis by (intro that)
qed

subsection \<open>The trace\<close>

lemma clean_append [simp]: "clean (xs @ ys) \<longleftrightarrow> clean xs \<and> clean ys"
  by (simp add: clean_def)

lemma clean_Nil [simp]: "clean []"
  by (simp add: clean_def)

lemma clean_Cons [simp]: "clean (ev # evs) \<longleftrightarrow> \<not> failed_exec ev \<and> clean evs"
  by (simp add: clean_def)

lemma fails_lastI:
  assumes "\<And>w. \<exists>evs. trace (world_of (m w)) = trace w @ evs \<and> clean evs"
  shows "fails_last m"
  unfolding fails_last_def using assms by blast

lemma fails_last_same: "(\<And>w. world_of (m w) = w) \<Longrightarrow> fails_last m"
  by (rule fails_lastI) simp

lemma fails_last_echo: "fails_last (echo s)"
  by (rule fails_lastI) (simp add: echo_def failed_exec_def)

lemma fails_last_store: "fails_last (store env p s ev)"
  if "\<And>k. \<not> failed_exec (ev k)"
  using that by (intro fails_lastI) (simp add: store_def Let_def split: option.splits)

lemma fails_last_write_text: "fails_last (write_text env p s)"
  unfolding write_text_def by (rule fails_last_store) (simp add: failed_exec_def)

lemma fails_last_dump_toml: "fails_last (dump_toml env p d)"
  unfolding dump_toml_def by (rule fails_last_store) (simp add: failed_exec_def)

lemma fails_last_mkdir_parents: "fails_last (mkdir_parents env p)"
  by (rule fails_lastI) (simp add: mkdir_parents_def split: sum.splits)

lemma fails_last_unlink: "fails_last (unlink_missing_ok env p)"
proof (rule fails_lastI)
  fix w :: world
  show "\<exists>evs. trace (world_of (unlink_missing_ok env p w)) = trace w @ evs \<and> clean evs"
    by (cases rule: unlink_cases [of env p w]) simp_all
qed

lemma fails_last_run_checked: "fails_last (run_checked env argv dir)"
  unfolding fails_last_def
proof
  fix w :: world
  obtain rc fs' where t: "tool env argv dir (files w) = (rc, fs')"
    by (cases "tool env argv dir (files w)")
  show "\<exists>evs. trace (world_of (run_checked env argv dir w)) = trace w @ evs
          \<and> (clean evs
             \<or> (\<exists>pre argv' dir' rc'. evs = pre @ [Exec argv' dir' rc'] \<and> clean pre \<and> rc' \<noteq> 0
                  \<and> run_checked env argv dir w
                      = Raised (CalledProcessError rc' argv') (world_of (run_checked env argv dir w))))"
  proof (cases "rc = 0")
    case True
    with t have "trace (world_of (run_checked env argv dir w)) = trace w @ [Exec argv dir 0]"
      by (simp add: run_checked_def)
    moreover have "clean [Exec argv dir 0]" by (simp add: failed_exec_def)
    ultimately show ?thesis by blast
  next
    case False
    with t have "trace (world_of (run_checked env argv dir w)) = trace w @ [] @ [Exec argv dir rc]"
      and "run_checked env argv dir w
             = Raised (CalledProcessError rc argv) (world_of (run_checked env argv dir w))"
      by (simp_all add: run_checked_def)
    with False show ?thesis
      by (intro exI [of _ "[] @ [Exec argv dir rc]"] conjI disjI2 exI [of _ "[]"]
          exI [of _ argv] exI [of _ dir] exI [of _ rc]) simp_all
  qed
qed

lemma fails_last_unless_exists: "fails_last m \<Longrightarrow> fails_last (unless_exists env p m)"
  unfolding fails_last_def unless_exists_def
proof
  fix w :: world
  assume a: "\<forall>w. \<exists>evs. trace (world_of (m w)) = trace w @ evs
          \<and> (clean evs
             \<or> (\<exists>pre argv dir rc. evs = pre @ [Exec argv dir rc] \<and> clean pre \<and> rc \<noteq> 0
                  \<and> m w = Raised (CalledProcessError rc argv) (world_of (m w))))"
  show "\<exists>evs. trace (world_of (if \<not> path_exists env p w then m w else Returned () w))
                 = trace w @ evs
          \<and> (clean evs
             \<or> (\<exists>pre argv dir rc. evs = pre @ [Exec argv dir rc] \<and> clean pre \<and> rc \<noteq> 0
                  \<and> (if \<not> path_exists env p w then m w else Returned () w)
                      = Raised (CalledProcessError rc argv)
                          (world_of (if \<not> path_exists env p w then m w else Returned () w))))"
  proof (cases "path_exists env p w")
    case True
    then show ?thesis by simp
  next
    case False
    with a [rule_format, of w] show ?thesis by simp
  qed
qed

lemma fails_last_bindW:
  assumes "fails_last m" and "\<And>x. fails_last (f x)"
  shows "fails_last (bindW m f)"
  unfolding fails_last_def
proof
  fix w :: world
  from assms(1) obtain evs1 where t1: "trace (world_of (m w)) = trace w @ evs1"
    and c1: "clean evs1
             \<or> (\<exists>pre argv dir rc. evs1 = pre @ [Exec argv dir rc] \<and> clean pre \<and> rc \<noteq> 0
                  \<and> m w = Raised (CalledProcessError rc argv) (world_of (m w)))"
    unfolding fails_last_def by blast
  show "\<exists>evs. trace (world_of (bindW m f w)) = trace w @ evs
          \<and> (clean evs
             \<or> (\<exists>pre argv dir rc. evs = pre @ [Exec argv dir rc] \<and> clean pre \<and> rc \<noteq> 0
                  \<and> bindW m f w
                      = Raised (CalledProcessError rc argv) (world_of (bindW m f w))))"
  proof (cases "m w")
    case (Raised e w1)
    then have b: "bindW m f w = Raised e w1" by (simp add: bindW_def)
    from c1 show ?thesis
    proof
      assume "clean evs1"
      with t1 Raised b show ?thesis by (intro exI [of _ evs1]) simp
    next
      assume "\<exists>pre argv dir rc. evs1 = pre @ [Exec argv dir rc] \<and> clean pre \<and> rc \<noteq> 0
                  \<and> m w = Raised (CalledProcessError rc argv) (world_of (m w))"
      then obtain pre argv dir rc where "evs1 = pre @ [Exec argv dir rc]" "clean pre" "rc \<noteq> 0"
        and "m w = Raised (CalledProcessError rc argv) (world_of (m w))"
        by blast
      with Raised b t1 have "trace (world_of (bindW m f w)) = trace w @ evs1"
        "evs1 = pre @ [Exec argv dir rc]" "clean pre" "rc \<noteq> 0"
        "bindW m f w = Raised (CalledProcessError rc argv) (world_of (bindW m f w))"
        by simp_all
      then show ?thesis by blast
    qed
  next
    case (Returned x w1)
    with c1 have cl: "clean evs1" by auto
    from Returned have b: "bindW m f w = f x w1" by (simp add: bindW_def)
    from Returned t1 have t1': "trace w1 = trace w @ evs1" by simp
    from assms(2) [of x] obtain evs2 where t2: "trace (world_of (f x w1)) = trace w1 @ evs2"
      and c2: "clean evs2
             \<or> (\<exists>pre argv dir rc. evs2 = pre @ [Exec argv dir rc] \<and> clean pre \<and> rc \<noteq> 0
                  \<and> f x w1 = Raised (CalledProcessError rc argv) (world_of (f x w1)))"
      unfolding fails_last_def by blast
    from t2 t1' b have t: "trace (world_of (bindW m f w)) = trace w @ (evs1 @ evs2)" by simp
    from c2 show ?thesis
    proof
      assume "clean evs2"
      with cl t show ?thesis by (intro exI [of _ "evs1 @ evs2"]) simp
    next
      assume "\<exists>pre argv dir rc. evs2 = pre @ [Exec argv dir rc] \<and> clean pre \<and> rc \<noteq> 0
                  \<and> f x w1 = Raised (CalledProcessError rc argv) (world_of (f x w1))"
      then obtain pre argv dir rc where e2: "evs2 = pre @ [Exec argv dir rc]" and "clean pre"
        and "rc \<noteq> 0"
        and "f x w1 = Raised (CalledProcessError rc argv) (world_of (f x w1))"
        by blast
      with cl b have "evs1 @ evs2 = (evs1 @ pre) @ [Exec argv dir rc]" "clean (evs1 @ pre)"
        "rc \<noteq> 0"
        "bindW m f w = Raised (CalledProcessError rc argv) (world_of (bindW m f w))"
        by simp_all
      with t show ?thesis by blast
    qed
  qed
qed

lemmas fails_last_intros =
  fails_last_bindW fails_last_unless_exists fails_last_run_checked fails_last_echo
  fails_last_write_text fails_last_dump_toml fails_last_mkdir_parents fails_last_unlink

lemma fails_last_step1: "fails_last (step1_package_dir env pkg_dir)"
  unfolding step1_package_dir_def by (intro fails_last_intros)

lemma fails_last_step2: "fails_last (step2_main_py env script_path pkg_dir pkg_name)"
  unfolding step2_main_py_def Let_def by (intro fails_last_intros fails_last_same) simp

lemma fails_last_step3: "fails_last (step3_readme env script_path pkg_dir bin_name)"
  unfolding step3_readme_def Let_def by (intro fails_last_intros)

lemma fails_last_step4: "fails_last (step4_pyproject env pkg_dir pkg_name bin_name)"
  unfolding step4_pyproject_def Let_def by (intro fails_last_intros fails_last_same) simp_all

lemma fails_last_step5: "fails_last (step5_git env pkg_dir)"
  unfolding step5_git_def by (intro fails_last_intros fails_last_same) simp

lemma fails_last_setup_umbrella: "fails_last (setup_umbrella env r)"
  unfolding setup_umbrella_def Let_def by (intro fails_last_intros fails_last_same) simp

lemma fails_last_update:
  "fails_last (update_umbrella_deps_bin env pp pkg_name bin_name git_url)"
  unfolding update_umbrella_deps_bin_def
  by (intro fails_last_intros fails_last_same) simp_all

lemma fails_last_step6: "fails_last (step6_register env register pat pkg bin)"
proof (cases register)
  case None
  then show ?thesis by (simp add: step6_register_def fails_last_same)
next
  case (Some r)
  have "fails_last (bindW (setup_umbrella env r) (\<lambda>umbrella_pp.
             bindW (liftE (format_repo env pat bin)) (\<lambda>git_url.
             update_umbrella_deps_bin env umbrella_pp pkg bin git_url)))"
    by (intro fails_last_bindW fails_last_setup_umbrella fails_last_update fails_last_same)
      simp
  with Some show ?thesis
    by (cases "r = []") (simp_all add: step6_register_def fails_last_same)
qed

lemma fails_last_scaffold: "fails_last (scaffold env script)"
  unfolding scaffold_def Let_def
  by (intro fails_last_bindW fails_last_echo fails_last_step1 fails_last_step2
      fails_last_step3 fails_last_step4 fails_last_step5)

lemma fails_last_migrate_script: "fails_last (migrate_script env register pat script)"
  unfolding migrate_script_def by (intro fails_last_bindW fails_last_scaffold fails_last_step6)

lemma fails_last_migrate_loop: "fails_last (migrate_loop env scripts register pat)"
proof (induction scripts)
  case Nil
  show ?case by (simp add: fails_last_same)
next
  case (Cons s scripts)
  then show ?case by (simp add: fails_last_bindW fails_last_migrate_script)
qed

lemma fails_last_migrate: "fails_last (migrate env scripts register pat)"
  unfolding fails_last_def
proof
  fix w :: world
  show "\<exists>evs. trace (world_of (migrate env scripts register pat w)) = trace w @ evs
          \<and> (clean evs
             \<or> (\<exists>pre argv dir rc. evs = pre @ [Exec argv dir rc] \<and> clean pre \<and> rc \<noteq> 0
                  \<and> migrate env scripts register pat w
                      = Raised (CalledProcessError rc argv)
                          (world_of (migrate env scripts register pat w))))"
  proof (cases "find (\<lambda>s. \<not> path_exists env (Path s) w) scripts")
    case None
    then have "migrate env scripts register pat w = migrate_loop env scripts register pat w"
      by (simp add: migrate_def)
    with fails_last_migrate_loop [of env scripts register pat] show ?thesis
      unfolding fails_last_def by simp
  next
    case (Some s)
    then have "migrate env scripts register pat w = Raised (BadParameter s) w"
      by (simp add: migrate_def)
    then show ?thesis by (intro exI [of _ "[]"]) simp
  qed
qed

subsection \<open>Directories made on the way\<close>

lemma mk_down_only_dirs:
  "mk_down fs p cs = Inr fs' \<Longrightarrow> fs' k = Some (File c) \<Longrightarrow> fs k = Some (File c)"
proof (induction cs arbitrary: fs p)
  case Nil
  then show ?case by simp
next
  case (Cons x cs)
  show ?case
  proof (cases "fs (p @ [x])")
    case None
    with Cons.prems have "mk_down (fs(p @ [x] \<mapsto> Dir)) (p @ [x]) cs = Inr fs'"
      by (simp add: Let_def)
    from Cons.IH [OF this Cons.prems(2)] show ?thesis
      by (simp split: if_splits)
  next
    case (Some n)
    with Cons.prems have "mk_down fs (p @ [x]) cs = Inr fs'"
      by (cases n) (simp_all add: Let_def)
    from Cons.IH [OF this Cons.prems(2)] show ?thesis .
  qed
qed

lemma mk_down_beyond:
  "mk_down fs p cs = Inr fs' \<Longrightarrow> length p + length cs < length k \<Longrightarrow> fs' k = fs k"
proof (induction cs arbitrary: fs p)
  case Nil
  then show ?case by simp
next
  case (Cons x cs)
  from Cons.prems(2) have len: "length (p @ [x]) + length cs < length k" by simp
  then have ne: "k \<noteq> p @ [x]" by auto
  show ?case
  proof (cases "fs (p @ [x])")
    case None
    with Cons.prems have "mk_down (fs(p @ [x] \<mapsto> Dir)) (p @ [x]) cs = Inr fs'"
      by (simp add: Let_def)
    from Cons.IH [OF this len] ne show ?thesis by simp
  next
    case (Some n)
    with Cons.prems have "mk_down fs (p @ [x]) cs = Inr fs'"
      by (cases n) (simp_all add: Let_def)
    from Cons.IH [OF this len] show ?thesis .
  qed
qed

lemma mkdir_parents_Returned:
  assumes "mkdir_parents env p w = Returned u w'"
  shows "mk_down (files w) [] (fs_key env p) = Inr (files w')" and "trace w' = trace w"
  using assms by (auto simp: mkdir_parents_def split: sum.splits)

lemma read_text_Returned:
  assumes "read_text env p w = Returned t w'"
  shows "w' = w \<and> files w (fs_key env p) = Some (File t)"
proof (cases "node_at (files w) (fs_key env p)")
  case None
  with assms show ?thesis by (simp add: read_text_def)
next
  case (Some n)
  show ?thesis
  proof (cases n)
    case Dir
    with Some assms show ?thesis by (simp add: read_text_def)
  next
    case (File c)
    with Some have "files w (fs_key env p) = Some (File c)"
      by (simp add: node_at_def split: if_splits)
    with Some File assms show ?thesis
      by (simp add: read_text_def)
  qed
qed

lemma unless_exists_Returned:
  assumes "unless_exists env p m w = Returned u w'"
  shows "(path_exists env p w \<and> w' = w) \<or> (\<not> path_exists env p w \<and> m w = Returned u w')"
  using assms by (auto simp: unless_exists_def split: if_splits)

lemma path_exists_files: "k \<noteq> [] \<Longrightarrow> fs_key env p = k \<Longrightarrow>
    path_exists env p w \<longleftrightarrow> files w k \<noteq> None"
  by (simp add: path_exists_def node_at_def)

subsection \<open>What stays absent\<close>

lemma keeps_lacks_echo: "keeps (lacks k) (echo s)"
  by (simp add: keeps_def lacks_def echo_def)

lemma open_default_write_raises: "\<exists>e. open_default_write env p s w = Raised e w"
  by (simp add: open_default_write_def Let_def split: option.splits node.splits)

lemma world_of_after_open_default_write [simp]:
  "world_of (bindW (open_default_write env p s) f w) = w"
  using open_default_write_raises [of env p s w] by (auto simp: bindW_def)

lemma keeps_lacks_run_checked:
  assumes "tool_leaves env argv dir k"
  shows "keeps (lacks k) (run_checked env argv dir)"
proof (rule keepsI)
  fix w :: world
  assume "lacks k w"
  with assms have "snd (tool env argv dir (files w)) k = None"
    by (simp add: tool_leaves_def lacks_def)
  then show "lacks k (world_of (run_checked env argv dir w))"
    by (cases "tool env argv dir (files w)") (auto simp: run_checked_def lacks_def Let_def)
qed

lemma keeps_lacks_store:
  assumes "fs_key env p \<noteq> k"
  shows "keeps (lacks k) (store env p s ev)"
  using assms by (auto simp: keeps_def lacks_def store_def Let_def split: option.splits)

lemma keeps_lacks_dump_toml:
  assumes "fs_key env p \<noteq> k"
  shows "keeps (lacks k) (dump_toml env p d)"
  unfolding dump_toml_def using assms by (rule keeps_lacks_store)

lemma keeps_lacks_step4:
  assumes "k \<noteq> fs_key env pkg_dir @ [''pyproject.toml'']"
  shows "keeps (lacks k) (step4_pyproject env pkg_dir pkg_name bin_name)"
proof (rule keepsI)
  fix w :: world
  assume h: "lacks k w"
  show "lacks k (world_of (step4_pyproject env pkg_dir pkg_name bin_name w))"
  proof (cases rule: step4_cases [of env pkg_dir pkg_name bin_name w])
    case (unchanged e)
    with h show ?thesis by simp
  next
    case (stored s d d')
    from assms have "keeps (lacks k) (dump_toml env (joinpath pkg_dir ''pyproject.toml'') d')"
      by (intro keeps_lacks_dump_toml) simp
    from keepsD [OF this h] stored(4) show ?thesis by simp
  qed
qed

lemma keeps_lacks_update:
  assumes "k \<noteq> fs_key env pp"
  shows "keeps (lacks k) (update_umbrella_deps_bin env pp pkg_name bin_name git_url)"
proof (rule keepsI)
  fix w :: world
  assume h: "lacks k w"
  show "lacks k (world_of (update_umbrella_deps_bin env pp pkg_name bin_name git_url w))"
  proof (cases rule: update_cases [of env pp pkg_name bin_name git_url w])
    case (unchanged e)
    with h show ?thesis by simp
  next
    case (stored s d d')
    from assms have "keeps (lacks k) (dump_toml env pp d')"
      by (intro keeps_lacks_dump_toml) simp
    from keepsD [OF this h] stored(4) show ?thesis by simp
  qed
qed

text \<open>In step 5 only \<^verbatim>\<open>git init\<close> is ever run: the next statement raises.\<close>

lemma keeps_lacks_step5:
  "tool_leaves env [''git'', ''init''] (fs_key env pkg_dir) k
     \<Longrightarrow> keeps (lacks k) (step5_git env pkg_dir)"
  unfolding step5_git_def
  by (intro keeps_bindW keeps_unless_exists keeps_lacks_run_checked keeps_same) simp_all

lemma keeps_lacks_step6:
  assumes "\<And>r. register = Some r
             \<Longrightarrow> tool_leaves env [''uv'', ''init'', ''--lib'', path_str (Path r)] (cwd env) k"
    and "last k \<noteq> ''pyproject.toml''"
  shows "keeps (lacks k) (step6_register env register pat pkg bin)"
proof (cases register)
  case None
  then show ?thesis by (simp add: step6_register_def keeps_same)
next
  case (Some r)
  from assms(2) have ne: "k \<noteq> fs_key env (joinpath (Path r) ''pyproject.toml'')"
    by auto
  have "keeps (lacks k)
          (bindW (setup_umbrella env r) (\<lambda>umbrella_pp.
             bindW (liftE (format_repo env pat bin)) (\<lambda>git_url.
             update_umbrella_deps_bin env umbrella_pp pkg bin git_url)))"
  proof (rule keepsI)
    fix w :: world
    assume h: "lacks k w"
    have ks: "keeps (lacks k) (setup_umbrella env r)"
      unfolding setup_umbrella_def Let_def
      by (intro keeps_bindW keeps_unless_exists keeps_lacks_run_checked keeps_lacks_echo
          keeps_same assms(1) Some) simp_all
    show "lacks k (world_of (bindW (setup_umbrella env r) (\<lambda>umbrella_pp.
             bindW (liftE (format_repo env pat bin)) (\<lambda>git_url.
             update_umbrella_deps_bin env umbrella_pp pkg bin git_url)) w))"
    proof (cases "setup_umbrella env r w")
      case (Raised e w1)
      with keepsD [OF ks h] show ?thesis by (simp add: bindW_def)
    next
      case (Returned pp w1)
      from setup_umbrella_Returned [OF this] have pp: "pp = joinpath (Path r) ''pyproject.toml''" .
      from keepsD [OF ks h] Returned have h1: "lacks k w1" by simp
      have "keeps (lacks k) (bindW (liftE (format_repo env pat bin)) (\<lambda>git_url.
             update_umbrella_deps_bin env pp pkg bin git_url))"
        using ne unfolding pp
        by (intro keeps_bindW keeps_lacks_update keeps_same) simp_all
      from keepsD [OF this h1] Returned show ?thesis by (simp add: bindW_def)
    qed
  qed
  with Some show ?thesis
    by (cases "r = []") (simp_all add: step6_register_def keeps_same)
qed

subsection \<open>What a whole run leaves alone\<close>

lemma keeps_step6_other:
  assumes "tool_keeps env k" and "last k \<noteq> ''pyproject.toml''"
  shows "keeps (holds k Q) (step6_register env register pat pkg bin)"
proof (cases register)
  case None
  then show ?thesis by (simp add: step6_register_def keeps_same)
next
  case (Some r)
  from assms(2) have ne: "k \<noteq> fs_key env (joinpath (Path r) ''pyproject.toml'')"
    by auto
  have "keeps (holds k Q)
          (bindW (setup_umbrella env r) (\<lambda>umbrella_pp.
             bindW (liftE (format_repo env pat bin)) (\<lambda>git_url.
             update_umbrella_deps_bin env umbrella_pp pkg bin git_url)))"
  proof (rule keepsI)
    fix w :: world
    assume h: "holds k Q w"
    have ks: "keeps (holds k Q) (setup_umbrella env r)"
      using assms(1) by (rule keeps_setup_umbrella)
    show "holds k Q (world_of (bindW (setup_umbrella env r) (\<lambda>umbrella_pp.
             bindW (liftE (format_repo env pat bin)) (\<lambda>git_url.
             update_umbrella_deps_bin env umbrella_pp pkg bin git_url)) w))"
    proof (cases "setup_umbrella env r w")
      case (Raised e w1)
      with keepsD [OF ks h] show ?thesis by (simp add: bindW_def)
    next
      case (Returned pp w1)
      from setup_umbrella_Returned [OF this] have pp: "pp = joinpath (Path r) ''pyproject.toml''" .
      from keepsD [OF ks h] Returned have h1: "holds k Q w1" by simp
      have "keeps (holds k Q) (bindW (liftE (format_repo env pat bin)) (\<lambda>git_url.
             update_umbrella_deps_bin env pp pkg bin git_url))"
        using ne unfolding pp
        by (intro keeps_bindW keeps_update_other keeps_same) simp_all
      from keepsD [OF this h1] Returned show ?thesis by (simp add: bindW_def)
    qed
  qed
  with Some show ?thesis
    by (cases "r = []") (simp_all add: step6_register_def keeps_same)
qed

lemma keeps_migrate_script:
  assumes "tool_keeps env k" and "last k \<noteq> ''README.md''" and "last k \<noteq> ''pyproject.toml''"
  shows "keeps (holds k Q) (migrate_script env register pat script)"
  unfolding migrate_script_def
  by (intro keeps_bindW keeps_scaffold keeps_step6_other assms)

lemma keeps_migrate_loop:
  assumes "tool_keeps env k" and "last k \<noteq> ''README.md''" and "last k \<noteq> ''pyproject.toml''"
  shows "keeps (holds k Q) (migrate_loop env scripts register pat)"
proof (induction scripts)
  case Nil
  show ?case by (simp add: keeps_same)
next
  case (Cons s scripts)
  then show ?case by (simp add: keeps_bindW keeps_migrate_script [OF assms])
qed

lemma keeps_migrate:
  assumes "tool_keeps env k" and "last k \<noteq> ''README.md''" and "last k \<noteq> ''pyproject.toml''"
  shows "keeps (holds k Q) (migrate env scripts register pat)"
proof (rule keepsI)
  fix w :: world
  assume h: "holds k Q w"
  show "holds k Q (world_of (migrate env scripts register pat w))"
  proof (cases "find (\<lambda>s. \<not> path_exists env (Path s) w) scripts")
    case None
    with keepsD [OF keeps_migrate_loop [OF assms] h] show ?thesis
      by (simp add: migrate_def)
  next
    case (Some s)
    with h show ?thesis by (simp add: migrate_def)
  qed
qed

subsection \<open>The dependency list and a pass of the loop\<close>

lemma dependency_list_iff:
  "dependency_list data = Some xs \<longleftrightarrow>
     get2 data ''project'' ''dependencies'' = Inr (TArr xs)
     \<or> xs = [] \<and> get2 data ''project'' ''dependencies'' = Inl (KeyError ''dependencies'')"
proof (cases data)
  case (TTab d)
  show ?thesis
  proof (cases "map_of d ''project''")
    case None
    with TTab show ?thesis by (simp add: dependency_list_def get2_def)
  next
    case (Some v)
    show ?thesis
    proof (cases v)
      case (TTab p)
      with Some \<open>data = TTab d\<close> show ?thesis
        by (auto simp: dependency_list_def get2_def deps_default_def
            split: option.splits toml.splits)
    qed (use Some TTab in \<open>simp_all add: dependency_list_def get2_def\<close>)
  qed
qed (simp_all add: dependency_list_def get2_def)

lemma umbrella_edit_dependency_list:
  assumes "umbrella_edit data pkg bin url = Inr data'" and "dependency_list data = Some xs"
  shows "dependency_list data'
           = Some (if TStr (dep_entry pkg url) \<in> set xs then xs
                   else xs @ [TStr (dep_entry pkg url)])"
proof -
  from assms(1) obtain d1 where a: "add_dependency data (dep_entry pkg url) = Inr d1"
    and s: "set_entry_point d1 pkg bin = Inr data'"
    by (rule umbrella_edit_split)
  from assms(2) have "get2 d1 ''project'' ''dependencies''
      = Inr (TArr (if TStr (dep_entry pkg url) \<in> set xs then xs
                   else xs @ [TStr (dep_entry pkg url)]))"
    unfolding dependency_list_iff
  proof
    assume "get2 data ''project'' ''dependencies'' = Inr (TArr xs)"
    with a show ?thesis by (rule add_dependency_array)
  next
    assume "xs = [] \<and> get2 data ''project'' ''dependencies'' = Inl (KeyError ''dependencies'')"
    with add_dependency_absent [OF a] show ?thesis by simp
  qed
  with set_entry_point_project_frame [OF s, of "''dependencies''"]
  show ?thesis by (simp add: dependency_list_iff)
qed

lemma package_edit_dependency_list:
  assumes "package_edit data pkg bin = Inr data'"
  shows "dependency_list data' = dependency_list data"
proof -
  have "get2 data' ''project'' ''dependencies'' = get2 data ''project'' ''dependencies''"
    using assms by (rule package_edit_project_frame) simp_all
  then have "dependency_list data' = Some xs \<longleftrightarrow> dependency_list data = Some xs" for xs
    by (simp add: dependency_list_iff)
  then show ?thesis by (cases "dependency_list data") (auto intro: option.expand)
qed

lemma last_umbrella_key: "last (umbrella_key env r) = ''pyproject.toml''"
  by (simp add: umbrella_key_def)


lemma migrate_pair_Returned:
  assumes "migrate env [s1, s2] register pat w = Returned u w'"
  obtains w1 where "migrate_script env register pat s1 w = Returned () w1"
    and "migrate_script env register pat s2 w1 = Returned () w'"
  using assms
  by (auto simp: migrate_def bindW_Returned_iff ret_def split: option.splits)

subsection \<open>Manifests that are read back\<close>

lemma reads_back_append [simp]:
  "reads_back env (xs @ ys) \<longleftrightarrow> reads_back env xs \<and> reads_back env ys"
  by (simp add: reads_back_def)

lemma reads_back_Dumped [simp]:
  "reads_back env [Dumped k d] \<longleftrightarrow> loads env (dumps env d) = Inr d"
  by (simp add: reads_back_def read_back_def)

lemma fails_last_grows: "fails_last m \<Longrightarrow> grows m"
  unfolding fails_last_def grows_def by blast

lemma grows_Returned:
  assumes "grows m" and "m w = Returned u w'" and "reads_back env (trace w')"
  shows "reads_back env (trace w)"
proof -
  from assms(1) obtain evs where "trace (world_of (m w)) = trace w @ evs"
    unfolding grows_def by blast
  with assms(2,3) show ?thesis by simp
qed

lemma keeps_guarded_lift:
  assumes "keeps (holds k Q) m" and "grows m"
  shows "keeps (guarded env k Q) m"
proof (rule keepsI)
  fix w assume g: "guarded env k Q w"
  from assms(2) obtain evs where t: "trace (world_of (m w)) = trace w @ evs"
    unfolding grows_def by blast
  show "guarded env k Q (world_of (m w))"
    unfolding guarded_def
  proof
    assume "reads_back env (trace (world_of (m w)))"
    with t have "reads_back env (trace w)" by simp
    with g have "holds k Q w" by (simp add: guarded_def)
    with assms(1) show "holds k Q (world_of (m w))" by (rule keepsD)
  qed
qed

lemma dump_toml_cases:
  obtains (unchanged) e where "dump_toml env p d w = Raised e w"
  | (written) "dump_toml env p d w
      = Returned () \<lparr>files = (files w)(fs_key env p \<mapsto> File (dumps env d)),
                      trace = trace w @ [Dumped (fs_key env p) d]\<rparr>"
  by (cases "open_w (files w) (fs_key env p)") (auto simp: dump_toml_def store_def Let_def)

text \<open>
  Step 4 on a manifest that is read as a document with \<open>P\<close>, when the edit of the
  package's manifest cannot spoil \<open>P\<close>.
\<close>

lemma keeps_guarded_step4:
  assumes closed: "\<And>d d'. P d \<Longrightarrow> package_edit d pkg_name bin_name = Inr d' \<Longrightarrow> P d'"
  shows "keeps (guarded env k (loads_as env P)) (step4_pyproject env pkg_dir pkg_name bin_name)"
proof (rule keepsI)
  fix w assume g: "guarded env k (loads_as env P) w"
  let ?pk = "fs_key env (joinpath pkg_dir ''pyproject.toml'')"
  show "guarded env k (loads_as env P)
          (world_of (step4_pyproject env pkg_dir pkg_name bin_name w))"
  proof (cases rule: step4_cases [of env pkg_dir pkg_name bin_name w])
    case (unchanged e)
    with g show ?thesis by simp
  next
    case (stored s d d')
    show ?thesis
    proof (cases rule: dump_toml_cases [of env "joinpath pkg_dir ''pyproject.toml''" d' w])
      case (unchanged e)
      with stored(4) g show ?thesis by simp
    next
      case written
      let ?w' = "\<lparr>files = (files w)(?pk \<mapsto> File (dumps env d')),
                   trace = trace w @ [Dumped ?pk d']\<rparr>"
      have "guarded env k (loads_as env P) ?w'"
        unfolding guarded_def
      proof
        assume "reads_back env (trace ?w')"
        then have rb: "reads_back env (trace w)" and l: "loads env (dumps env d') = Inr d'"
          by simp_all
        from g rb have h: "holds k (loads_as env P) w" by (simp add: guarded_def)
        show "holds k (loads_as env P) ?w'"
        proof (cases "?pk = k")
          case True
          with h stored(1) have "loads_as env P (File s)" by (auto simp: holds_def)
          with stored(2) have "P d" by (simp add: loads_as_def)
          then have "P d'" using stored(3) by (rule closed)
          with l have "loads_as env P (File (dumps env d'))" by (simp add: loads_as_def)
          with True show ?thesis by (simp add: holds_def)
        next
          case False
          with h show ?thesis by (simp add: holds_def)
        qed
      qed
      with stored(4) written show ?thesis by simp
    qed
  qed
qed

lemma keeps_guarded_scaffold:
  assumes tk: "tool_keeps env k" and k: "last k = ''pyproject.toml''"
    and closed: "\<And>d d'. P d \<Longrightarrow>
           package_edit d (get_pkg_name (Path script)) (get_bin_name (Path script)) = Inr d'
           \<Longrightarrow> P d'"
  shows "keeps (guarded env k (loads_as env P)) (scaffold env script)"
proof -
  let ?G = "guarded env k (loads_as env P)"
  from k have ne: "k \<noteq> p @ [''README.md'']" for p by auto
  have e: "keeps ?G (echo s)" for s
    by (intro keeps_guarded_lift keeps_echo fails_last_grows fails_last_echo)
  have s1: "keeps ?G (step1_package_dir env pkg_dir)" for pkg_dir
    by (intro keeps_guarded_lift keeps_step1 tk fails_last_grows fails_last_step1)
  have s2: "keeps ?G (step2_main_py env script_path pkg_dir pkg_name)"
    for script_path pkg_dir pkg_name
    by (intro keeps_guarded_lift keeps_step2 fails_last_grows fails_last_step2)
  have s3: "keeps ?G (step3_readme env script_path pkg_dir bin_name)"
    for script_path pkg_dir bin_name
    by (intro keeps_guarded_lift keeps_step3 ne fails_last_grows fails_last_step3)
  have s4: "keeps ?G (step4_pyproject env pkg_dir (get_pkg_name (Path script))
                        (get_bin_name (Path script)))" for pkg_dir
    using closed by (rule keeps_guarded_step4)
  have s5: "keeps ?G (step5_git env pkg_dir)" for pkg_dir
    by (intro keeps_guarded_lift keeps_step5 tk fails_last_grows fails_last_step5)
  show ?thesis
    unfolding scaffold_def Let_def by (intro keeps_bindW e s1 s2 s3 s4 s5)
qed

text \<open>
  A returning pass with \<^verbatim>\<open>--register\<close>, started where the umbrella manifest is read
  as a document with \<open>P\<close>: the umbrella update works on a document with \<open>P\<close>, when
  the edit of the package's manifest cannot spoil \<open>P\<close>, the tools leave the umbrella
  manifest as it is, and what the pass writes is read back.
\<close>

lemma pass_on_manifest:
  assumes tk: "tool_keeps env (umbrella_key env r)" and r: "r \<noteq> []"
    and run: "migrate_script env (Some r) pat script w = Returned () w'"
    and rb: "reads_back env (trace w')"
    and h: "holds (umbrella_key env r) (loads_as env P) w"
    and closed: "\<And>d d'. P d \<Longrightarrow>
           package_edit d (get_pkg_name (Path script)) (get_bin_name (Path script)) = Inr d'
           \<Longrightarrow> P d'"
  obtains d url d' where "P d"
    and "format_repo env pat (get_bin_name (Path script)) = Inr url"
    and "umbrella_edit d (get_pkg_name (Path script)) (get_bin_name (Path script)) url = Inr d'"
    and "files w' (umbrella_key env r) = Some (File (dumps env d'))"
    and "loads env (dumps env d') = Inr d'"
proof -
  let ?K = "umbrella_key env r"
  let ?bin = "get_bin_name (Path script)" and ?pkg = "get_pkg_name (Path script)"
  from run obtain w5 where sc: "scaffold env script w = Returned () w5"
    and s6: "step6_register env (Some r) pat ?pkg ?bin w5 = Returned () w'"
    by (rule migrate_script_Returned)
  from fails_last_grows [OF fails_last_step6] s6 rb have rb5: "reads_back env (trace w5)"
    by (rule grows_Returned)
  from h have g: "guarded env ?K (loads_as env P) w" by (simp add: guarded_def)
  have "keeps (guarded env ?K (loads_as env P)) (scaffold env script)"
    using tk last_umbrella_key closed by (rule keeps_guarded_scaffold)
  then have "guarded env ?K (loads_as env P) w5" using g sc by (rule keeps_Returned)
  with rb5 have h5: "holds ?K (loads_as env P) w5" by (simp add: guarded_def)
  from s6 r obtain wa url s d d' where
    su: "setup_umbrella env r w5 = Returned (joinpath (Path r) ''pyproject.toml'') wa"
    and f: "format_repo env pat ?bin = Inr url"
    and c: "files wa ?K = Some (File s)" and p: "loads env s = Inr d"
    and e: "umbrella_edit d ?pkg ?bin url = Inr d'"
    and m': "files w' ?K = Some (File (dumps env d'))"
    and t': "trace w' = trace wa @ [Dumped ?K d']"
    by (rule step6_registers)
  from keeps_setup_umbrella [OF tk] h5 su have "holds ?K (loads_as env P) wa"
    by (rule keeps_Returned)
  with c have "loads_as env P (File s)" by (auto simp: holds_def)
  with p have "P d" by (simp add: loads_as_def)
  moreover from rb t' have "loads env (dumps env d') = Inr d'" by simp
  ultimately show ?thesis using f e m' by (intro that)
qed

lemma manifest_at_dumped:
  assumes "files w k = Some (File (dumps env d))" and "loads env (dumps env d) = Inr d"
  shows "manifest_at env k w = Some d"
  using assms by (simp add: manifest_at_def)

subsection \<open>The printer and the parser of the examples\<close>

lemma dec_nat_enc [simp]: "dec_nat (enc_nat n @ r) = Some (n, r)"
  by (induction n) simp_all

lemma dec_str_enc [simp]: "dec_str (enc_str s @ r) = Some (s, r)"
  by (simp add: dec_str_def enc_str_def)

lemma dec_items_enc:
  assumes "\<And>x n r. x \<in> set xs \<Longrightarrow> length (enc x) \<le> n \<Longrightarrow> dec n (enc x @ r) = Some (x, r)"
    and "length (concat (map (\<lambda>x. CHR '','' # enc x) xs) @ '']'') \<le> n"
  shows "dec_items n (concat (map (\<lambda>x. CHR '','' # enc x) xs) @ '']'' @ r) = Some (xs, r)"
  using assms
proof (induction xs arbitrary: n)
  case Nil
  then show ?case by (cases n) simp_all
next
  case (Cons x xs)
  from Cons.prems(2) obtain m where n: "n = Suc m" by (cases n) auto
  from Cons.prems(2) n have l1: "length (enc x) \<le> m"
    and l2: "length (concat (map (\<lambda>x. CHR '','' # enc x) xs) @ '']'') \<le> m"
    by simp_all
  have "dec m (enc x @ (concat (map (\<lambda>x. CHR '','' # enc x) xs) @ '']'' @ r))
          = Some (x, concat (map (\<lambda>x. CHR '','' # enc x) xs) @ '']'' @ r)"
    by (rule Cons.prems(1)) (simp_all add: l1)
  moreover have "dec_items m (concat (map (\<lambda>x. CHR '','' # enc x) xs) @ '']'' @ r) = Some (xs, r)"
  proof (rule Cons.IH [OF _ l2])
    fix y n' r'
    assume "y \<in> set xs" "length (enc y) \<le> n'"
    then show "dec n' (enc y @ r') = Some (y, r')"
      by (intro Cons.prems(1)) simp_all
  qed
  ultimately show ?case by (simp add: n)
qed

lemma dec_pairs_enc:
  assumes "\<And>k v n r. (k, v) \<in> set kvs \<Longrightarrow> length (enc v) \<le> n \<Longrightarrow> dec n (enc v @ r) = Some (v, r)"
    and "length (concat (map (\<lambda>kv. CHR '','' # enc_str (fst kv) @ enc (snd kv)) kvs) @ ''}'') \<le> n"
  shows "dec_pairs n (concat (map (\<lambda>kv. CHR '','' # enc_str (fst kv) @ enc (snd kv)) kvs) @ ''}'' @ r)
           = Some (kvs, r)"
  using assms
proof (induction kvs arbitrary: n)
  case Nil
  then show ?case by (cases n) simp_all
next
  case (Cons kv kvs)
  obtain k v where kv: "kv = (k, v)" by (cases kv)
  let ?rest = "concat (map (\<lambda>kv. CHR '','' # enc_str (fst kv) @ enc (snd kv)) kvs)"
  from Cons.prems(2) obtain m where n: "n = Suc m" by (cases n) auto
  from Cons.prems(2) n kv have l1: "length (enc v) \<le> m" and l2: "length (?rest @ ''}'') \<le> m"
    by simp_all
  have "dec m (enc v @ (?rest @ ''}'' @ r)) = Some (v, ?rest @ ''}'' @ r)"
    by (rule Cons.prems(1) [of k]) (simp_all add: l1 kv)
  moreover have "dec_pairs m (?rest @ ''}'' @ r) = Some (kvs, r)"
  proof (rule Cons.IH [OF _ l2])
    fix k' v' n' r'
    assume "(k', v') \<in> set kvs" "length (enc v') \<le> n'"
    then show "dec n' (enc v' @ r') = Some (v', r')"
      by (intro Cons.prems(1) [of k']) simp_all
  qed
  ultimately show ?case by (simp add: n kv)
qed

lemma dec_enc: "length (enc t) \<le> n \<Longrightarrow> dec n (enc t @ r) = Some (t, r)"
proof (induction t arbitrary: n r)
  case (TStr s)
  then show ?case by (cases n) simp_all
next
  case (TInt i)
  then show ?case by (cases n) auto
next
  case (TBool b)
  then show ?case by (cases n) simp_all
next
  case (TScalar s)
  then show ?case by (cases n) simp_all
next
  case (TArr xs)
  from TArr.prems obtain m where n: "n = Suc m" by (cases n) auto
  from TArr.prems n
  have "dec_items m (concat (map (\<lambda>x. CHR '','' # enc x) xs) @ '']'' @ r) = Some (xs, r)"
    by (intro dec_items_enc TArr.IH) simp_all
  then show ?case by (simp add: n)
next
  case (TTab kvs)
  from TTab.prems obtain m where n: "n = Suc m" by (cases n) auto
  have ih: "dec n' (enc v @ r') = Some (v, r')"
    if "(k, v) \<in> set kvs" "length (enc v) \<le> n'" for k v n' r'
    using that by (intro TTab.IH [of "(k, v)"]) simp_all
  from TTab.prems n
  have "dec_pairs m (concat (map (\<lambda>kv. CHR '','' # enc_str (fst kv) @ enc (snd kv)) kvs) @ ''}'' @ r)
          = Some (kvs, r)"
    by (intro dec_pairs_enc ih) simp_all
  then show ?case by (simp add: n)
qed

lemma demo_loads_dumps: "demo_loads (demo_dumps d) = Inr d"
  using dec_enc [of d "length (enc d)" "[]"] by (simp add: demo_loads_def demo_dumps_def)

lemma reads_back_demo: "loads env = demo_loads \<Longrightarrow> dumps env = demo_dumps \<Longrightarrow> reads_back env evs"
  by (auto simp: reads_back_def read_back_def list_all_iff demo_loads_dumps split: event.splits)

section \<open>The claims\<close>




text \<open>
  C2 fails on the code. The package of the script is there, with its manifest and its
  \<^verbatim>\<open>.git\<close> directory, and has no \<^verbatim>\<open>.gitignore\<close>. Step 5 opens the missing file
  in the default mode, for reading: the run raises \<^verbatim>\<open>FileNotFoundError\<close>, the file
  is not made and no tool is run.
\<close>

theorem gitignore_step_raises:
  "raised (migrate demo_env [''my-tool.py''] None default_giturl_pattern
             demo_world_no_gitignore)
     = Some (FileNotFoundError [''work'', ''my-tool'', ''.gitignore''])
   \<and> files (world_of (migrate demo_env [''my-tool.py''] None default_giturl_pattern
             demo_world_no_gitignore)) [''work'', ''my-tool'', ''.gitignore''] = None
   \<and> trace (world_of (migrate demo_env [''my-tool.py''] None default_giturl_pattern
             demo_world_no_gitignore))
     = [Echo ''\<newline>Processing: my-tool'',
        Wrote [''work'', ''my-tool'', ''src'', ''my_tool'', ''main.py''],
        Wrote [''work'', ''my-tool'', ''README.org''],
        Dumped [''work'', ''my-tool'', ''pyproject.toml'']
          (TTab [(''project'',
                  TTab [(''name'', TStr ''my-tool''), (''version'', TStr ''0.1.0''),
                        (''dependencies'', TArr []),
                        (''readme'',
                         TTab [(''file'', TStr ''README.org''),
                               (''content-type'', TStr ''text/org'')]),
                        (''scripts'', TTab [(''my-tool'', TStr ''my_tool.main:main'')])]),
                 (''build-system'', TTab [(''requires'', TArr [TStr ''setuptools''])])])]"
  by code_simp

lemma str_replace_char:
  "str_replace [a] [b] s = map (\<lambda>c. if c = a then b else c) s"
  by (induction s) auto

text \<open>
  C3. For every script path, the package name is the stem of the file name with every
  hyphen replaced by an underscore, so it contains no hyphen, and the command name is
  the stem itself.
\<close>

theorem names_from_stem:
  "get_bin_name (Path script) = path_stem (Path script)
   \<and> get_pkg_name (Path script)
       = map (\<lambda>c. if c = CHR ''-'' then CHR ''_'' else c) (path_stem (Path script))
   \<and> CHR ''-'' \<notin> set (get_pkg_name (Path script))"
  by (auto simp: get_bin_name_def get_pkg_name_def str_replace_char)

theorem names_from_stem_witness:
  "get_bin_name (Path ''bin/my-tool.py'') = ''my-tool''
   \<and> get_pkg_name (Path ''bin/my-tool.py'') = ''my_tool''"
proof -
  have "path_stem (Path ''bin/my-tool.py'') = ''my-tool''" by code_simp
  with names_from_stem [of "''bin/my-tool.py''"] show ?thesis by simp
qed

text \<open>
  C4. A pass of the loop with \<^verbatim>\<open>--register\<close> that returns has set the entry of the
  command name in the scripts table of the umbrella manifest to
  \<^verbatim>\<open><pkg_name>.main:main\<close>, whatever the manifest held under that key before
  (the starting world is arbitrary), and has set the same entry in the package's own
  manifest: each of the two files holds the text printed for a document with that
  entry. For the package's manifest, written in step 4, the external tools that run
  afterwards are taken to leave that file alone.
\<close>

theorem entry_point_overwritten:
  assumes "migrate_script env (Some r) pat script w = Returned () w'" and "r \<noteq> []"
    and "tool_keeps env (package_key env script)"
  shows "(\<exists>d. files w' (umbrella_key env r) = Some (File (dumps env d))
            \<and> get3 d ''project'' ''scripts'' (get_bin_name (Path script))
                = Inr (TStr (entry_point (get_pkg_name (Path script)))))
       \<and> (\<exists>d. files w' (package_key env script) = Some (File (dumps env d))
            \<and> get3 d ''project'' ''scripts'' (get_bin_name (Path script))
                = Inr (TStr (entry_point (get_pkg_name (Path script)))))"
proof
  let ?bin = "get_bin_name (Path script)" and ?pkg = "get_pkg_name (Path script)"
  let ?P = "\<lambda>d. get3 d ''project'' ''scripts'' ?bin = Inr (TStr (entry_point ?pkg))"
  from assms(1) obtain w5 where sc: "scaffold env script w = Returned () w5"
    and s6: "step6_register env (Some r) pat ?pkg ?bin w5 = Returned () w'"
    by (rule migrate_script_Returned)
  from s6 assms(2) obtain d d' url where
    "umbrella_edit d ?pkg ?bin url = Inr d'"
    "files w' (umbrella_key env r) = Some (File (dumps env d'))"
    by (rule step6_registers)
  with umbrella_edit_sets [of d ?pkg ?bin url d']
  show "\<exists>d. files w' (umbrella_key env r) = Some (File (dumps env d)) \<and> ?P d"
    by blast
  from sc obtain w3 w4 where
    s4: "step4_pyproject env (package_dir env script) ?pkg ?bin w3 = Returned () w4"
    and s5: "step5_git env (package_dir env script) w4 = Returned () w5"
    by (rule scaffold_Returned)
  from s4 obtain d d' where e: "package_edit d ?pkg ?bin = Inr d'"
    and w4: "w4 = \<lparr>files = (files w3)(fs_key env (package_dir env script) @ [''pyproject.toml'']
                       \<mapsto> File (dumps env d')),
               trace = trace w3 @ [Dumped (fs_key env (package_dir env script)
                       @ [''pyproject.toml'']) d']\<rparr>"
    by (rule step4_Returned)
  from w4 have "files w4 (package_key env script) = Some (File (dumps env d'))"
    unfolding package_key_unfold by simp
  with package_edit_sets [OF e] have "holds (package_key env script) (dumped_as env ?P) w4"
    by (auto simp: holds_def dumped_as_def)
  with keeps_step5 [OF assms(3)]
  have h5: "holds (package_key env script) (dumped_as env ?P) w5"
    using s5 by (rule keeps_Returned)
  have "keeps (holds (package_key env script) (dumped_as env ?P))
                   (step6_register env (Some r) pat ?pkg ?bin)"
    using assms(3) by (rule keeps_step6_dumped) (rule umbrella_edit_sets)
  then have "holds (package_key env script) (dumped_as env ?P) w'"
    using h5 s6 by (rule keeps_Returned)
  then show "\<exists>d. files w' (package_key env script) = Some (File (dumps env d)) \<and> ?P d"
    by (auto simp: holds_def dumped_as_def)
qed

text \<open>
  Both manifests start with the entry \<^verbatim>\<open>stale.mod:fn\<close> for the command, and end with
  the computed one.
\<close>

theorem entry_point_overwritten_witness:
  "script_entry_at demo_env [''work'', ''hub'', ''pyproject.toml''] ''my-tool'' stale_world
     = Some (TStr ''stale.mod:fn'')
   \<and> script_entry_at demo_env [''work'', ''my-tool'', ''pyproject.toml''] ''my-tool'' stale_world
     = Some (TStr ''stale.mod:fn'')
   \<and> script_entry_at demo_env [''work'', ''hub'', ''pyproject.toml''] ''my-tool''
       (world_of (migrate_script demo_env (Some ''hub'') default_giturl_pattern
          ''my-tool.py'' stale_world))
     = Some (TStr ''my_tool.main:main'')
   \<and> script_entry_at demo_env [''work'', ''my-tool'', ''pyproject.toml''] ''my-tool''
       (world_of (migrate_script demo_env (Some ''hub'') default_giturl_pattern
          ''my-tool.py'' stale_world))
     = Some (TStr ''my_tool.main:main'')"
proof -
  let ?run = "migrate_script demo_env (Some ''hub'') default_giturl_pattern
          ''my-tool.py'' stale_world"
  have "returned ?run" by code_simp
  then have r: "?run = Returned () (world_of ?run)" by (rule returned_world)
  have k: "tool_keeps demo_env (package_key demo_env ''my-tool.py'')"
    by (simp add: tool_keeps_def demo_env_def)
  have b: "get_bin_name (Path ''my-tool.py'') = ''my-tool''" by code_simp
  have p: "entry_point (get_pkg_name (Path ''my-tool.py'')) = ''my_tool.main:main''"
    by code_simp
  have n: "''hub'' \<noteq> []" by simp
  have K: "umbrella_key demo_env ''hub'' = [''work'', ''hub'', ''pyproject.toml'']"
    by code_simp
  have PK: "package_key demo_env ''my-tool.py'' = [''work'', ''my-tool'', ''pyproject.toml'']"
    by code_simp
  have l: "loads demo_env (dumps demo_env d) = Inr d" for d
    by (simp add: demo_env_def demo_loads_dumps)
  have before: "script_entry_at demo_env [''work'', ''hub'', ''pyproject.toml''] ''my-tool''
                  stale_world = Some (TStr ''stale.mod:fn'')"
    "script_entry_at demo_env [''work'', ''my-tool'', ''pyproject.toml''] ''my-tool''
                  stale_world = Some (TStr ''stale.mod:fn'')"
    by code_simp+
  from entry_point_overwritten [OF r n k] obtain d1 d2 where
    "files (world_of ?run) [''work'', ''hub'', ''pyproject.toml'']
       = Some (File (dumps demo_env d1))"
    "get3 d1 ''project'' ''scripts'' ''my-tool'' = Inr (TStr ''my_tool.main:main'')"
    "files (world_of ?run) [''work'', ''my-tool'', ''pyproject.toml'']
       = Some (File (dumps demo_env d2))"
    "get3 d2 ''project'' ''scripts'' ''my-tool'' = Inr (TStr ''my_tool.main:main'')"
    unfolding b p K PK by blast
  then have "script_entry_at demo_env [''work'', ''hub'', ''pyproject.toml''] ''my-tool''
                (world_of ?run) = Some (TStr ''my_tool.main:main'')"
    "script_entry_at demo_env [''work'', ''my-tool'', ''pyproject.toml''] ''my-tool''
                (world_of ?run) = Some (TStr ''my_tool.main:main'')"
    by (simp_all add: script_entry_at_def manifest_at_def l)
  with before show ?thesis by simp
qed

text \<open>
  C5, as the code has it. The umbrella update loads the document, reads the dependency
  list (empty when the key is absent), appends the one string
  \<^verbatim>\<open><pkg_name> @ <git_url>\<close> exactly when that string is not an element of the list,
  and writes the manifest back on every call that gets that far, changed or not.
\<close>

theorem umbrella_update_appends_if_absent:
  assumes "update_umbrella_deps_bin env pp pkg bin url w = Returned () w'"
    and "files w (fs_key env pp) = Some (File s)" and "loads env s = Inr d"
    and "dependency_list d = Some xs"
  shows "\<exists>d'. umbrella_edit d pkg bin url = Inr d'
           \<and> files w' (fs_key env pp) = Some (File (dumps env d'))
           \<and> dependency_list d'
               = Some (if TStr (dep_entry pkg url) \<in> set xs then xs
                       else xs @ [TStr (dep_entry pkg url)])
           \<and> trace w' = trace w @ [Dumped (fs_key env pp) d']"
proof -
  from assms(1) obtain s0 d0 d' where
    "files w (fs_key env pp) = Some (File s0)" "loads env s0 = Inr d0"
    and e0: "umbrella_edit d0 pkg bin url = Inr d'"
    and w': "w' = \<lparr>files = (files w)(fs_key env pp \<mapsto> File (dumps env d')),
               trace = trace w @ [Dumped (fs_key env pp) d']\<rparr>"
    by (rule update_Returned)
  with assms(2,3) have "d0 = d" by simp
  with e0 have e: "umbrella_edit d pkg bin url = Inr d'" by simp
  with assms(4) have "dependency_list d'
       = Some (if TStr (dep_entry pkg url) \<in> set xs then xs
               else xs @ [TStr (dep_entry pkg url)])"
    by (simp add: umbrella_edit_dependency_list)
  moreover from w' have "files w' (fs_key env pp) = Some (File (dumps env d'))"
    by simp
  moreover from w' have "trace w' = trace w @ [Dumped (fs_key env pp) d']" by simp
  ultimately show ?thesis using e by blast
qed

theorem umbrella_update_appends_if_absent_witness:
  "\<exists>d'. files (world_of (update_umbrella_deps_bin demo_env (Path ''hub/pyproject.toml'')
              ''my_tool'' ''my-tool'' ''git+https://example.org/my-tool'' demo_world))
           (fs_key demo_env (Path ''hub/pyproject.toml'')) = Some (File (dumps demo_env d'))
      \<and> dependency_list d' = Some [TStr ''my_tool @ git+https://example.org/my-tool'']"
proof -
  let ?run = "update_umbrella_deps_bin demo_env (Path ''hub/pyproject.toml'')
              ''my_tool'' ''my-tool'' ''git+https://example.org/my-tool'' demo_world"
  have "returned ?run" by code_simp
  then have r: "?run = Returned () (world_of ?run)" by (rule returned_world)
  have f: "files demo_world (fs_key demo_env (Path ''hub/pyproject.toml''))
             = Some (File (demo_dumps (demo_manifest ''hub'')))"
    by code_simp
  have p: "loads demo_env (demo_dumps (demo_manifest ''hub'')) = Inr (demo_manifest ''hub'')"
    by (simp add: demo_env_def demo_loads_dumps)
  have l: "dependency_list (demo_manifest ''hub'') = Some []" by code_simp
  have e: "dep_entry ''my_tool'' ''git+https://example.org/my-tool''
             = ''my_tool @ git+https://example.org/my-tool''"
    by code_simp
  from umbrella_update_appends_if_absent [OF r f p l] show ?thesis
    unfolding e by auto
qed

text \<open>
  C5, as the claim has it, fails: with the entry in the list and the entry point in the
  scripts table already, the update changes nothing in the manifest, and writes it.
\<close>

theorem umbrella_update_writes_unchanged:
  "returned (update_umbrella_deps_bin demo_env (Path ''hub/pyproject.toml'')
      ''my_tool'' ''my-tool'' ''git+https://github.com/brettviren/my-tool'' registered_world)
   \<and> manifest_at demo_env [''work'', ''hub'', ''pyproject.toml''] registered_world
       = Some registered_manifest
   \<and> manifest_at demo_env [''work'', ''hub'', ''pyproject.toml'']
        (world_of (update_umbrella_deps_bin demo_env (Path ''hub/pyproject.toml'')
           ''my_tool'' ''my-tool'' ''git+https://github.com/brettviren/my-tool''
           registered_world))
       = Some registered_manifest
   \<and> files (world_of (update_umbrella_deps_bin demo_env (Path ''hub/pyproject.toml'')
           ''my_tool'' ''my-tool'' ''git+https://github.com/brettviren/my-tool''
           registered_world)) [''work'', ''hub'', ''pyproject.toml'']
       = files registered_world [''work'', ''hub'', ''pyproject.toml'']
   \<and> trace (world_of (update_umbrella_deps_bin demo_env (Path ''hub/pyproject.toml'')
           ''my_tool'' ''my-tool'' ''git+https://github.com/brettviren/my-tool''
           registered_world))
       = trace registered_world
           @ [Dumped [''work'', ''hub'', ''pyproject.toml''] registered_manifest]"
  by code_simp

lemma umbrella_edit_top_frame:
  assumes "umbrella_edit data pkg bin url = Inr data'" and "k \<noteq> ''project''"
  shows "getitem data' k = getitem data k"
proof -
  from assms(1) obtain d1 where a: "add_dependency data (dep_entry pkg url) = Inr d1"
    and s: "set_entry_point d1 pkg bin = Inr data'"
    by (rule umbrella_edit_split)
  from add_dependency_top_frame [OF a assms(2)] set_entry_point_top_frame [OF s assms(2)]
  show ?thesis by simp
qed

lemma umbrella_edit_project_frame:
  assumes "umbrella_edit data pkg bin url = Inr data'"
    and "k \<noteq> ''dependencies''" and "k \<noteq> ''scripts''"
  shows "get2 data' ''project'' k = get2 data ''project'' k"
proof -
  from assms(1) obtain d1 where a: "add_dependency data (dep_entry pkg url) = Inr d1"
    and s: "set_entry_point d1 pkg bin = Inr data'"
    by (rule umbrella_edit_split)
  from add_dependency_project_frame [OF a assms(2)] set_entry_point_project_frame [OF s assms(3)]
  show ?thesis by simp
qed

text \<open>
  C6. A returning umbrella update changes one file, the manifest. In the manifest every
  top-level key other than \<^verbatim>\<open>project\<close> keeps its value, every key of the project
  table other than \<^verbatim>\<open>dependencies\<close> and \<^verbatim>\<open>scripts\<close> keeps its value, and every
  entry of the scripts table other than the one of the command name is as before.
\<close>

theorem umbrella_update_frame:
  assumes "update_umbrella_deps_bin env pp pkg bin url w = Returned () w'"
    and "files w (fs_key env pp) = Some (File s)" and "loads env s = Inr d"
  shows "\<exists>d'. umbrella_edit d pkg bin url = Inr d'
           \<and> files w' (fs_key env pp) = Some (File (dumps env d'))
           \<and> (\<forall>k. k \<noteq> ''project'' \<longrightarrow> getitem d' k = getitem d k)
           \<and> (\<forall>k. k \<noteq> ''dependencies'' \<and> k \<noteq> ''scripts''
                  \<longrightarrow> get2 d' ''project'' k = get2 d ''project'' k)
           \<and> (\<forall>k v. k \<noteq> bin
                  \<longrightarrow> (get3 d' ''project'' ''scripts'' k = Inr v
                         \<longleftrightarrow> get3 d ''project'' ''scripts'' k = Inr v))
           \<and> (\<forall>q. q \<noteq> fs_key env pp \<longrightarrow> files w' q = files w q)"
proof -
  from assms(1) obtain s0 d0 d' where
    "files w (fs_key env pp) = Some (File s0)" "loads env s0 = Inr d0"
    and e0: "umbrella_edit d0 pkg bin url = Inr d'"
    and w': "w' = \<lparr>files = (files w)(fs_key env pp \<mapsto> File (dumps env d')),
               trace = trace w @ [Dumped (fs_key env pp) d']\<rparr>"
    by (rule update_Returned)
  with assms(2,3) have "d0 = d" by simp
  with e0 have e: "umbrella_edit d pkg bin url = Inr d'" by simp
  from w' have "files w' (fs_key env pp) = Some (File (dumps env d'))"
    by simp
  moreover note e
  moreover have "\<forall>k. k \<noteq> ''project'' \<longrightarrow> getitem d' k = getitem d k"
    using umbrella_edit_top_frame [OF e] by blast
  moreover have "\<forall>k. k \<noteq> ''dependencies'' \<and> k \<noteq> ''scripts''
                  \<longrightarrow> get2 d' ''project'' k = get2 d ''project'' k"
    using umbrella_edit_project_frame [OF e] by blast
  moreover have "\<forall>k v. k \<noteq> bin
                  \<longrightarrow> (get3 d' ''project'' ''scripts'' k = Inr v
                         \<longleftrightarrow> get3 d ''project'' ''scripts'' k = Inr v)"
    using umbrella_edit_others [OF e] by blast
  moreover from w' have "\<forall>q. q \<noteq> fs_key env pp \<longrightarrow> files w' q = files w q"
    by simp
  ultimately show ?thesis by blast
qed

theorem umbrella_update_frame_witness:
  "\<exists>d'. files (world_of (update_umbrella_deps_bin demo_env (Path ''hub/pyproject.toml'')
              ''my_tool'' ''my-tool'' ''git+https://example.org/my-tool'' demo_world))
           (fs_key demo_env (Path ''hub/pyproject.toml'')) = Some (File (dumps demo_env d'))
      \<and> getitem d' ''build-system'' = getitem (demo_manifest ''hub'') ''build-system''
      \<and> get2 d' ''project'' ''name'' = Inr (TStr ''hub'')
      \<and> get2 d' ''project'' ''version'' = Inr (TStr ''0.1.0'')"
proof -
  let ?run = "update_umbrella_deps_bin demo_env (Path ''hub/pyproject.toml'')
              ''my_tool'' ''my-tool'' ''git+https://example.org/my-tool'' demo_world"
  have "returned ?run" by code_simp
  then have r: "?run = Returned () (world_of ?run)" by (rule returned_world)
  have f: "files demo_world (fs_key demo_env (Path ''hub/pyproject.toml''))
             = Some (File (demo_dumps (demo_manifest ''hub'')))"
    by code_simp
  have p: "loads demo_env (demo_dumps (demo_manifest ''hub'')) = Inr (demo_manifest ''hub'')"
    by (simp add: demo_env_def demo_loads_dumps)
  have n: "get2 (demo_manifest ''hub'') ''project'' ''name'' = Inr (TStr ''hub'')"
    by code_simp
  have v: "get2 (demo_manifest ''hub'') ''project'' ''version'' = Inr (TStr ''0.1.0'')"
    by code_simp
  from umbrella_update_frame [OF r f p] obtain d' where
    m: "files (world_of ?run) (fs_key demo_env (Path ''hub/pyproject.toml''))
          = Some (File (dumps demo_env d'))"
    and t: "\<forall>k. k \<noteq> ''project'' \<longrightarrow> getitem d' k = getitem (demo_manifest ''hub'') k"
    and q: "\<forall>k. k \<noteq> ''dependencies'' \<and> k \<noteq> ''scripts''
              \<longrightarrow> get2 d' ''project'' k = get2 (demo_manifest ''hub'') ''project'' k"
    by blast
  from t have "getitem d' ''build-system'' = getitem (demo_manifest ''hub'') ''build-system''"
    by simp
  moreover from q n have "get2 d' ''project'' ''name'' = Inr (TStr ''hub'')" by simp
  moreover from q v have "get2 d' ''project'' ''version'' = Inr (TStr ''0.1.0'')" by simp
  ultimately show ?thesis using m by blast
qed

text \<open>
  C7. Whatever a run adds to the trace, an invocation of an external tool that ended
  with a nonzero status is the last event of the run: nothing is tried again and no
  later script is touched. The run raises \<^verbatim>\<open>CalledProcessError\<close> with the status and
  the argument vector of that invocation, and no earlier invocation had failed.
\<close>

theorem nonzero_exit_aborts:
  assumes "trace (world_of (migrate env scripts register pat w)) = trace w @ evs"
    and "Exec argv dir rc \<in> set evs" and "rc \<noteq> 0"
  shows "migrate env scripts register pat w
           = Raised (CalledProcessError rc argv) (world_of (migrate env scripts register pat w))
       \<and> (\<exists>pre. evs = pre @ [Exec argv dir rc] \<and> clean pre)"
proof -
  from fails_last_migrate [of env scripts register pat] obtain evs' where
    t: "trace (world_of (migrate env scripts register pat w)) = trace w @ evs'"
    and c: "clean evs'
             \<or> (\<exists>pre argv dir rc. evs' = pre @ [Exec argv dir rc] \<and> clean pre \<and> rc \<noteq> 0
                  \<and> migrate env scripts register pat w
                      = Raised (CalledProcessError rc argv)
                          (world_of (migrate env scripts register pat w)))"
    unfolding fails_last_def by blast
  from t assms(1) have evs: "evs' = evs" by simp
  have f: "failed_exec (Exec argv dir rc)" using assms(3) by (simp add: failed_exec_def)
  with assms(2) have "\<not> clean evs" by (auto simp: clean_def list_all_iff)
  with c evs obtain pre argv' dir' rc' where e: "evs = pre @ [Exec argv' dir' rc']"
    and p: "clean pre"
    and r: "migrate env scripts register pat w
              = Raised (CalledProcessError rc' argv')
                  (world_of (migrate env scripts register pat w))"
    by blast
  from p f have "Exec argv dir rc \<notin> set pre" by (auto simp: clean_def list_all_iff)
  with assms(2) e have "Exec argv dir rc = Exec argv' dir' rc'" by simp
  with e p r show ?thesis by simp
qed

theorem nonzero_exit_aborts_witness:
  "raised (migrate demo_env [''my-tool.py'', ''other.py''] (Some ''hub'')
             default_giturl_pattern bare_world)
     = Some (CalledProcessError 1
         [''uv'', ''init'', ''--lib'', ''--build-backend'', ''setuptools'', ''/work/my-tool''])
   \<and> trace (world_of (migrate demo_env [''my-tool.py'', ''other.py''] (Some ''hub'')
             default_giturl_pattern bare_world))
     = [Echo ''\<newline>Processing: my-tool'',
        Exec [''uv'', ''init'', ''--lib'', ''--build-backend'', ''setuptools'', ''/work/my-tool'']
          [''work''] 1]"
proof -
  let ?run = "migrate demo_env [''my-tool.py'', ''other.py''] (Some ''hub'')
             default_giturl_pattern bare_world"
  let ?argv = "[''uv'', ''init'', ''--lib'', ''--build-backend'', ''setuptools'',
                ''/work/my-tool'']"
  have t: "trace (world_of ?run)
             = trace bare_world @ [Echo ''\<newline>Processing: my-tool'', Exec ?argv [''work''] 1]"
    by code_simp
  have m: "Exec ?argv [''work''] 1
             \<in> set [Echo ''\<newline>Processing: my-tool'', Exec ?argv [''work''] 1]"
    by simp
  have n: "(1::int) \<noteq> 0" by simp
  have b: "trace bare_world = []" by (simp add: bare_world_def)
  from nonzero_exit_aborts [OF t m n] have "raised ?run = Some (CalledProcessError 1 ?argv)"
    by (cases ?run) auto
  with t b show ?thesis by simp
qed

text \<open>
  C8, as the code has it. The umbrella manifest is read as a document with an empty
  dependency list, the external tools leave it as they find it, the run over two
  scripts returns, and every manifest that the run writes is read back as the document
  that was written. When the composed strings of the two scripts differ, their command
  names differ, the dependency list ends as exactly these two strings, in the order
  of the scripts, and the scripts table has the entry of each command name.
\<close>

theorem two_scripts_registered:
  assumes "tool_keeps env (umbrella_key env r)" and "r \<noteq> []"
    and "manifest_at env (umbrella_key env r) w = Some d0" and "dependency_list d0 = Some []"
    and "migrate env [s1, s2] (Some r) pat w = Returned () w'"
    and "reads_back env (trace w')"
    and "format_repo env pat (get_bin_name (Path s1)) = Inr u1"
    and "format_repo env pat (get_bin_name (Path s2)) = Inr u2"
    and "dep_entry (get_pkg_name (Path s1)) u1 \<noteq> dep_entry (get_pkg_name (Path s2)) u2"
  shows "\<exists>d. files w' (umbrella_key env r) = Some (File (dumps env d))
           \<and> manifest_at env (umbrella_key env r) w' = Some d
           \<and> dependency_list d
               = Some [TStr (dep_entry (get_pkg_name (Path s1)) u1),
                       TStr (dep_entry (get_pkg_name (Path s2)) u2)]
           \<and> get_bin_name (Path s1) \<noteq> get_bin_name (Path s2)
           \<and> get3 d ''project'' ''scripts'' (get_bin_name (Path s1))
               = Inr (TStr (entry_point (get_pkg_name (Path s1))))
           \<and> get3 d ''project'' ''scripts'' (get_bin_name (Path s2))
               = Inr (TStr (entry_point (get_pkg_name (Path s2))))"
proof -
  let ?K = "umbrella_key env r"
  let ?b1 = "get_bin_name (Path s1)" and ?p1 = "get_pkg_name (Path s1)"
  let ?b2 = "get_bin_name (Path s2)" and ?p2 = "get_pkg_name (Path s2)"
  let ?e1 = "dep_entry ?p1 u1" and ?e2 = "dep_entry ?p2 u2"
  have bins: "?b1 \<noteq> ?b2"
  proof
    assume eq: "?b1 = ?b2"
    then have "path_stem (Path s1) = path_stem (Path s2)" by (simp add: get_bin_name_def)
    then have "?p1 = ?p2" by (simp add: get_pkg_name_def)
    moreover from eq assms(7,8) have "u1 = u2" by simp
    ultimately show False using assms(9) by simp
  qed
  from assms(5) obtain w1 where
    run1: "migrate_script env (Some r) pat s1 w = Returned () w1"
    and run2: "migrate_script env (Some r) pat s2 w1 = Returned () w'"
    by (rule migrate_pair_Returned)
  from fails_last_grows [OF fails_last_migrate_script] run2 assms(6)
  have rb1: "reads_back env (trace w1)" by (rule grows_Returned)
  let ?P0 = "\<lambda>d. dependency_list d = Some []"
  have c0: "?P0 d'" if "?P0 d" and "package_edit d ?p1 ?b1 = Inr d'" for d d'
    using package_edit_dependency_list [OF that(2)] that(1) by simp
  from assms(3,4) have h0: "holds ?K (loads_as env ?P0) w"
    by (auto simp: holds_def loads_as_def manifest_at_def
        split: option.splits node.splits sum.splits)
  from assms(1,2) run1 rb1 h0 c0 obtain d url d1 where "?P0 d"
    and "format_repo env pat ?b1 = Inr url"
    and e1: "umbrella_edit d ?p1 ?b1 url = Inr d1"
    and f1: "files w1 ?K = Some (File (dumps env d1))"
    and r1: "loads env (dumps env d1) = Inr d1"
    by (rule pass_on_manifest [where P = ?P0])
  with assms(7) have url: "url = u1" and d: "dependency_list d = Some []" by simp_all
  from umbrella_edit_dependency_list [OF e1 d] url
  have l1: "dependency_list d1 = Some [TStr ?e1]" by simp
  from umbrella_edit_sets [OF e1]
  have g1: "get3 d1 ''project'' ''scripts'' ?b1 = Inr (TStr (entry_point ?p1))" .
  let ?P1 = "\<lambda>d. dependency_list d = Some [TStr ?e1]
                \<and> get3 d ''project'' ''scripts'' ?b1 = Inr (TStr (entry_point ?p1))"
  have c1: "?P1 d'" if "?P1 d" and "package_edit d ?p2 ?b2 = Inr d'" for d d'
    using package_edit_dependency_list [OF that(2)] package_edit_others [OF that(2) bins]
      that(1) by simp
  from l1 g1 f1 r1 have h1: "holds ?K (loads_as env ?P1) w1"
    by (simp add: holds_def loads_as_def)
  from assms(1,2) run2 assms(6) h1 c1 obtain d' url' d2 where P1': "?P1 d'"
    and "format_repo env pat ?b2 = Inr url'"
    and e2: "umbrella_edit d' ?p2 ?b2 url' = Inr d2"
    and f2: "files w' ?K = Some (File (dumps env d2))"
    and r2: "loads env (dumps env d2) = Inr d2"
    by (rule pass_on_manifest [where P = ?P1])
  with assms(8) have url': "url' = u2" by simp
  from P1' have l': "dependency_list d' = Some [TStr ?e1]" by simp
  from umbrella_edit_dependency_list [OF e2 l'] url' assms(9)
  have "dependency_list d2 = Some [TStr ?e1, TStr ?e2]" by simp
  moreover from umbrella_edit_sets [OF e2]
  have "get3 d2 ''project'' ''scripts'' ?b2 = Inr (TStr (entry_point ?p2))" .
  moreover from umbrella_edit_others [OF e2 bins] P1'
  have "get3 d2 ''project'' ''scripts'' ?b1 = Inr (TStr (entry_point ?p1))" by simp
  moreover from f2 r2 have "manifest_at env ?K w' = Some d2" by (rule manifest_at_dumped)
  ultimately show ?thesis using f2 bins by blast
qed

theorem two_scripts_registered_witness:
  "dependencies_at demo_env (umbrella_key demo_env ''hub'')
      (world_of (migrate demo_env [''my-tool.py'', ''other.py''] (Some ''hub'')
         default_giturl_pattern demo_world))
     = Some [TStr ''my_tool @ git+https://github.com/brettviren/my-tool'',
             TStr ''other @ git+https://github.com/brettviren/other'']"
proof -
  let ?run = "migrate demo_env [''my-tool.py'', ''other.py''] (Some ''hub'')
         default_giturl_pattern demo_world"
  have "returned ?run" by code_simp
  then have r: "?run = Returned () (world_of ?run)" by (rule returned_world)
  have tk: "tool_keeps demo_env (umbrella_key demo_env ''hub'')"
    by (simp add: tool_keeps_def demo_env_def)
  have n: "''hub'' \<noteq> []" by simp
  have rb: "reads_back demo_env (trace (world_of ?run))"
    by (rule reads_back_demo) (simp_all add: demo_env_def)
  have m: "manifest_at demo_env (umbrella_key demo_env ''hub'') demo_world
             = Some (demo_manifest ''hub'')"
    by code_simp
  have l: "dependency_list (demo_manifest ''hub'') = Some []" by code_simp
  have f1: "format_repo demo_env default_giturl_pattern (get_bin_name (Path ''my-tool.py''))
              = Inr ''git+https://github.com/brettviren/my-tool''"
    by code_simp
  have f2: "format_repo demo_env default_giturl_pattern (get_bin_name (Path ''other.py''))
              = Inr ''git+https://github.com/brettviren/other''"
    by code_simp
  have e1: "dep_entry (get_pkg_name (Path ''my-tool.py''))
              ''git+https://github.com/brettviren/my-tool''
            = ''my_tool @ git+https://github.com/brettviren/my-tool''"
    by code_simp
  have e2: "dep_entry (get_pkg_name (Path ''other.py''))
              ''git+https://github.com/brettviren/other''
            = ''other @ git+https://github.com/brettviren/other''"
    by code_simp
  have ne: "dep_entry (get_pkg_name (Path ''my-tool.py''))
              ''git+https://github.com/brettviren/my-tool''
            \<noteq> dep_entry (get_pkg_name (Path ''other.py''))
              ''git+https://github.com/brettviren/other''"
    unfolding e1 e2 by simp
  from two_scripts_registered [OF tk n m l r rb f1 f2 ne] show ?thesis
    unfolding e1 e2 by (auto simp: dependencies_at_def)
qed

text \<open>
  C8, as the claim has it, fails: \<^verbatim>\<open>my-tool.py\<close> and \<^verbatim>\<open>old/my-tool.py\<close> are two
  scripts with one command name; they compose the same string, and the umbrella ends
  with one dependency entry and one scripts key for the two of them.
\<close>

theorem two_scripts_one_entry:
  "returned (migrate demo_env [''my-tool.py'', ''old/my-tool.py''] (Some ''hub'')
      default_giturl_pattern same_stem_world)
   \<and> dependencies_at demo_env [''work'', ''hub'', ''pyproject.toml'']
        (world_of (migrate demo_env [''my-tool.py'', ''old/my-tool.py''] (Some ''hub'')
           default_giturl_pattern same_stem_world))
       = Some [TStr ''my_tool @ git+https://github.com/brettviren/my-tool'']
   \<and> script_names_at demo_env [''work'', ''hub'', ''pyproject.toml'']
        (world_of (migrate demo_env [''my-tool.py'', ''old/my-tool.py''] (Some ''hub'')
           default_giturl_pattern same_stem_world))
       = Some [''my-tool'']"
  by code_simp

lemma step2_Returned:
  assumes "step2_main_py env script_path pkg_dir pkg_name w = Returned u w'"
  obtains wm where
    "mkdir_parents env (joinpath (joinpath pkg_dir ''src'') pkg_name) w = Returned () wm"
    and "unless_exists env (main_py_path pkg_dir pkg_name)
           (bindW (read_text env script_path) (\<lambda>content.
              write_text env (main_py_path pkg_dir pkg_name) (main_py_content content))) wm
         = Returned u w'"
  using assms by (auto simp: step2_main_py_def main_py_path_def Let_def bindW_Returned_iff)

lemma main_py_key:
  "fs_key env (main_py_path pkg_dir pkg_name)
     = fs_key env (joinpath (joinpath pkg_dir ''src'') pkg_name) @ [''main.py'']"
  by (simp add: main_py_path_def)

text \<open>
  C9. When step 2 finds no \<^verbatim>\<open>src/<pkg_name>/main.py\<close> and returns, the file holds the
  text of the script as it is if that text contains \<^verbatim>\<open>def main()\<close>, and otherwise the
  header \<^verbatim>\<open>def main():\<close>, the lines of the script, each behind four spaces, and the
  \<^verbatim>\<open>__main__\<close> guard. A \<^verbatim>\<open>main.py\<close> that is there is left as it is by step 2, and by a
  whole run over any list of scripts when no external tool changes it.
\<close>

theorem main_py_copy:
  assumes "step2_main_py env script_path pkg_dir pkg_name w = Returned () w'"
  shows "(files w (fs_key env (main_py_path pkg_dir pkg_name)) = None \<longrightarrow>
            (\<exists>s. files w (fs_key env script_path) = Some (File s)
               \<and> files w' (fs_key env (main_py_path pkg_dir pkg_name))
                   = Some (File
                       (if \<not> contains ''def main()'' s
                        then ''def main():\<newline>''
                               @ str_join ''\<newline>''
                                   (map (\<lambda>line. ''    '' @ line) (splitlines s))
                               @ ''\<newline>\<newline>if __name__ == '__main__':\<newline>    main()''
                        else s))))
       \<and> (\<forall>n. files w (fs_key env (main_py_path pkg_dir pkg_name)) = Some n
              \<longrightarrow> files w' (fs_key env (main_py_path pkg_dir pkg_name)) = Some n)
       \<and> (\<forall>scripts register pat k n v.
              tool_keeps env k \<and> last k = ''main.py'' \<and> files v k = Some n
              \<longrightarrow> files (world_of (migrate env scripts register pat v)) k = Some n)"
proof (intro conjI impI allI)
  let ?K = "fs_key env (main_py_path pkg_dir pkg_name)"
  let ?src = "joinpath (joinpath pkg_dir ''src'') pkg_name"
  from assms obtain wm where
    mk: "mkdir_parents env ?src w = Returned () wm"
    and un: "unless_exists env (main_py_path pkg_dir pkg_name)
           (bindW (read_text env script_path) (\<lambda>content.
              write_text env (main_py_path pkg_dir pkg_name) (main_py_content content))) wm
         = Returned () w'"
    by (rule step2_Returned)
  from mkdir_parents_Returned(1) [OF mk]
  have md: "mk_down (files w) [] (fs_key env ?src) = Inr (files wm)" .
  have K: "?K \<noteq> []" by (simp add: main_py_key)
  {
    assume none: "files w ?K = None"
    from md have "files wm ?K = files w ?K"
      by (rule mk_down_beyond) (simp add: main_py_key)
    with none K have "\<not> path_exists env (main_py_path pkg_dir pkg_name) wm"
      by (simp add: path_exists_files)
    with unless_exists_Returned [OF un] obtain t w1 where
      rd: "read_text env script_path wm = Returned t w1"
      and wr: "write_text env (main_py_path pkg_dir pkg_name) (main_py_content t) w1
                 = Returned () w'"
      by (auto simp: bindW_Returned_iff)
    from read_text_Returned [OF rd] have w1: "w1 = wm"
      and c: "files wm (fs_key env script_path) = Some (File t)"
      by simp_all
    from md c have "files w (fs_key env script_path) = Some (File t)"
      by (rule mk_down_only_dirs)
    moreover from wr w1
    have "files w' ?K = Some (File (main_py_content t))"
      by (auto simp: write_text_def dest: store_Returned)
    ultimately
    show "\<exists>s. files w (fs_key env script_path) = Some (File s)
               \<and> files w' ?K
                   = Some (File
                       (if \<not> contains ''def main()'' s
                        then ''def main():\<newline>''
                               @ str_join ''\<newline>''
                                   (map (\<lambda>line. ''    '' @ line) (splitlines s))
                               @ ''\<newline>\<newline>if __name__ == '__main__':\<newline>    main()''
                        else s))"
      unfolding main_py_content_def wrap_main_def Let_def by blast
  }
  {
    fix n assume "files w ?K = Some n"
    then have "holds ?K (\<lambda>x. x = n) w" by (simp add: holds_def)
    with keeps_step2 have "holds ?K (\<lambda>x. x = n) w'" using assms by (rule keeps_Returned)
    then show "files w' ?K = Some n" by (simp add: holds_def)
  }
  {
    fix scripts register pat k n and v :: world
    assume a: "tool_keeps env k \<and> last k = ''main.py'' \<and> files v k = Some n"
    then have "holds k (\<lambda>x. x = n) v" by (simp add: holds_def)
    moreover from a have "keeps (holds k (\<lambda>x. x = n)) (migrate env scripts register pat)"
      by (intro keeps_migrate) simp_all
    ultimately have "holds k (\<lambda>x. x = n) (world_of (migrate env scripts register pat v))"
      by (rule keepsD [rotated])
    then show "files (world_of (migrate env scripts register pat v)) k = Some n"
      by (simp add: holds_def)
  }
qed

theorem main_py_copy_witness:
  "files (world_of (step2_main_py demo_env (Path ''my-tool.py'')
             (package_dir demo_env ''my-tool.py'') ''my_tool'' demo_world))
       [''work'', ''my-tool'', ''src'', ''my_tool'', ''main.py'']
     = Some (File
         ''def main():\<newline>    print(1)\<newline>    print(2)\<newline>\<newline>if __name__ == '__main__':\<newline>    main()'')
   \<and> files (world_of (step2_main_py demo_env (Path ''other.py'')
             (package_dir demo_env ''other.py'') ''other'' demo_world))
       [''work'', ''other'', ''src'', ''other'', ''main.py'']
     = Some (File ''def main():\<newline>    pass\<newline>'')
   \<and> files (world_of (migrate demo_env [''my-tool.py'', ''done.py''] (Some ''hub'')
             default_giturl_pattern demo_world))
       [''work'', ''done'', ''src'', ''done'', ''main.py'']
     = Some (File ''def main():\<newline>    print(3)\<newline>'')"
proof (intro conjI)
  let ?run1 = "step2_main_py demo_env (Path ''my-tool.py'')
             (package_dir demo_env ''my-tool.py'') ''my_tool'' demo_world"
  have "returned ?run1" by code_simp
  then have r1: "?run1 = Returned () (world_of ?run1)" by (rule returned_world)
  have k1: "fs_key demo_env (main_py_path (package_dir demo_env ''my-tool.py'') ''my_tool'')
              = [''work'', ''my-tool'', ''src'', ''my_tool'', ''main.py'']"
    by code_simp
  have n1: "files demo_world [''work'', ''my-tool'', ''src'', ''my_tool'', ''main.py''] = None"
    by code_simp
  have s1: "files demo_world (fs_key demo_env (Path ''my-tool.py''))
              = Some (File ''print(1)\<newline>print(2)\<newline>'')"
    by code_simp
  have e1: "(if \<not> contains ''def main()'' (''print(1)\<newline>print(2)\<newline>'')
             then ''def main():\<newline>''
                    @ str_join ''\<newline>''
                        (map (\<lambda>line. ''    '' @ line)
                           (splitlines (''print(1)\<newline>print(2)\<newline>'')))
                    @ ''\<newline>\<newline>if __name__ == '__main__':\<newline>    main()''
             else ''print(1)\<newline>print(2)\<newline>'')
      = ''def main():\<newline>    print(1)\<newline>    print(2)\<newline>\<newline>if __name__ == '__main__':\<newline>    main()''"
    by code_simp
  from main_py_copy [OF r1] n1 s1
  show "files (world_of ?run1) [''work'', ''my-tool'', ''src'', ''my_tool'', ''main.py'']
     = Some (File
         ''def main():\<newline>    print(1)\<newline>    print(2)\<newline>\<newline>if __name__ == '__main__':\<newline>    main()'')"
    unfolding k1 using e1 by auto
next
  let ?run2 = "step2_main_py demo_env (Path ''other.py'')
             (package_dir demo_env ''other.py'') ''other'' demo_world"
  have "returned ?run2" by code_simp
  then have r2: "?run2 = Returned () (world_of ?run2)" by (rule returned_world)
  have k2: "fs_key demo_env (main_py_path (package_dir demo_env ''other.py'') ''other'')
              = [''work'', ''other'', ''src'', ''other'', ''main.py'']"
    by code_simp
  have n2: "files demo_world [''work'', ''other'', ''src'', ''other'', ''main.py''] = None"
    by code_simp
  have s2: "files demo_world (fs_key demo_env (Path ''other.py''))
              = Some (File ''def main():\<newline>    pass\<newline>'')"
    by code_simp
  have e2: "(if \<not> contains ''def main()'' (''def main():\<newline>    pass\<newline>'')
             then ''def main():\<newline>''
                    @ str_join ''\<newline>''
                        (map (\<lambda>line. ''    '' @ line)
                           (splitlines (''def main():\<newline>    pass\<newline>'')))
                    @ ''\<newline>\<newline>if __name__ == '__main__':\<newline>    main()''
             else ''def main():\<newline>    pass\<newline>'')
      = ''def main():\<newline>    pass\<newline>''"
    by code_simp
  from main_py_copy [OF r2] n2 s2
  show "files (world_of ?run2) [''work'', ''other'', ''src'', ''other'', ''main.py'']
     = Some (File ''def main():\<newline>    pass\<newline>'')"
    unfolding k2 using e2 by auto
next
  let ?run1 = "step2_main_py demo_env (Path ''my-tool.py'')
             (package_dir demo_env ''my-tool.py'') ''my_tool'' demo_world"
  have "returned ?run1" by code_simp
  then have r1: "?run1 = Returned () (world_of ?run1)" by (rule returned_world)
  have t: "tool_keeps demo_env [''work'', ''done'', ''src'', ''done'', ''main.py'']"
    by (simp add: tool_keeps_def demo_env_def)
  have f: "files demo_world [''work'', ''done'', ''src'', ''done'', ''main.py'']
             = Some (File ''def main():\<newline>    print(3)\<newline>'')"
    by code_simp
  from main_py_copy [OF r1] t f
  show "files (world_of (migrate demo_env [''my-tool.py'', ''done.py''] (Some ''hub'')
             default_giturl_pattern demo_world))
       [''work'', ''done'', ''src'', ''done'', ''main.py'']
     = Some (File ''def main():\<newline>    print(3)\<newline>'')"
    by simp
qed

lemma migrate_script_parts:
  "migrate_script env register pat script
     = bindW (steps_before_readme env script) (\<lambda>_.
       bindW (unlink_missing_ok env (joinpath (package_dir env script) ''README.md'')) (\<lambda>_.
       bindW (write_readme_org env script) (\<lambda>_.
       steps_after_readme env register pat script)))"
  by (simp add: migrate_script_def scaffold_def steps_before_readme_def
      steps_after_readme_def step3_readme_def write_readme_org_def package_dir_def Let_def
      bindW_assoc)

lemma unlink_file:
  assumes "files w (fs_key env p) = Some (File s)" and "fs_key env p \<noteq> []"
  shows "unlink_missing_ok env p w = Returned () (w\<lparr>files := (files w)(fs_key env p := None)\<rparr>)"
  using assms by (simp add: unlink_missing_ok_def node_at_def)

lemma keeps_write_readme_org: "keeps (holds k Q) (write_readme_org env script)"
proof -
  let ?org = "joinpath (package_dir env script) ''README.org''"
  let ?text = "readme_text (get_bin_name (Path script)) (Path script)"
  have "keeps (holds k Q)
          (unless_exists env ?org (bindW (ret ()) (\<lambda>x. store env ?org ?text Wrote)))"
    by (rule keeps_guarded_store) simp
  moreover have "bindW (ret ()) (\<lambda>x. store env ?org ?text Wrote) = write_text env ?org ?text"
    by (rule ext) (simp add: bindW_def ret_def write_text_def)
  ultimately show ?thesis by (simp add: write_readme_org_def)
qed

lemma keeps_lacks_write_readme_org:
  assumes "last k \<noteq> ''README.org''"
  shows "keeps (lacks k) (write_readme_org env script)"
proof -
  from assms have "fs_key env (joinpath (package_dir env script) ''README.org'') \<noteq> k"
    by auto
  then show ?thesis
    unfolding write_readme_org_def write_text_def
    by (intro keeps_unless_exists keeps_lacks_store)
qed

lemma write_readme_org_Returned:
  assumes "write_readme_org env script w = Returned u w'"
  shows "files w (fs_key env (package_dir env script) @ [''README.org'']) = Some n \<Longrightarrow> w' = w"
    and "files w (fs_key env (package_dir env script) @ [''README.org'']) = None
           \<Longrightarrow> w' = \<lparr>files = (files w)(fs_key env (package_dir env script) @ [''README.org'']
                           \<mapsto> File (readme_text (get_bin_name (Path script)) (Path script))),
                       trace = trace w
                         @ [Wrote (fs_key env (package_dir env script) @ [''README.org''])]\<rparr>"
proof -
  let ?org = "joinpath (package_dir env script) ''README.org''"
  from assms have un: "unless_exists env ?org
      (write_text env ?org (readme_text (get_bin_name (Path script)) (Path script))) w
        = Returned u w'"
    by (simp add: write_readme_org_def)
  {
    assume "files w (fs_key env (package_dir env script) @ [''README.org'']) = Some n"
    then have "path_exists env ?org w" by (simp add: path_exists_def node_at_def)
    with unless_exists_Returned [OF un] show "w' = w" by simp
  }
  {
    assume "files w (fs_key env (package_dir env script) @ [''README.org'']) = None"
    then have "\<not> path_exists env ?org w" by (simp add: path_exists_def node_at_def)
    with unless_exists_Returned [OF un]
    have "write_text env ?org (readme_text (get_bin_name (Path script)) (Path script)) w
            = Returned u w'" by simp
    then show "w' = \<lparr>files = (files w)(fs_key env (package_dir env script) @ [''README.org'']
                           \<mapsto> File (readme_text (get_bin_name (Path script)) (Path script))),
                       trace = trace w
                         @ [Wrote (fs_key env (package_dir env script) @ [''README.org''])]\<rparr>"
      by (auto simp: write_text_def dest: store_Returned)
  }
qed

lemma keeps_lacks_steps_after:
  assumes "tool_leaves env [''git'', ''init''] (fs_key env (package_dir env script)) k"
    and "\<And>r. register = Some r
           \<Longrightarrow> tool_leaves env [''uv'', ''init'', ''--lib'', path_str (Path r)] (cwd env) k"
    and "last k \<noteq> ''pyproject.toml''"
  shows "keeps (lacks k) (steps_after_readme env register pat script)"
proof -
  from assms(3) have "k \<noteq> p @ [''pyproject.toml'']" for p by auto
  then show ?thesis
    unfolding steps_after_readme_def Let_def
    using assms(1) [unfolded package_dir_def]
    by (intro keeps_bindW keeps_lacks_step4 keeps_lacks_step5 keeps_lacks_step6 assms(2,3))
qed

lemma keeps_steps_after:
  assumes "tool_keeps env k" and "last k \<noteq> ''pyproject.toml''"
  shows "keeps (holds k Q) (steps_after_readme env register pat script)"
proof -
  from assms(2) have "k \<noteq> p @ [''pyproject.toml'']" for p by auto
  then show ?thesis
    unfolding steps_after_readme_def Let_def
    by (intro keeps_bindW keeps_step4_other keeps_step5 keeps_step6_other assms)
qed

text \<open>
  C10. A pass of the loop that gets as far as step 3 and finds a file \<^verbatim>\<open>README.md\<close> in
  the package directory, whatever else the package holds, removes that file. At that
  point nothing else has changed and nothing has been added to the trace; the rest of
  the pass, which begins with the check for \<^verbatim>\<open>README.org\<close>, runs from there. A
  \<^verbatim>\<open>README.org\<close> that is there is left as it is, and one that is not there is
  written, with the generated text, after the removal. At the end of the pass,
  returning or not, \<^verbatim>\<open>README.md\<close> is still gone when the two invocations that can
  follow (\<^verbatim>\<open>git init\<close> in the package directory and \<^verbatim>\<open>uv init\<close> for the umbrella
  package) do not make one, and the \<^verbatim>\<open>README.org\<close> that was there is as it was
  when no tool changes it.
\<close>

theorem readme_md_removed:
  assumes "steps_before_readme env script w = Returned () w2"
    and "files w2 (fs_key env (package_dir env script) @ [''README.md'']) = Some (File s)"
  shows "\<exists>wm.
           unlink_missing_ok env (joinpath (package_dir env script) ''README.md'') w2
             = Returned () wm
           \<and> files wm = (files w2)(fs_key env (package_dir env script) @ [''README.md''] := None)
           \<and> trace wm = trace w2
           \<and> migrate_script env register pat script w
               = bindW (write_readme_org env script)
                   (\<lambda>_. steps_after_readme env register pat script) wm
           \<and> (\<forall>n. files w2 (fs_key env (package_dir env script) @ [''README.org'']) = Some n
                  \<longrightarrow> write_readme_org env script wm = Returned () wm)
           \<and> (\<forall>w3. files w2 (fs_key env (package_dir env script) @ [''README.org'']) = None
                     \<and> write_readme_org env script wm = Returned () w3
                  \<longrightarrow> files w3
                        = (files wm)(fs_key env (package_dir env script) @ [''README.org'']
                            \<mapsto> File (readme_text (get_bin_name (Path script)) (Path script))))
           \<and> (tool_leaves env [''git'', ''init''] (fs_key env (package_dir env script))
                  (fs_key env (package_dir env script) @ [''README.md''])
                \<and> (\<forall>r. register = Some r
                       \<longrightarrow> tool_leaves env [''uv'', ''init'', ''--lib'', path_str (Path r)]
                             (cwd env) (fs_key env (package_dir env script) @ [''README.md'']))
                \<longrightarrow> files (world_of (migrate_script env register pat script w))
                      (fs_key env (package_dir env script) @ [''README.md'']) = None)
           \<and> (\<forall>n. files w2 (fs_key env (package_dir env script) @ [''README.org'']) = Some n
                    \<and> tool_keeps env (fs_key env (package_dir env script) @ [''README.org''])
                  \<longrightarrow> files (world_of (migrate_script env register pat script w))
                        (fs_key env (package_dir env script) @ [''README.org'']) = Some n)"
proof -
  let ?md = "fs_key env (package_dir env script) @ [''README.md'']"
  let ?org = "fs_key env (package_dir env script) @ [''README.org'']"
  let ?rest = "bindW (write_readme_org env script)
                 (\<lambda>_. steps_after_readme env register pat script)"
  define wm where "wm = w2\<lparr>files := (files w2)(?md := None)\<rparr>"
  from assms(2)
  have ul: "unlink_missing_ok env (joinpath (package_dir env script) ''README.md'') w2
              = Returned () wm"
    unfolding wm_def using unlink_file [of w2 env "joinpath (package_dir env script) ''README.md''" s]
    by simp
  have fm: "files wm = (files w2)(?md := None)" and tm: "trace wm = trace w2"
    by (simp_all add: wm_def)
  from assms(1) ul
  have run: "migrate_script env register pat script w = ?rest wm"
    by (simp add: migrate_script_parts bindW_def)
  have there: "write_readme_org env script wm = Returned () wm"
    if "files w2 ?org = Some n" for n
  proof -
    from that fm have "files wm ?org = Some n" by simp
    then have "path_exists env (joinpath (package_dir env script) ''README.org'') wm"
      by (simp add: path_exists_def node_at_def)
    then show ?thesis by (simp add: write_readme_org_def unless_exists_def)
  qed
  have absent: "files w3 = (files wm)(?org
                   \<mapsto> File (readme_text (get_bin_name (Path script)) (Path script)))"
    if "files w2 ?org = None \<and> write_readme_org env script wm = Returned () w3" for w3
  proof -
    from that fm have "files wm ?org = None" by simp
    with write_readme_org_Returned(2) [of env script wm "()" w3] that
    show ?thesis by simp
  qed
  have gone: "files (world_of (migrate_script env register pat script w)) ?md = None"
    if "tool_leaves env [''git'', ''init''] (fs_key env (package_dir env script)) ?md
        \<and> (\<forall>r. register = Some r
               \<longrightarrow> tool_leaves env [''uv'', ''init'', ''--lib'', path_str (Path r)]
                     (cwd env) ?md)"
  proof -
    have "keeps (lacks ?md) ?rest"
      using that
      by (intro keeps_bindW keeps_lacks_write_readme_org keeps_lacks_steps_after) simp_all
    moreover from fm have "lacks ?md wm" by (simp add: lacks_def)
    ultimately have "lacks ?md (world_of (?rest wm))" by (rule keepsD)
    with run show ?thesis by (simp add: lacks_def)
  qed
  have kept: "files (world_of (migrate_script env register pat script w)) ?org = Some n"
    if "files w2 ?org = Some n \<and> tool_keeps env ?org" for n
  proof -
    have "keeps (holds ?org (\<lambda>x. x = n)) ?rest"
      using that by (intro keeps_bindW keeps_write_readme_org keeps_steps_after) simp_all
    moreover from that fm have "holds ?org (\<lambda>x. x = n) wm" by (simp add: holds_def)
    ultimately have "holds ?org (\<lambda>x. x = n) (world_of (?rest wm))" by (rule keepsD)
    with run show ?thesis by (simp add: holds_def)
  qed
  from ul fm tm run there absent gone kept show ?thesis by blast
qed

text \<open>
  A first migration, where \<^verbatim>\<open>uv init\<close> has made the \<^verbatim>\<open>README.md\<close> in step 1, and a
  pass over a package that was migrated before and holds both files.
\<close>

theorem readme_md_removed_witness:
  "files (world_of (steps_before_readme uv_env ''my-tool.py'' bare_world))
       [''work'', ''my-tool'', ''README.md''] = Some (File [])
   \<and> files (world_of (migrate_script uv_env (Some ''hub'') default_giturl_pattern
              ''my-tool.py'' bare_world)) [''work'', ''my-tool'', ''README.md''] = None
   \<and> files (world_of (migrate_script uv_env (Some ''hub'') default_giturl_pattern
              ''my-tool.py'' bare_world)) [''work'', ''my-tool'', ''README.org'']
       = Some (File ''* my-tool\<newline>\<newline>Migrated from `my-tool.py`'')
   \<and> files demo_world [''work'', ''done'', ''README.md''] = Some (File ''# done\<newline>'')
   \<and> files (world_of (migrate_script demo_env (Some ''hub'') default_giturl_pattern
              ''done.py'' demo_world)) [''work'', ''done'', ''README.md''] = None
   \<and> files (world_of (migrate_script demo_env (Some ''hub'') default_giturl_pattern
              ''done.py'' demo_world)) [''work'', ''done'', ''README.org'']
       = Some (File ''* done, by hand\<newline>'')"
proof -
  let ?pat = default_giturl_pattern
  let ?b1 = "steps_before_readme uv_env ''my-tool.py'' bare_world"
  let ?b2 = "steps_before_readme demo_env ''done.py'' demo_world"
  have "returned ?b1" by code_simp
  then have r1: "?b1 = Returned () (world_of ?b1)" by (rule returned_world)
  have "returned ?b2" by code_simp
  then have r2: "?b2 = Returned () (world_of ?b2)" by (rule returned_world)
  have d1: "fs_key uv_env (package_dir uv_env ''my-tool.py'') = [''work'', ''my-tool'']"
    by code_simp
  have d2: "fs_key demo_env (package_dir demo_env ''done.py'') = [''work'', ''done'']"
    by code_simp
  have m1: "files (world_of ?b1) ([''work'', ''my-tool''] @ [''README.md'']) = Some (File [])"
    by code_simp
  have m2: "files (world_of ?b2) ([''work'', ''done''] @ [''README.md''])
              = Some (File ''# done\<newline>'')"
    by code_simp
  have o2: "files (world_of ?b2) ([''work'', ''done''] @ [''README.org''])
              = Some (File ''* done, by hand\<newline>'')"
    by code_simp
  have h: "path_str (Path ''hub'') = ''hub''" "parts (Path ''hub'') = [''hub'']"
    "is_absolute (Path ''hub'') = False"
    by code_simp+
  have g1: "tool_leaves uv_env [''git'', ''init''] [''work'', ''my-tool'']
              ([''work'', ''my-tool''] @ [''README.md''])"
    by (simp add: tool_leaves_def uv_env_def uv_tool_def)
  have u1: "tool_leaves uv_env [''uv'', ''init'', ''--lib'', path_str (Path r)] (cwd uv_env)
              ([''work'', ''my-tool''] @ [''README.md''])" if "Some ''hub'' = Some r" for r
    using that h by (auto simp: tool_leaves_def uv_env_def uv_tool_def uv_skeleton_def)
  have g2: "tool_leaves demo_env argv dir k" for argv dir k
    by (simp add: tool_leaves_def demo_env_def)
  have k2: "tool_keeps demo_env k" for k
    by (simp add: tool_keeps_def demo_env_def)
  from readme_md_removed [of uv_env "''my-tool.py''" bare_world "world_of ?b1" "[]"
      "Some ''hub''" ?pat, OF r1, unfolded d1, OF m1] g1 u1
  have a: "files (world_of (migrate_script uv_env (Some ''hub'') ?pat ''my-tool.py'' bare_world))
             [''work'', ''my-tool'', ''README.md''] = None"
    by auto
  from readme_md_removed [of demo_env "''done.py''" demo_world "world_of ?b2"
      "''# done\<newline>''" "Some ''hub''" ?pat, OF r2, unfolded d2, OF m2] g2 k2 o2
  have b: "files (world_of (migrate_script demo_env (Some ''hub'') ?pat ''done.py'' demo_world))
             [''work'', ''done'', ''README.md''] = None"
    "files (world_of (migrate_script demo_env (Some ''hub'') ?pat ''done.py'' demo_world))
             [''work'', ''done'', ''README.org''] = Some (File ''* done, by hand\<newline>'')"
    by auto
  have c: "files (world_of (migrate_script uv_env (Some ''hub'') ?pat ''my-tool.py'' bare_world))
             [''work'', ''my-tool'', ''README.org'']
           = Some (File ''* my-tool\<newline>\<newline>Migrated from `my-tool.py`'')"
    by code_simp
  have e: "files demo_world [''work'', ''done'', ''README.md''] = Some (File ''# done\<newline>'')"
    by code_simp
  from m1 a b c e show ?thesis by simp
qed

end
